(* ===== verification/PF_Prelude.thy ===== *)
theory PF_Prelude
  imports Main "HOL-Library.Word"
begin

text \<open>
  Shared vocabulary of the development: the machine types of the C++ sources, the model of
  \<^verbatim>\<open>std::map\<close> (an association list kept sorted by key, so that iteration order and
  \<^verbatim>\<open>begin()\<close> are the source's), the interface of that container as a locale with its
  interpretation, the gated-region argument that the lifecycle and the runtime proofs share,
  and the fact collections of the component theories.
\<close>

section \<open>Machine types\<close>

type_synonym u8 = "8 word"
type_synonym u16 = "16 word"
type_synonym u32 = "32 word"
type_synonym u64 = "64 word"
type_synonym byte = "8 word"

named_theorems ref_adapter_defs "definitions of the reference adapter operations"
named_theorems rt_defs "definitions of the runtime operations"
named_theorems rt_frame "what a runtime operation leaves unchanged"
named_theorems codec_rt "decoding an encoded value gives the value back"
named_theorems codec_len "length of an encoded value"

section \<open>Generic lemmas\<close>

lemma unat_less_64: "unat (w :: u64) < 2 ^ 64"
  using unsigned_less [of w, where ?'a = nat] by simp

lemma unat_less_32: "unat (w :: u32) < 2 ^ 32"
  using unsigned_less [of w, where ?'a = nat] by simp

lemma take_length_append [simp]: "take (length xs) (xs @ ys) = xs"
  by simp

lemma drop_length_append [simp]: "drop (length xs) (xs @ ys) = ys"
  by simp

lemma list_update_append_cases:
  assumes "i < length xs + length ys"
  shows "(xs @ ys)[i := v] = (if i < length xs then xs[i := v] @ ys else xs @ ys[i - length xs := v])"
  by (simp add: list_update_append)

text \<open>Two ways of cutting the same list: the shorter front is a part of the longer one.\<close>

lemma shorter_front:
  assumes "xs @ us = ys @ vs" "length xs < length ys"
  shows "xs = take (length xs) ys"
  using arg_cong [OF assms(1), of "take (length xs)"] assms(2) by simp

lemma longer_front:
  assumes "xs @ us = ys @ vs" "length ys \<le> length xs"
  shows "\<exists>ws. xs = ys @ ws \<and> ws @ us = vs"
proof -
  have "take (length ys) xs = ys" using arg_cong [OF assms(1), of "take (length ys)"] assms(2) by simp
  then have "xs = ys @ drop (length ys) xs" using append_take_drop_id [of "length ys" xs] by simp
  moreover then have "drop (length ys) xs @ us = vs" using assms(1) by (metis append_assoc same_append_eq)
  ultimately show ?thesis by blast
qed

section \<open>The ordered map of the C++ standard library\<close>

text \<open>
  \<^verbatim>\<open>std::map<K, V>\<close> is an association list with strictly increasing keys. A lookup
  (\<^verbatim>\<open>find\<close>) is \<^const>\<open>map_of\<close>; \<^verbatim>\<open>m[k] = v\<close> is \<open>map_assign\<close>.
\<close>

type_synonym ('k, 'v) std_map = "('k \<times> 'v) list"

fun map_assign :: "'k::linorder \<Rightarrow> 'v \<Rightarrow> ('k, 'v) std_map \<Rightarrow> ('k, 'v) std_map" where
  "map_assign k v [] = [(k, v)]"
| "map_assign k v ((k', v') # m) =
     (if k < k' then (k, v) # (k', v') # m
      else if k = k' then (k, v) # m
      else (k', v') # map_assign k v m)"

definition map_wf :: "('k::linorder, 'v) std_map \<Rightarrow> bool" where
  "map_wf m \<longleftrightarrow> sorted_wrt (<) (map fst m)"

text \<open>The contract that the clients of the container rely on.\<close>

locale ordered_map =
  fixes empty :: 'm
    and find :: "'m \<Rightarrow> 'k::linorder \<Rightarrow> 'v option"
    and assign :: "'k \<Rightarrow> 'v \<Rightarrow> 'm \<Rightarrow> 'm"
    and entries :: "'m \<Rightarrow> ('k \<times> 'v) list"
    and wf :: "'m \<Rightarrow> bool"
  assumes wf_empty: "wf empty"
    and entries_empty: "entries empty = []"
    and wf_assign: "wf m \<Longrightarrow> wf (assign k v m)"
    and find_assign: "find (assign k v m) k' = (if k' = k then Some v else find m k')"
    and find_entries: "find m k = map_of (entries m) k"
    and entries_sorted: "wf m \<Longrightarrow> sorted_wrt (<) (map fst (entries m))"
begin

lemma entries_distinct: "wf m \<Longrightarrow> distinct (map fst (entries m))"
  using entries_sorted strict_sorted_iff by blast

lemma find_empty: "find empty k = None"
  by (simp add: find_entries entries_empty)

lemma find_iff_entry: "wf m \<Longrightarrow> find m k = Some v \<longleftrightarrow> (k, v) \<in> set (entries m)"
  by (simp add: find_entries entries_distinct)

lemma assign_stays_bound: "find m k \<noteq> None \<Longrightarrow> find (assign k' v m) k \<noteq> None"
  by (simp add: find_assign)

lemma fold_assign_wf: "wf m \<Longrightarrow> wf (fold (\<lambda>(k, v). assign k v) kvs m)"
  by (induction kvs arbitrary: m) (auto simp: wf_assign)

lemma fold_assign_find:
  "distinct (map fst kvs) \<Longrightarrow>
   find (fold (\<lambda>(k, v). assign k v) kvs m) k = (case map_of kvs k of Some v \<Rightarrow> Some v | None \<Rightarrow> find m k)"
proof (induction kvs arbitrary: m)
  case (Cons kv kvs)
  obtain k0 v0 where kv: "kv = (k0, v0)" by (cases kv)
  have nin: "map_of kvs k0 = None" using Cons.prems kv by (auto simp: map_of_eq_None_iff)
  show ?case using Cons kv nin by (auto simp: find_assign split: option.splits)
qed simp

end

lemma map_assign_keys: "set (map fst (map_assign k v m)) = insert k (set (map fst m))"
  by (induction k v m rule: map_assign.induct) auto

lemma map_assign_subset: "set (map_assign k v m) \<subseteq> insert (k, v) (set m)"
  by (induction k v m rule: map_assign.induct) auto

lemma map_assign_wf: "map_wf m \<Longrightarrow> map_wf (map_assign k v m)"
proof (induction k v m rule: map_assign.induct)
  case (2 k v k' v' m)
  have keys: "\<forall>x \<in> set (map fst (map_assign k v m)). x = k \<or> x \<in> set (map fst m)"
    using map_assign_keys [of k v m] by blast
  have "\<forall>x \<in> set (map fst (map_assign k v m)). k' < x" if "\<not> k < k'" "k \<noteq> k'"
  proof
    fix x assume "x \<in> set (map fst (map_assign k v m))"
    then have "x = k \<or> x \<in> set (map fst m)" using keys by blast
    moreover have "\<forall>y \<in> set (map fst m). k' < y" using 2(2) by (simp add: map_wf_def)
    ultimately show "k' < x" using that by auto
  qed
  then show ?case using 2 by (auto simp: map_wf_def)
qed (simp add: map_wf_def)

lemma map_of_map_assign: "map_of (map_assign k v m) k' = (if k' = k then Some v else map_of m k')"
  by (induction k v m rule: map_assign.induct) auto

interpretation smap: ordered_map "[]" map_of map_assign "\<lambda>m. m" map_wf
proof unfold_locales
  show "map_wf ([] :: ('a \<times> 'b) list)" by (simp add: map_wf_def)
next
  fix m :: "('a \<times> 'b) list" and k v
  show "map_wf m \<Longrightarrow> map_wf (map_assign k v m)" by (rule map_assign_wf)
next
  fix m :: "('a \<times> 'b) list"
  show "map_wf m \<Longrightarrow> sorted_wrt (<) (map fst m)" by (simp add: map_wf_def)
qed (simp_all add: map_of_map_assign)

text \<open>Inserting in key order rebuilds the list: a map survives being written out and read back.\<close>

lemma map_assign_snoc: "\<forall>k' \<in> fst ` set m. k' < k \<Longrightarrow> map_assign k v m = m @ [(k, v)]"
  by (induction m) auto

lemma foldl_assign_sorted:
  "sorted_wrt (<) (map fst acc @ map key xs) \<Longrightarrow>
   foldl (\<lambda>m x. map_assign (key x) (val x) m) acc xs = acc @ map (\<lambda>x. (key x, val x)) xs"
proof (induction xs arbitrary: acc)
  case (Cons x xs)
  have "\<forall>k' \<in> fst ` set acc. k' < key x" using Cons.prems by (auto simp: sorted_wrt_append)
  then have "map_assign (key x) (val x) acc = acc @ [(key x, val x)]" by (rule map_assign_snoc)
  then show ?case using Cons.IH [of "acc @ [(key x, val x)]"] Cons.prems by simp
qed simp

text \<open>Two well-formed maps with the same lookups are the same list.\<close>

lemma map_wf_unique:
  assumes "map_wf m" "map_wf n" "map_of m = map_of n"
  shows "m = n"
proof -
  have ks: "map fst m = map fst n"
  proof (rule strict_sorted_equal)
    show "sorted_wrt (<) (map fst m)" "sorted_wrt (<) (map fst n)"
      using assms(1,2) by (simp_all add: map_wf_def)
    show "set (map fst m) = set (map fst n)"
      using assms(3) by (metis dom_map_of_conv_image_fst set_map)
  qed
  moreover have "map snd m = map snd n"
  proof -
    have "distinct (map fst m)" "distinct (map fst n)"
      using assms(1,2) smap.entries_distinct by auto
    then have "\<forall>x y. (x, y) \<in> set m \<longleftrightarrow> map_of m x = Some y" "\<forall>x y. (x, y) \<in> set n \<longleftrightarrow> map_of n x = Some y"
      by auto
    then have same: "set m = set n" using assms(3) by auto
    show ?thesis
    proof (rule nth_equalityI)
      show len: "length (map snd m) = length (map snd n)" using ks by (metis length_map)
      fix i assume i: "i < length (map snd m)"
      have "fst (m ! i) = fst (n ! i)" using ks i len by (metis length_map nth_map)
      moreover have "m ! i \<in> set n" "n ! i \<in> set n"
        using same i len nth_mem [of i m] by auto
      ultimately have "snd (m ! i) = snd (n ! i)"
        using \<open>distinct (map fst n)\<close> by (metis eq_key_imp_eq_value prod.collapse)
      then show "map snd m ! i = map snd n ! i" using i len by simp
    qed
  qed
  ultimately show ?thesis by (metis zip_map_fst_snd)
qed

section \<open>Regions that can only be left through a gate\<close>

text \<open>
  The ordering theorems of the lifecycle and of the runtime are all of one shape: from a
  region of states every step stays in the region or enters the gate, so no path leaves the
  region without having been in the gate.
\<close>

inductive steps :: "('s \<Rightarrow> 's \<Rightarrow> bool) \<Rightarrow> 's \<Rightarrow> 's list \<Rightarrow> 's \<Rightarrow> bool" for step where
  steps_nil: "steps step s [] s"
| steps_cons: "step s t \<Longrightarrow> steps step t ts u \<Longrightarrow> steps step s (t # ts) u"

inductive_cases steps_nilE: "steps step s [] u"
inductive_cases steps_consE: "steps step s (t # ts) u"
inductive_simps steps_nil_iff [simp]: "steps step s [] u"
inductive_simps steps_cons_iff [simp]: "steps step s (t # ts) u"

lemma steps_append_iff:
  "steps step s (xs @ ys) u \<longleftrightarrow> (\<exists>m. steps step s xs m \<and> steps step m ys u)"
  by (induction xs arbitrary: s) auto

lemma steps_append_tail: "steps step s (xs @ x # ys) u \<Longrightarrow> steps step x ys u"
  by (auto simp: steps_append_iff)

locale gated_region =
  fixes step :: "'s \<Rightarrow> 's \<Rightarrow> bool"
    and region :: "'s \<Rightarrow> bool"
    and gate :: "'s \<Rightarrow> bool"
  assumes stays_or_gate: "step s t \<Longrightarrow> region s \<Longrightarrow> region t \<or> gate t"
begin

lemma leaves_through_gate:
  "steps step s ts u \<Longrightarrow> region s \<Longrightarrow> \<not> region u \<Longrightarrow> \<exists>t \<in> set ts. gate t"
  by (induction rule: steps.induct) (auto dest: stays_or_gate)

lemma last_gate:
  assumes "steps step s ts u" "region s" "\<not> region u"
  shows "\<exists>ts1 t ts2. ts = ts1 @ t # ts2 \<and> gate t \<and> steps step t ts2 u \<and> (\<forall>x \<in> set (t # ts2). \<not> region x)"
  using assms
proof (induction rule: steps.induct)
  case (steps_cons s t ts u)
  show ?case
  proof (cases "region t")
    case True
    then obtain ts1 t' ts2 where "ts = ts1 @ t' # ts2" "gate t'" "steps step t' ts2 u" "\<forall>x \<in> set (t' # ts2). \<not> region x"
      using steps_cons.IH steps_cons.prems by blast
    then show ?thesis by (metis append_Cons)
  next
    case False
    show ?thesis
    proof (cases "\<exists>x \<in> set ts. region x")
      case True
      then obtain ys x zs where split: "ts = ys @ x # zs" "region x" "\<forall>z \<in> set zs. \<not> region z"
        by (metis split_list_last_prop)
      have "steps step x zs u" using steps_cons.hyps(2) split(1) steps_append_tail by metis
      then obtain z zs' where zs: "zs = z # zs'" "step x z" "steps step z zs' u"
        using split(2) steps_cons.prems(2) by (cases zs) auto
      then have "gate z" using stays_or_gate split by auto
      then show ?thesis using split zs by (intro exI [of _ "t # ys @ [x]"] exI [of _ z] exI [of _ zs']) simp
    next
      case no: False
      have "gate t" using stays_or_gate steps_cons.hyps(1) steps_cons.prems(1) False by blast
      then show ?thesis using steps_cons.hyps(2) no False by (intro exI [of _ "[]"] exI [of _ t] exI [of _ ts]) auto
    qed
  qed
qed simp

lemma avoids_gate_stays:
  "steps step s ts u \<Longrightarrow> region s \<Longrightarrow> \<forall>t \<in> set ts. \<not> gate t \<Longrightarrow> region u"
  using leaves_through_gate by blast

end

end
