(* ===== verification/PF_Identity.thy ===== *)
theory PF_Identity
  imports PF_Prelude
begin

text \<open>
  The strongly typed identities and generations of
  \<^verbatim>\<open>include/preemption_fabric/core/identity.hpp\<close>. The class templates
  \<^verbatim>\<open>Generation<Tag>\<close> and \<^verbatim>\<open>Id<Tag>\<close> become datatypes with a phantom type
  parameter, and each empty tag struct a one-element datatype, so that the type checker of the
  logic separates the identity domains exactly as the C++ type checker does.
\<close>

unbundle bit_operations_syntax

section \<open>The two class templates\<close>

datatype 'd Generation = GenV (gen_value: u64)

datatype 'd Id = IdV (id_value: u64)

abbreviation kInvalidValue :: u64 where
  "kInvalidValue \<equiv> 0"

definition kMaxValue :: u64 where
  "kMaxValue = NOT 0"

definition gen_default :: "'d Generation" where
  "gen_default = GenV kInvalidValue"

definition gen_is_valid :: "'d Generation \<Rightarrow> bool" where
  "gen_is_valid g \<longleftrightarrow> gen_value g \<noteq> kInvalidValue"

definition gen_is_default :: "'d Generation \<Rightarrow> bool" where
  "gen_is_default g \<longleftrightarrow> gen_value g = kInvalidValue"

definition gen_next :: "'d Generation \<Rightarrow> 'd Generation" where
  "gen_next g = (if gen_value g = kMaxValue then g else GenV (gen_value g + 1))"

definition id_default :: "'d Id" where
  "id_default = IdV kInvalidValue"

definition id_is_valid :: "'d Id \<Rightarrow> bool" where
  "id_is_valid i \<longleftrightarrow> id_value i \<noteq> kInvalidValue"

definition id_is_default :: "'d Id \<Rightarrow> bool" where
  "id_is_default i \<longleftrightarrow> id_value i = kInvalidValue"

definition id_next :: "'d Id \<Rightarrow> 'd Id" where
  "id_next i = IdV (if id_value i = kMaxValue then id_value i else id_value i + 1)"

text \<open>
  Both templates are compared by their value (\<^verbatim>\<open>operator<=>\<close>, with the results of
  \<^verbatim>\<open>std::strong_ordering\<close>), which makes them linear orders.
\<close>

datatype strong_ordering = OrdLess | OrdEqual | OrdGreater

definition compare_u64 :: "u64 \<Rightarrow> u64 \<Rightarrow> strong_ordering" where
  "compare_u64 a b = (if a < b then OrdLess else if a = b then OrdEqual else OrdGreater)"

definition gen_compare :: "'d Generation \<Rightarrow> 'd Generation \<Rightarrow> strong_ordering" where
  "gen_compare a b = compare_u64 (gen_value a) (gen_value b)"

definition id_compare :: "'d Id \<Rightarrow> 'd Id \<Rightarrow> strong_ordering" where
  "id_compare a b = compare_u64 (id_value a) (id_value b)"

instantiation Generation :: (type) linorder
begin

definition less_eq_Generation :: "'a Generation \<Rightarrow> 'a Generation \<Rightarrow> bool" where
  "less_eq_Generation a b \<longleftrightarrow> gen_value a \<le> gen_value b"

definition less_Generation :: "'a Generation \<Rightarrow> 'a Generation \<Rightarrow> bool" where
  "less_Generation a b \<longleftrightarrow> gen_value a < gen_value b"

instance
  by standard (auto simp: less_eq_Generation_def less_Generation_def intro: Generation.expand)

end

instantiation Id :: (type) linorder
begin

definition less_eq_Id :: "'a Id \<Rightarrow> 'a Id \<Rightarrow> bool" where
  "less_eq_Id a b \<longleftrightarrow> id_value a \<le> id_value b"

definition less_Id :: "'a Id \<Rightarrow> 'a Id \<Rightarrow> bool" where
  "less_Id a b \<longleftrightarrow> id_value a < id_value b"

instance
  by standard (auto simp: less_eq_Id_def less_Id_def intro: Id.expand)

end

lemma less_IdV [simp]: "IdV a < IdV b \<longleftrightarrow> a < b" "IdV a \<le> IdV b \<longleftrightarrow> a \<le> b"
  by (simp_all add: less_Id_def less_eq_Id_def)

lemma less_GenV [simp]: "GenV a < GenV b \<longleftrightarrow> a < b" "GenV a \<le> GenV b \<longleftrightarrow> a \<le> b"
  by (simp_all add: less_Generation_def less_eq_Generation_def)

lemma compare_orders:
  "gen_compare g h = OrdLess \<longleftrightarrow> g < h" "gen_compare g h = OrdEqual \<longleftrightarrow> g = h" "gen_compare g h = OrdGreater \<longleftrightarrow> h < g"
  "id_compare i j = OrdLess \<longleftrightarrow> i < j" "id_compare i j = OrdEqual \<longleftrightarrow> i = j" "id_compare i j = OrdGreater \<longleftrightarrow> j < i"
  by (cases g; cases h; cases i; cases j; auto simp: gen_compare_def id_compare_def compare_u64_def)+

section \<open>The identity domains\<close>

datatype PreemptionRequestDomain = PreemptionRequestDomain
datatype PreemptionPlanDomain = PreemptionPlanDomain
datatype PreemptionAttemptDomain = PreemptionAttemptDomain
datatype WorkloadDomain = WorkloadDomain
datatype ExecutionDomain = ExecutionDomain
datatype AttemptDomain = AttemptDomain
datatype WorkerDomain = WorkerDomain
datatype CoordinatorDomain = CoordinatorDomain
datatype SafePointDomain = SafePointDomain
datatype QuiescenceDomain = QuiescenceDomain
datatype ProgressDomain = ProgressDomain
datatype StateCaptureDomain = StateCaptureDomain
datatype CheckpointDomain = CheckpointDomain
datatype PreservationDomain = PreservationDomain
datatype ResourceContractDomain = ResourceContractDomain
datatype ResumeDomain = ResumeDomain
datatype DependencyDomain = DependencyDomain
datatype PriorityDomain = PriorityDomain
datatype PolicyDomain = PolicyDomain
datatype AuthorityDomain = AuthorityDomain

type_synonym PreemptionRequestId = "PreemptionRequestDomain Id"
type_synonym PreemptionRequestGeneration = "PreemptionRequestDomain Generation"
type_synonym PreemptionPlanId = "PreemptionPlanDomain Id"
type_synonym PreemptionPlanGeneration = "PreemptionPlanDomain Generation"
type_synonym PreemptionAttemptId = "PreemptionAttemptDomain Id"
type_synonym PreemptionAttemptGeneration = "PreemptionAttemptDomain Generation"
type_synonym WorkloadId = "WorkloadDomain Id"
type_synonym WorkloadGeneration = "WorkloadDomain Generation"
type_synonym ExecutionId = "ExecutionDomain Id"
type_synonym ExecutionGeneration = "ExecutionDomain Generation"
type_synonym AttemptId = "AttemptDomain Id"
type_synonym AttemptGeneration = "AttemptDomain Generation"
type_synonym WorkerId = "WorkerDomain Id"
type_synonym WorkerBootId = "WorkerDomain Id"
type_synonym CoordinatorId = "CoordinatorDomain Id"
type_synonym CoordinatorEpoch = "CoordinatorDomain Generation"
type_synonym SafePointId = "SafePointDomain Id"
type_synonym SafePointGeneration = "SafePointDomain Generation"
type_synonym QuiescenceGeneration = "QuiescenceDomain Generation"
type_synonym ProgressGeneration = "ProgressDomain Generation"
type_synonym StateCaptureId = "StateCaptureDomain Id"
type_synonym StateCaptureGeneration = "StateCaptureDomain Generation"
type_synonym CheckpointRef = "CheckpointDomain Id"
type_synonym CheckpointGeneration = "CheckpointDomain Generation"
type_synonym PreservationGeneration = "PreservationDomain Generation"
type_synonym ResourceContractId = "ResourceContractDomain Id"
type_synonym ResourceContractGeneration = "ResourceContractDomain Generation"
type_synonym ReleaseGeneration = "ResourceContractDomain Generation"
type_synonym ResumeId = "ResumeDomain Id"
type_synonym ResumeGeneration = "ResumeDomain Generation"
type_synonym DependencyId = "DependencyDomain Id"
type_synonym DependencyGeneration = "DependencyDomain Generation"
type_synonym PriorityGeneration = "PriorityDomain Generation"
type_synonym PolicyGeneration = "PolicyDomain Generation"
type_synonym AuthorityGeneration = "AuthorityDomain Generation"

section \<open>The counter contract of both templates\<close>

lemma unat_kMaxValue: "unat kMaxValue = 2 ^ 64 - 1"
  by (simp add: kMaxValue_def unsigned_minus_1_eq_mask mask_eq_exp_minus_1)

lemma unat_inc_u64:
  fixes w :: u64
  assumes "w \<noteq> kMaxValue"
  shows "unat (w + 1) = Suc (unat w)"
proof -
  have "unat w \<noteq> 2 ^ 64 - 1"
    using assms unat_kMaxValue by (metis word_unat_eq_iff)
  then have "unat w + 1 < 2 ^ 64" using unat_less_64 [of w] by simp
  then show ?thesis by (simp add: unat_word_ariths)
qed

locale saturating_counter =
  fixes val :: "'c::linorder \<Rightarrow> u64"
    and mk :: "u64 \<Rightarrow> 'c"
    and nxt :: "'c \<Rightarrow> 'c"
    and valid :: "'c \<Rightarrow> bool"
  assumes val_mk: "val (mk v) = v"
    and mk_val: "mk (val c) = c"
    and le_val: "c \<le> c' \<longleftrightarrow> val c \<le> val c'"
    and nxt_val: "val (nxt c) = (if val c = kMaxValue then val c else val c + 1)"
    and valid_val: "valid c \<longleftrightarrow> val c \<noteq> 0"
begin

lemma val_inject: "val c = val c' \<longleftrightarrow> c = c'"
  using mk_val by metis

lemma less_val: "c < c' \<longleftrightarrow> val c < val c'"
  using le_val [of c' c] by (metis linorder_not_le)

lemma nxt_unat: "unat (val (nxt c)) = min (Suc (unat (val c))) (2 ^ 64 - 1)"
proof (cases "val c = kMaxValue")
  case True
  then show ?thesis by (simp add: nxt_val unat_kMaxValue)
next
  case False
  then have "Suc (unat (val c)) \<le> 2 ^ 64 - 1"
    using unat_inc_u64 [of "val c"] unat_less_64 [of "val c + 1"] by simp
  then show ?thesis using False by (simp add: nxt_val unat_inc_u64)
qed

lemma nxt_iterate: "unat (val ((nxt ^^ n) c)) = min (unat (val c) + n) (2 ^ 64 - 1)"
proof (induction n)
  case 0
  show ?case using unat_less_64 [of "val c"] by simp
next
  case (Suc n)
  then show ?case by (simp add: nxt_unat)
qed

lemma nxt_valid: "valid (nxt c)"
proof -
  have "unat (val (nxt c)) \<noteq> 0" by (simp add: nxt_unat)
  then show ?thesis by (simp add: valid_val unat_eq_zero)
qed

lemma nxt_le: "c \<le> nxt c"
  using nxt_unat [of c] unat_less_64 [of "val c"] by (simp add: le_val word_le_nat_alt)

lemma nxt_less: "val c \<noteq> kMaxValue \<Longrightarrow> c < nxt c"
  by (simp add: less_val nxt_val word_less_nat_alt unat_inc_u64)

lemma nxt_fixed: "nxt c = c \<longleftrightarrow> val c = kMaxValue"
  using nxt_less [of c] by (auto simp: nxt_val simp flip: val_inject)

end

interpretation gen: saturating_counter gen_value GenV gen_next gen_is_valid
  by unfold_locales (auto simp: less_eq_Generation_def gen_next_def gen_is_valid_def)

interpretation id: saturating_counter id_value IdV id_next id_is_valid
  by unfold_locales (auto simp: less_eq_Id_def id_next_def id_is_valid_def)

lemma gen_valid_simps [simp]:
  "gen_is_valid (GenV v) \<longleftrightarrow> v \<noteq> 0" "\<not> gen_is_valid gen_default" "gen_is_valid (gen_next g)"
  using gen.nxt_valid [of g] by (simp_all add: gen_is_valid_def gen_default_def)

lemma id_valid_simps [simp]:
  "id_is_valid (IdV v) \<longleftrightarrow> v \<noteq> 0" "\<not> id_is_valid id_default" "id_is_valid (id_next i)"
  using id.nxt_valid [of i] by (simp_all add: id_is_valid_def id_default_def)

text \<open>
  C34: generations and ids never wrap: after any number of increments the value is the start value
  plus that number, capped at the greatest 64-bit value, so a counter that has been advanced is
  valid and never older than it was.
\<close>
theorem counters_saturate:
  "unat (gen_value ((gen_next ^^ n) g)) = min (unat (gen_value g) + n) (2 ^ 64 - 1) \<and>
   unat (id_value ((id_next ^^ n) i)) = min (unat (id_value i) + n) (2 ^ 64 - 1) \<and>
   gen_is_valid (gen_next g) \<and> id_is_valid (id_next i) \<and> g \<le> gen_next g \<and> i \<le> id_next i"
  by (intro conjI gen.nxt_iterate id.nxt_iterate gen.nxt_valid id.nxt_valid gen.nxt_le id.nxt_le)

end
