(* ===== verification/PF_Enums.thy ===== *)
theory PF_Enums
  imports PF_Prelude
begin

text \<open>
  The enumerations of \<^verbatim>\<open>include/preemption_fabric/core/enums.hpp\<close> and the name-table
  helpers of \<^verbatim>\<open>include/preemption_fabric/core/enum_codec.hpp\<close>. An enum class becomes a
  datatype with the source's enumerators; its \<open>_values\<close> list gives them in the order of their
  numeric values (each enum of the source counts up from 0), so that a \<^verbatim>\<open>static_cast\<close> to
  \<^verbatim>\<open>std::uint32_t\<close> is the position in the list, and a bounds check followed by the cast back
  is \<open>enum_cast\<close>. Two locales carry what the codecs rely on: \<open>wire_enum\<close> for the numeric
  form and \<open>name_table\<close> for the printed form.
\<close>

section \<open>Conversion helpers\<close>

fun name_of :: "'e \<Rightarrow> ('e \<times> string) list \<Rightarrow> string" where
  "name_of v [] = ''<unknown>''"
| "name_of v ((e, n) # table) = (if e = v then n else name_of v table)"

fun value_of :: "string \<Rightarrow> ('e \<times> string) list \<Rightarrow> 'e option" where
  "value_of s [] = None"
| "value_of s ((e, n) # table) = (if n = s then Some e else value_of s table)"

fun position :: "'e list \<Rightarrow> 'e \<Rightarrow> nat" where
  "position [] e = 0"
| "position (x # xs) e = (if x = e then 0 else Suc (position xs e))"

definition enum_u32 :: "'e list \<Rightarrow> 'e \<Rightarrow> u32" where
  "enum_u32 vals e = word_of_nat (position vals e)"

definition enum_cast :: "'e list \<Rightarrow> u32 \<Rightarrow> 'e option" where
  "enum_cast vals t = (if unat t < length vals then Some (vals ! unat t) else None)"

section \<open>The enumerations\<close>

datatype PreemptionReason =
    kInvalid | kHigherPriorityWork | kResourceReclamation | kFairness
  | kSloProtection | kAdministrative | kMigration | kCapacityPressure
  | kThermalOrPowerPressure | kMaintenance | kDrain | kPolicyChange
  | kDependencyChange | kUnknown

definition PreemptionReason_values :: "PreemptionReason list" where
  "PreemptionReason_values =
     [PreemptionReason.kInvalid, PreemptionReason.kHigherPriorityWork, PreemptionReason.kResourceReclamation,
      PreemptionReason.kFairness, PreemptionReason.kSloProtection, PreemptionReason.kAdministrative,
      PreemptionReason.kMigration, PreemptionReason.kCapacityPressure, PreemptionReason.kThermalOrPowerPressure,
      PreemptionReason.kMaintenance, PreemptionReason.kDrain, PreemptionReason.kPolicyChange,
      PreemptionReason.kDependencyChange, PreemptionReason.kUnknown]"

definition kPreemptionReasonNames :: "(PreemptionReason \<times> string) list" where
  "kPreemptionReasonNames =
     [(PreemptionReason.kHigherPriorityWork, ''HIGHER_PRIORITY_WORK''),
      (PreemptionReason.kResourceReclamation, ''RESOURCE_RECLAMATION''),
      (PreemptionReason.kFairness, ''FAIRNESS''),
      (PreemptionReason.kSloProtection, ''SLO_PROTECTION''),
      (PreemptionReason.kAdministrative, ''ADMINISTRATIVE''),
      (PreemptionReason.kMigration, ''MIGRATION''),
      (PreemptionReason.kCapacityPressure, ''CAPACITY_PRESSURE''),
      (PreemptionReason.kThermalOrPowerPressure, ''THERMAL_OR_POWER_PRESSURE''),
      (PreemptionReason.kMaintenance, ''MAINTENANCE''),
      (PreemptionReason.kDrain, ''DRAIN''),
      (PreemptionReason.kPolicyChange, ''POLICY_CHANGE''),
      (PreemptionReason.kDependencyChange, ''DEPENDENCY_CHANGE''),
      (PreemptionReason.kUnknown, ''UNKNOWN'')]"

definition PreemptionReason_to_string :: "PreemptionReason \<Rightarrow> string" where
  "PreemptionReason_to_string v = name_of v kPreemptionReasonNames"

definition preemption_reason_from_string :: "string \<Rightarrow> PreemptionReason option" where
  "preemption_reason_from_string s = value_of s kPreemptionReasonNames"

datatype PreemptibilityClass =
    kInvalid | kPreemptibleNow | kPreemptibleAtSafePoint | kPreemptibleAfterStateCapture
  | kPreemptibleAfterCommitBoundary | kRecomputableFromDurableProgress | kTemporarilyUnsafe | kNonPreemptible
  | kUnsupported | kUnknown

definition PreemptibilityClass_values :: "PreemptibilityClass list" where
  "PreemptibilityClass_values =
     [PreemptibilityClass.kInvalid, PreemptibilityClass.kPreemptibleNow, PreemptibilityClass.kPreemptibleAtSafePoint,
      PreemptibilityClass.kPreemptibleAfterStateCapture, PreemptibilityClass.kPreemptibleAfterCommitBoundary, PreemptibilityClass.kRecomputableFromDurableProgress,
      PreemptibilityClass.kTemporarilyUnsafe, PreemptibilityClass.kNonPreemptible, PreemptibilityClass.kUnsupported,
      PreemptibilityClass.kUnknown]"

definition kPreemptibilityClassNames :: "(PreemptibilityClass \<times> string) list" where
  "kPreemptibilityClassNames =
     [(PreemptibilityClass.kPreemptibleNow, ''PREEMPTIBLE_NOW''),
      (PreemptibilityClass.kPreemptibleAtSafePoint, ''PREEMPTIBLE_AT_SAFE_POINT''),
      (PreemptibilityClass.kPreemptibleAfterStateCapture, ''PREEMPTIBLE_AFTER_STATE_CAPTURE''),
      (PreemptibilityClass.kPreemptibleAfterCommitBoundary, ''PREEMPTIBLE_AFTER_COMMIT_BOUNDARY''),
      (PreemptibilityClass.kRecomputableFromDurableProgress, ''RECOMPUTABLE_FROM_DURABLE_PROGRESS''),
      (PreemptibilityClass.kTemporarilyUnsafe, ''TEMPORARILY_UNSAFE''),
      (PreemptibilityClass.kNonPreemptible, ''NON_PREEMPTIBLE''),
      (PreemptibilityClass.kUnsupported, ''UNSUPPORTED''),
      (PreemptibilityClass.kUnknown, ''UNKNOWN'')]"

definition PreemptibilityClass_to_string :: "PreemptibilityClass \<Rightarrow> string" where
  "PreemptibilityClass_to_string v = name_of v kPreemptibilityClassNames"

datatype PreemptionOutcome =
    kInvalid | kSafePreemptionCompleted | kDeferToSafePoint | kStateCaptureRequired
  | kCannotPreemptSafely | kNonPreemptible | kForceTerminationRequired | kPreemptionAborted
  | kPreemptionFailed

definition PreemptionOutcome_values :: "PreemptionOutcome list" where
  "PreemptionOutcome_values =
     [PreemptionOutcome.kInvalid, PreemptionOutcome.kSafePreemptionCompleted, PreemptionOutcome.kDeferToSafePoint,
      PreemptionOutcome.kStateCaptureRequired, PreemptionOutcome.kCannotPreemptSafely, PreemptionOutcome.kNonPreemptible,
      PreemptionOutcome.kForceTerminationRequired, PreemptionOutcome.kPreemptionAborted, PreemptionOutcome.kPreemptionFailed]"

definition kPreemptionOutcomeNames :: "(PreemptionOutcome \<times> string) list" where
  "kPreemptionOutcomeNames =
     [(PreemptionOutcome.kSafePreemptionCompleted, ''SAFE_PREEMPTION_COMPLETED''),
      (PreemptionOutcome.kDeferToSafePoint, ''DEFER_TO_SAFE_POINT''),
      (PreemptionOutcome.kStateCaptureRequired, ''STATE_CAPTURE_REQUIRED''),
      (PreemptionOutcome.kCannotPreemptSafely, ''CANNOT_PREEMPT_SAFELY''),
      (PreemptionOutcome.kNonPreemptible, ''NON_PREEMPTIBLE''),
      (PreemptionOutcome.kForceTerminationRequired, ''FORCE_TERMINATION_REQUIRED''),
      (PreemptionOutcome.kPreemptionAborted, ''PREEMPTION_ABORTED''),
      (PreemptionOutcome.kPreemptionFailed, ''PREEMPTION_FAILED'')]"

definition PreemptionOutcome_to_string :: "PreemptionOutcome \<Rightarrow> string" where
  "PreemptionOutcome_to_string v = name_of v kPreemptionOutcomeNames"

datatype LifecycleState =
    kInvalid | kRequested | kValidatingAuthority | kAssessing
  | kDeferred | kWaitingForSafePoint | kSafePointReached | kQuiescing
  | kQuiesced | kCaptureRequired | kCapturingState | kStateDurable
  | kReleasePending | kReleasing | kResourcesReleased | kPreempted
  | kResumePending | kRevalidating | kRestoring | kResumeReady
  | kResuming | kResumed | kCancelled | kAborted
  | kFailed | kSuperseded

definition LifecycleState_values :: "LifecycleState list" where
  "LifecycleState_values =
     [LifecycleState.kInvalid, LifecycleState.kRequested, LifecycleState.kValidatingAuthority,
      LifecycleState.kAssessing, LifecycleState.kDeferred, LifecycleState.kWaitingForSafePoint,
      LifecycleState.kSafePointReached, LifecycleState.kQuiescing, LifecycleState.kQuiesced,
      LifecycleState.kCaptureRequired, LifecycleState.kCapturingState, LifecycleState.kStateDurable,
      LifecycleState.kReleasePending, LifecycleState.kReleasing, LifecycleState.kResourcesReleased,
      LifecycleState.kPreempted, LifecycleState.kResumePending, LifecycleState.kRevalidating,
      LifecycleState.kRestoring, LifecycleState.kResumeReady, LifecycleState.kResuming,
      LifecycleState.kResumed, LifecycleState.kCancelled, LifecycleState.kAborted,
      LifecycleState.kFailed, LifecycleState.kSuperseded]"

definition kLifecycleStateNames :: "(LifecycleState \<times> string) list" where
  "kLifecycleStateNames =
     [(LifecycleState.kRequested, ''REQUESTED''),
      (LifecycleState.kValidatingAuthority, ''VALIDATING_AUTHORITY''),
      (LifecycleState.kAssessing, ''ASSESSING''),
      (LifecycleState.kDeferred, ''DEFERRED''),
      (LifecycleState.kWaitingForSafePoint, ''WAITING_FOR_SAFE_POINT''),
      (LifecycleState.kSafePointReached, ''SAFE_POINT_REACHED''),
      (LifecycleState.kQuiescing, ''QUIESCING''),
      (LifecycleState.kQuiesced, ''QUIESCED''),
      (LifecycleState.kCaptureRequired, ''CAPTURE_REQUIRED''),
      (LifecycleState.kCapturingState, ''CAPTURING_STATE''),
      (LifecycleState.kStateDurable, ''STATE_DURABLE''),
      (LifecycleState.kReleasePending, ''RELEASE_PENDING''),
      (LifecycleState.kReleasing, ''RELEASING''),
      (LifecycleState.kResourcesReleased, ''RESOURCES_RELEASED''),
      (LifecycleState.kPreempted, ''PREEMPTED''),
      (LifecycleState.kResumePending, ''RESUME_PENDING''),
      (LifecycleState.kRevalidating, ''REVALIDATING''),
      (LifecycleState.kRestoring, ''RESTORING''),
      (LifecycleState.kResumeReady, ''RESUME_READY''),
      (LifecycleState.kResuming, ''RESUMING''),
      (LifecycleState.kResumed, ''RESUMED''),
      (LifecycleState.kCancelled, ''CANCELLED''),
      (LifecycleState.kAborted, ''ABORTED''),
      (LifecycleState.kFailed, ''FAILED''),
      (LifecycleState.kSuperseded, ''SUPERSEDED'')]"

definition LifecycleState_to_string :: "LifecycleState \<Rightarrow> string" where
  "LifecycleState_to_string v = name_of v kLifecycleStateNames"

definition lifecycle_state_from_string :: "string \<Rightarrow> LifecycleState option" where
  "lifecycle_state_from_string s = value_of s kLifecycleStateNames"

datatype SafePointState =
    kUnset | kDeclared | kReached | kValidating
  | kValid | kInvalid | kSuperseded | kStale
  | kUnknown

definition SafePointState_values :: "SafePointState list" where
  "SafePointState_values =
     [SafePointState.kUnset, SafePointState.kDeclared, SafePointState.kReached,
      SafePointState.kValidating, SafePointState.kValid, SafePointState.kInvalid,
      SafePointState.kSuperseded, SafePointState.kStale, SafePointState.kUnknown]"

definition kSafePointStateNames :: "(SafePointState \<times> string) list" where
  "kSafePointStateNames =
     [(SafePointState.kDeclared, ''DECLARED''),
      (SafePointState.kReached, ''REACHED''),
      (SafePointState.kValidating, ''VALIDATING''),
      (SafePointState.kValid, ''VALID''),
      (SafePointState.kInvalid, ''INVALID''),
      (SafePointState.kSuperseded, ''SUPERSEDED''),
      (SafePointState.kStale, ''STALE''),
      (SafePointState.kUnknown, ''UNKNOWN'')]"

definition SafePointState_to_string :: "SafePointState \<Rightarrow> string" where
  "SafePointState_to_string v = name_of v kSafePointStateNames"

datatype StatePreservationOutcome =
    kInvalid | kAlreadyDurable | kCaptureRequired | kCaptureInProgress
  | kCapturedAndVerified | kRecomputable | kNoDurableState | kCaptureFailed
  | kStaleCapture | kUnknown

definition StatePreservationOutcome_values :: "StatePreservationOutcome list" where
  "StatePreservationOutcome_values =
     [StatePreservationOutcome.kInvalid, StatePreservationOutcome.kAlreadyDurable, StatePreservationOutcome.kCaptureRequired,
      StatePreservationOutcome.kCaptureInProgress, StatePreservationOutcome.kCapturedAndVerified, StatePreservationOutcome.kRecomputable,
      StatePreservationOutcome.kNoDurableState, StatePreservationOutcome.kCaptureFailed, StatePreservationOutcome.kStaleCapture,
      StatePreservationOutcome.kUnknown]"

definition kStatePreservationOutcomeNames :: "(StatePreservationOutcome \<times> string) list" where
  "kStatePreservationOutcomeNames =
     [(StatePreservationOutcome.kAlreadyDurable, ''ALREADY_DURABLE''),
      (StatePreservationOutcome.kCaptureRequired, ''CAPTURE_REQUIRED''),
      (StatePreservationOutcome.kCaptureInProgress, ''CAPTURE_IN_PROGRESS''),
      (StatePreservationOutcome.kCapturedAndVerified, ''CAPTURED_AND_VERIFIED''),
      (StatePreservationOutcome.kRecomputable, ''RECOMPUTABLE''),
      (StatePreservationOutcome.kNoDurableState, ''NO_DURABLE_STATE''),
      (StatePreservationOutcome.kCaptureFailed, ''CAPTURE_FAILED''),
      (StatePreservationOutcome.kStaleCapture, ''STALE_CAPTURE''),
      (StatePreservationOutcome.kUnknown, ''UNKNOWN'')]"

definition StatePreservationOutcome_to_string :: "StatePreservationOutcome \<Rightarrow> string" where
  "StatePreservationOutcome_to_string v = name_of v kStatePreservationOutcomeNames"

datatype ResumeOutcome =
    kInvalid | kResumeEligible | kResumeBlockedStaleAuthority | kResumeBlockedStateMissing
  | kResumeBlockedStateStale | kResumeBlockedDependency | kResumeBlockedResource | kResumeBlockedCompatibility
  | kResumeBlockedPolicy | kResumeRevalidationRequired | kResumeRestoreRequired | kResumeRecomputeRequired
  | kResumeNotAllowed | kUnknown

definition ResumeOutcome_values :: "ResumeOutcome list" where
  "ResumeOutcome_values =
     [ResumeOutcome.kInvalid, ResumeOutcome.kResumeEligible, ResumeOutcome.kResumeBlockedStaleAuthority,
      ResumeOutcome.kResumeBlockedStateMissing, ResumeOutcome.kResumeBlockedStateStale, ResumeOutcome.kResumeBlockedDependency,
      ResumeOutcome.kResumeBlockedResource, ResumeOutcome.kResumeBlockedCompatibility, ResumeOutcome.kResumeBlockedPolicy,
      ResumeOutcome.kResumeRevalidationRequired, ResumeOutcome.kResumeRestoreRequired, ResumeOutcome.kResumeRecomputeRequired,
      ResumeOutcome.kResumeNotAllowed, ResumeOutcome.kUnknown]"

definition kResumeOutcomeNames :: "(ResumeOutcome \<times> string) list" where
  "kResumeOutcomeNames =
     [(ResumeOutcome.kResumeEligible, ''RESUME_ELIGIBLE''),
      (ResumeOutcome.kResumeBlockedStaleAuthority, ''RESUME_BLOCKED_STALE_AUTHORITY''),
      (ResumeOutcome.kResumeBlockedStateMissing, ''RESUME_BLOCKED_STATE_MISSING''),
      (ResumeOutcome.kResumeBlockedStateStale, ''RESUME_BLOCKED_STATE_STALE''),
      (ResumeOutcome.kResumeBlockedDependency, ''RESUME_BLOCKED_DEPENDENCY''),
      (ResumeOutcome.kResumeBlockedResource, ''RESUME_BLOCKED_RESOURCE''),
      (ResumeOutcome.kResumeBlockedCompatibility, ''RESUME_BLOCKED_COMPATIBILITY''),
      (ResumeOutcome.kResumeBlockedPolicy, ''RESUME_BLOCKED_POLICY''),
      (ResumeOutcome.kResumeRevalidationRequired, ''RESUME_REVALIDATION_REQUIRED''),
      (ResumeOutcome.kResumeRestoreRequired, ''RESUME_RESTORE_REQUIRED''),
      (ResumeOutcome.kResumeRecomputeRequired, ''RESUME_RECOMPUTE_REQUIRED''),
      (ResumeOutcome.kResumeNotAllowed, ''RESUME_NOT_ALLOWED''),
      (ResumeOutcome.kUnknown, ''UNKNOWN'')]"

definition ResumeOutcome_to_string :: "ResumeOutcome \<Rightarrow> string" where
  "ResumeOutcome_to_string v = name_of v kResumeOutcomeNames"

datatype MeasurementKind =
    kInvalid | kMeasured | kDerived | kEstimated
  | kSynthetic | kUnknown

definition MeasurementKind_values :: "MeasurementKind list" where
  "MeasurementKind_values =
     [MeasurementKind.kInvalid, MeasurementKind.kMeasured, MeasurementKind.kDerived,
      MeasurementKind.kEstimated, MeasurementKind.kSynthetic, MeasurementKind.kUnknown]"

definition kMeasurementKindNames :: "(MeasurementKind \<times> string) list" where
  "kMeasurementKindNames =
     [(MeasurementKind.kMeasured, ''MEASURED''),
      (MeasurementKind.kDerived, ''DERIVED''),
      (MeasurementKind.kEstimated, ''ESTIMATED''),
      (MeasurementKind.kSynthetic, ''SYNTHETIC''),
      (MeasurementKind.kUnknown, ''UNKNOWN'')]"

definition MeasurementKind_to_string :: "MeasurementKind \<Rightarrow> string" where
  "MeasurementKind_to_string v = name_of v kMeasurementKindNames"

datatype EvidenceKind =
    kInvalid | kReal | kSynthetic | kDerived
  | kMeasured | kEstimated | kUnsupported | kUnknown

definition EvidenceKind_values :: "EvidenceKind list" where
  "EvidenceKind_values =
     [EvidenceKind.kInvalid, EvidenceKind.kReal, EvidenceKind.kSynthetic,
      EvidenceKind.kDerived, EvidenceKind.kMeasured, EvidenceKind.kEstimated,
      EvidenceKind.kUnsupported, EvidenceKind.kUnknown]"

definition kEvidenceKindNames :: "(EvidenceKind \<times> string) list" where
  "kEvidenceKindNames =
     [(EvidenceKind.kReal, ''REAL''),
      (EvidenceKind.kSynthetic, ''SYNTHETIC''),
      (EvidenceKind.kDerived, ''DERIVED''),
      (EvidenceKind.kMeasured, ''MEASURED''),
      (EvidenceKind.kEstimated, ''ESTIMATED''),
      (EvidenceKind.kUnsupported, ''UNSUPPORTED''),
      (EvidenceKind.kUnknown, ''UNKNOWN'')]"

definition EvidenceKind_to_string :: "EvidenceKind \<Rightarrow> string" where
  "EvidenceKind_to_string v = name_of v kEvidenceKindNames"

datatype ResourceClass =
    kInvalid | kAcceleratorExecutionSlot | kDeviceMemory | kPinnedHostMemory
  | kHostMemory | kTemporaryBuffers | kModelAdapterResidency | kTransferReservation
  | kNetworkBandwidth | kStorageLease | kRuntimeHandle | kOther

definition ResourceClass_values :: "ResourceClass list" where
  "ResourceClass_values =
     [ResourceClass.kInvalid, ResourceClass.kAcceleratorExecutionSlot, ResourceClass.kDeviceMemory,
      ResourceClass.kPinnedHostMemory, ResourceClass.kHostMemory, ResourceClass.kTemporaryBuffers,
      ResourceClass.kModelAdapterResidency, ResourceClass.kTransferReservation, ResourceClass.kNetworkBandwidth,
      ResourceClass.kStorageLease, ResourceClass.kRuntimeHandle, ResourceClass.kOther]"

definition kResourceClassNames :: "(ResourceClass \<times> string) list" where
  "kResourceClassNames =
     [(ResourceClass.kAcceleratorExecutionSlot, ''ACCELERATOR_EXECUTION_SLOT''),
      (ResourceClass.kDeviceMemory, ''DEVICE_MEMORY''),
      (ResourceClass.kPinnedHostMemory, ''PINNED_HOST_MEMORY''),
      (ResourceClass.kHostMemory, ''HOST_MEMORY''),
      (ResourceClass.kTemporaryBuffers, ''TEMPORARY_BUFFERS''),
      (ResourceClass.kModelAdapterResidency, ''MODEL_ADAPTER_RESIDENCY''),
      (ResourceClass.kTransferReservation, ''TRANSFER_RESERVATION''),
      (ResourceClass.kNetworkBandwidth, ''NETWORK_BANDWIDTH''),
      (ResourceClass.kStorageLease, ''STORAGE_LEASE''),
      (ResourceClass.kRuntimeHandle, ''RUNTIME_HANDLE''),
      (ResourceClass.kOther, ''OTHER'')]"

definition ResourceClass_to_string :: "ResourceClass \<Rightarrow> string" where
  "ResourceClass_to_string v = name_of v kResourceClassNames"

datatype ProgressKind =
    kInvalid | kAttempted | kSpeculative | kAcknowledged
  | kCommittedLogical | kDurable | kRecomputable | kDiscarded
  | kLost

definition ProgressKind_values :: "ProgressKind list" where
  "ProgressKind_values =
     [ProgressKind.kInvalid, ProgressKind.kAttempted, ProgressKind.kSpeculative,
      ProgressKind.kAcknowledged, ProgressKind.kCommittedLogical, ProgressKind.kDurable,
      ProgressKind.kRecomputable, ProgressKind.kDiscarded, ProgressKind.kLost]"

definition kProgressKindNames :: "(ProgressKind \<times> string) list" where
  "kProgressKindNames =
     [(ProgressKind.kAttempted, ''ATTEMPTED''),
      (ProgressKind.kSpeculative, ''SPECULATIVE''),
      (ProgressKind.kAcknowledged, ''ACKNOWLEDGED''),
      (ProgressKind.kCommittedLogical, ''COMMITTED_LOGICAL''),
      (ProgressKind.kDurable, ''DURABLE''),
      (ProgressKind.kRecomputable, ''RECOMPUTABLE''),
      (ProgressKind.kDiscarded, ''DISCARDED''),
      (ProgressKind.kLost, ''LOST'')]"

definition ProgressKind_to_string :: "ProgressKind \<Rightarrow> string" where
  "ProgressKind_to_string v = name_of v kProgressKindNames"

datatype QuiescenceCategory =
    kInvalid | kCpuWorkerActivity | kAcceleratorKernels | kAsynchronousCopies
  | kQueuedDeviceOperations | kHostCallbacks | kStorageWrites | kNetworkActivity
  | kStatePublication | kCompletionPublication | kPendingResourceMutation

definition QuiescenceCategory_values :: "QuiescenceCategory list" where
  "QuiescenceCategory_values =
     [QuiescenceCategory.kInvalid, QuiescenceCategory.kCpuWorkerActivity, QuiescenceCategory.kAcceleratorKernels,
      QuiescenceCategory.kAsynchronousCopies, QuiescenceCategory.kQueuedDeviceOperations, QuiescenceCategory.kHostCallbacks,
      QuiescenceCategory.kStorageWrites, QuiescenceCategory.kNetworkActivity, QuiescenceCategory.kStatePublication,
      QuiescenceCategory.kCompletionPublication, QuiescenceCategory.kPendingResourceMutation]"

definition kQuiescenceCategoryNames :: "(QuiescenceCategory \<times> string) list" where
  "kQuiescenceCategoryNames =
     [(QuiescenceCategory.kCpuWorkerActivity, ''CPU_WORKER_ACTIVITY''),
      (QuiescenceCategory.kAcceleratorKernels, ''ACCELERATOR_KERNELS''),
      (QuiescenceCategory.kAsynchronousCopies, ''ASYNCHRONOUS_COPIES''),
      (QuiescenceCategory.kQueuedDeviceOperations, ''QUEUED_DEVICE_OPERATIONS''),
      (QuiescenceCategory.kHostCallbacks, ''HOST_CALLBACKS''),
      (QuiescenceCategory.kStorageWrites, ''STORAGE_WRITES''),
      (QuiescenceCategory.kNetworkActivity, ''NETWORK_ACTIVITY''),
      (QuiescenceCategory.kStatePublication, ''STATE_PUBLICATION''),
      (QuiescenceCategory.kCompletionPublication, ''COMPLETION_PUBLICATION''),
      (QuiescenceCategory.kPendingResourceMutation, ''PENDING_RESOURCE_MUTATION'')]"

definition QuiescenceCategory_to_string :: "QuiescenceCategory \<Rightarrow> string" where
  "QuiescenceCategory_to_string v = name_of v kQuiescenceCategoryNames"

section \<open>The numeric form\<close>

lemma position_less: "e \<in> set vals \<Longrightarrow> position vals e < length vals"
  by (induction vals) auto

lemma nth_position: "e \<in> set vals \<Longrightarrow> vals ! position vals e = e"
  by (induction vals) auto

lemma position_nth: "distinct vals \<Longrightarrow> n < length vals \<Longrightarrow> position vals (vals ! n) = n"
proof (induction vals arbitrary: n)
  case (Cons x xs)
  then show ?case by (cases n) auto
qed simp

locale wire_enum =
  fixes vals :: "'e list"
  assumes vals_distinct: "distinct vals"
    and vals_complete: "e \<in> set vals"
    and vals_small: "length vals < 2 ^ 32"
begin

lemma unat_enum_u32: "unat (enum_u32 vals e) = position vals e"
proof -
  have "position vals e < 2 ^ 32"
    using position_less [OF vals_complete] vals_small by (rule less_trans)
  then show ?thesis by (simp add: enum_u32_def unat_of_nat)
qed

lemma cast_u32: "enum_cast vals (enum_u32 vals e) = Some e"
  by (simp add: enum_cast_def unat_enum_u32 position_less nth_position vals_complete)

lemma cast_Some_iff: "enum_cast vals t = Some e \<longleftrightarrow> t = enum_u32 vals e"
proof
  assume "enum_cast vals t = Some e"
  then have "unat t < length vals" "vals ! unat t = e"
    by (auto simp: enum_cast_def split: if_splits)
  then have "position vals e = unat t" using position_nth vals_distinct by blast
  then show "t = enum_u32 vals e" by (metis unat_enum_u32 word_unat_eq_iff)
qed (simp add: cast_u32)

lemma cast_None_iff: "enum_cast vals t = None \<longleftrightarrow> length vals \<le> unat t"
  by (simp add: enum_cast_def not_less)

lemma u32_inject: "enum_u32 vals a = enum_u32 vals b \<longleftrightarrow> a = b"
  by (metis cast_u32 option.inject)

lemma position_antisym: "position vals a \<le> position vals b \<Longrightarrow> position vals b \<le> position vals a \<Longrightarrow> a = b"
  by (metis le_antisym nth_position vals_complete)

end

section \<open>The printed form\<close>

lemma name_of_notin: "v \<notin> fst ` set table \<Longrightarrow> name_of v table = ''<unknown>''"
  by (induction v table rule: name_of.induct) auto

lemma name_of_in: "v \<in> fst ` set table \<Longrightarrow> name_of v table \<in> snd ` set table"
  by (induction v table rule: name_of.induct) auto

lemma value_of_name_of:
  "distinct (map snd table) \<Longrightarrow> v \<in> fst ` set table \<Longrightarrow> value_of (name_of v table) table = Some v"
proof (induction v table rule: name_of.induct)
  case (2 v e n table)
  show ?case
  proof (cases "e = v")
    case False
    then have "v \<in> fst ` set table" using 2(3) by simp
    moreover have "n \<notin> snd ` set table" using 2(2) by simp
    ultimately have "name_of v table \<noteq> n" using name_of_in by metis
    moreover note \<open>v \<in> fst ` set table\<close>
    ultimately show ?thesis using 2(1) [OF False] 2(2) False by simp
  qed simp
qed simp

lemma value_of_Some: "value_of s table = Some v \<Longrightarrow> (v, s) \<in> set table"
  by (induction s table rule: value_of.induct) (auto split: if_splits)

lemma name_of_member: "distinct (map fst table) \<Longrightarrow> (v, s) \<in> set table \<Longrightarrow> name_of v table = s"
  by (induction v table rule: name_of.induct) (auto simp: image_iff)

locale name_table =
  fixes table :: "('e \<times> string) list"
    and unnamed :: 'e
  assumes values_distinct: "distinct (map fst table)"
    and names_distinct: "distinct (map snd table)"
    and unknown_free: "''<unknown>'' \<notin> snd ` set table"
    and named: "v \<in> fst ` set table \<longleftrightarrow> v \<noteq> unnamed"
begin

lemma from_to_string: "v \<noteq> unnamed \<Longrightarrow> value_of (name_of v table) table = Some v"
  using names_distinct named by (simp add: value_of_name_of)

lemma to_from_string: "value_of s table = Some v \<Longrightarrow> name_of v table = s"
  using values_distinct by (simp add: value_of_Some name_of_member)

lemma unknown_iff: "name_of v table = ''<unknown>'' \<longleftrightarrow> v = unnamed"
  using named name_of_in name_of_notin unknown_free by metis

lemma to_string_inject: "name_of v table = name_of w table \<longleftrightarrow> v = w"
  by (metis from_to_string unknown_iff option.inject)

end

section \<open>Interpretations\<close>

interpretation reason_wire: wire_enum PreemptionReason_values
proof
  fix e :: PreemptionReason
  show "e \<in> set PreemptionReason_values" by (cases e) (simp_all add: PreemptionReason_values_def)
qed (simp_all add: PreemptionReason_values_def)

interpretation reason_names: name_table kPreemptionReasonNames "PreemptionReason.kInvalid"
proof
  fix v :: PreemptionReason
  show "v \<in> fst ` set kPreemptionReasonNames \<longleftrightarrow> v \<noteq> PreemptionReason.kInvalid" by (cases v) (simp_all add: kPreemptionReasonNames_def)
qed (simp_all add: kPreemptionReasonNames_def)

interpretation pclass_wire: wire_enum PreemptibilityClass_values
proof
  fix e :: PreemptibilityClass
  show "e \<in> set PreemptibilityClass_values" by (cases e) (simp_all add: PreemptibilityClass_values_def)
qed (simp_all add: PreemptibilityClass_values_def)

interpretation pclass_names: name_table kPreemptibilityClassNames "PreemptibilityClass.kInvalid"
proof
  fix v :: PreemptibilityClass
  show "v \<in> fst ` set kPreemptibilityClassNames \<longleftrightarrow> v \<noteq> PreemptibilityClass.kInvalid" by (cases v) (simp_all add: kPreemptibilityClassNames_def)
qed (simp_all add: kPreemptibilityClassNames_def)

interpretation outcome_wire: wire_enum PreemptionOutcome_values
proof
  fix e :: PreemptionOutcome
  show "e \<in> set PreemptionOutcome_values" by (cases e) (simp_all add: PreemptionOutcome_values_def)
qed (simp_all add: PreemptionOutcome_values_def)

interpretation outcome_names: name_table kPreemptionOutcomeNames "PreemptionOutcome.kInvalid"
proof
  fix v :: PreemptionOutcome
  show "v \<in> fst ` set kPreemptionOutcomeNames \<longleftrightarrow> v \<noteq> PreemptionOutcome.kInvalid" by (cases v) (simp_all add: kPreemptionOutcomeNames_def)
qed (simp_all add: kPreemptionOutcomeNames_def)

interpretation lifecycle_wire: wire_enum LifecycleState_values
proof
  fix e :: LifecycleState
  show "e \<in> set LifecycleState_values" by (cases e) (simp_all add: LifecycleState_values_def)
qed (simp_all add: LifecycleState_values_def)

interpretation lifecycle_names: name_table kLifecycleStateNames "LifecycleState.kInvalid"
proof
  fix v :: LifecycleState
  show "v \<in> fst ` set kLifecycleStateNames \<longleftrightarrow> v \<noteq> LifecycleState.kInvalid" by (cases v) (simp_all add: kLifecycleStateNames_def)
qed (simp_all add: kLifecycleStateNames_def)

interpretation spstate_wire: wire_enum SafePointState_values
proof
  fix e :: SafePointState
  show "e \<in> set SafePointState_values" by (cases e) (simp_all add: SafePointState_values_def)
qed (simp_all add: SafePointState_values_def)

interpretation spstate_names: name_table kSafePointStateNames "SafePointState.kUnset"
proof
  fix v :: SafePointState
  show "v \<in> fst ` set kSafePointStateNames \<longleftrightarrow> v \<noteq> SafePointState.kUnset" by (cases v) (simp_all add: kSafePointStateNames_def)
qed (simp_all add: kSafePointStateNames_def)

interpretation preservation_wire: wire_enum StatePreservationOutcome_values
proof
  fix e :: StatePreservationOutcome
  show "e \<in> set StatePreservationOutcome_values" by (cases e) (simp_all add: StatePreservationOutcome_values_def)
qed (simp_all add: StatePreservationOutcome_values_def)

interpretation preservation_names: name_table kStatePreservationOutcomeNames "StatePreservationOutcome.kInvalid"
proof
  fix v :: StatePreservationOutcome
  show "v \<in> fst ` set kStatePreservationOutcomeNames \<longleftrightarrow> v \<noteq> StatePreservationOutcome.kInvalid" by (cases v) (simp_all add: kStatePreservationOutcomeNames_def)
qed (simp_all add: kStatePreservationOutcomeNames_def)

interpretation resume_wire: wire_enum ResumeOutcome_values
proof
  fix e :: ResumeOutcome
  show "e \<in> set ResumeOutcome_values" by (cases e) (simp_all add: ResumeOutcome_values_def)
qed (simp_all add: ResumeOutcome_values_def)

interpretation resume_names: name_table kResumeOutcomeNames "ResumeOutcome.kInvalid"
proof
  fix v :: ResumeOutcome
  show "v \<in> fst ` set kResumeOutcomeNames \<longleftrightarrow> v \<noteq> ResumeOutcome.kInvalid" by (cases v) (simp_all add: kResumeOutcomeNames_def)
qed (simp_all add: kResumeOutcomeNames_def)

interpretation measurement_wire: wire_enum MeasurementKind_values
proof
  fix e :: MeasurementKind
  show "e \<in> set MeasurementKind_values" by (cases e) (simp_all add: MeasurementKind_values_def)
qed (simp_all add: MeasurementKind_values_def)

interpretation measurement_names: name_table kMeasurementKindNames "MeasurementKind.kInvalid"
proof
  fix v :: MeasurementKind
  show "v \<in> fst ` set kMeasurementKindNames \<longleftrightarrow> v \<noteq> MeasurementKind.kInvalid" by (cases v) (simp_all add: kMeasurementKindNames_def)
qed (simp_all add: kMeasurementKindNames_def)

interpretation evidence_wire: wire_enum EvidenceKind_values
proof
  fix e :: EvidenceKind
  show "e \<in> set EvidenceKind_values" by (cases e) (simp_all add: EvidenceKind_values_def)
qed (simp_all add: EvidenceKind_values_def)

interpretation evidence_names: name_table kEvidenceKindNames "EvidenceKind.kInvalid"
proof
  fix v :: EvidenceKind
  show "v \<in> fst ` set kEvidenceKindNames \<longleftrightarrow> v \<noteq> EvidenceKind.kInvalid" by (cases v) (simp_all add: kEvidenceKindNames_def)
qed (simp_all add: kEvidenceKindNames_def)

interpretation resource_wire: wire_enum ResourceClass_values
proof
  fix e :: ResourceClass
  show "e \<in> set ResourceClass_values" by (cases e) (simp_all add: ResourceClass_values_def)
qed (simp_all add: ResourceClass_values_def)

interpretation resource_names: name_table kResourceClassNames "ResourceClass.kInvalid"
proof
  fix v :: ResourceClass
  show "v \<in> fst ` set kResourceClassNames \<longleftrightarrow> v \<noteq> ResourceClass.kInvalid" by (cases v) (simp_all add: kResourceClassNames_def)
qed (simp_all add: kResourceClassNames_def)

interpretation progress_wire: wire_enum ProgressKind_values
proof
  fix e :: ProgressKind
  show "e \<in> set ProgressKind_values" by (cases e) (simp_all add: ProgressKind_values_def)
qed (simp_all add: ProgressKind_values_def)

interpretation progress_names: name_table kProgressKindNames "ProgressKind.kInvalid"
proof
  fix v :: ProgressKind
  show "v \<in> fst ` set kProgressKindNames \<longleftrightarrow> v \<noteq> ProgressKind.kInvalid" by (cases v) (simp_all add: kProgressKindNames_def)
qed (simp_all add: kProgressKindNames_def)

interpretation category_wire: wire_enum QuiescenceCategory_values
proof
  fix e :: QuiescenceCategory
  show "e \<in> set QuiescenceCategory_values" by (cases e) (simp_all add: QuiescenceCategory_values_def)
qed (simp_all add: QuiescenceCategory_values_def)

interpretation category_names: name_table kQuiescenceCategoryNames "QuiescenceCategory.kInvalid"
proof
  fix v :: QuiescenceCategory
  show "v \<in> fst ` set kQuiescenceCategoryNames \<longleftrightarrow> v \<noteq> QuiescenceCategory.kInvalid" by (cases v) (simp_all add: kQuiescenceCategoryNames_def)
qed (simp_all add: kQuiescenceCategoryNames_def)

section \<open>Names\<close>

text \<open>
  The names of lifecycle states and preemption reasons are read back as the values they were
  printed from, and only the names printed for a value are read as that value.
\<close>
theorem names_read_back:
  "(s \<noteq> LifecycleState.kInvalid \<longrightarrow> lifecycle_state_from_string (LifecycleState_to_string s) = Some s) \<and>
   (p \<noteq> PreemptionReason.kInvalid \<longrightarrow> preemption_reason_from_string (PreemptionReason_to_string p) = Some p) \<and>
   (lifecycle_state_from_string n = Some s \<longrightarrow> LifecycleState_to_string s = n) \<and>
   (preemption_reason_from_string n = Some p \<longrightarrow> PreemptionReason_to_string p = n)"
  by (simp add: lifecycle_state_from_string_def LifecycleState_to_string_def preemption_reason_from_string_def
      PreemptionReason_to_string_def lifecycle_names.from_to_string lifecycle_names.to_from_string
      reason_names.from_to_string reason_names.to_from_string)

theorem names_read_back_witness:
  "lifecycle_state_from_string (LifecycleState_to_string LifecycleState.kPreempted) = Some LifecycleState.kPreempted"
  using names_read_back [of LifecycleState.kPreempted PreemptionReason.kInvalid "[]"] by simp

end
