(* ===== verification/PF_Domains.thy ===== *)
theory PF_Domains
  imports PF_Identity PF_Enums
begin

text \<open>
  The value types of \<^verbatim>\<open>include/preemption_fabric/domains/\<close>. Each struct is a record whose
  fields carry the struct's initials as a prefix; \<open>default_\<close> constants give the in-class
  initialisers, which the runtime relies on where it builds a value field by field.
\<close>

section \<open>request.hpp\<close>

record PreemptionRequest =
  req_id :: PreemptionRequestId
  req_generation :: PreemptionRequestGeneration
  req_workload_id :: WorkloadId
  req_workload_generation :: WorkloadGeneration
  req_execution_id :: ExecutionId
  req_execution_generation :: ExecutionGeneration
  req_attempt_id :: AttemptId
  req_attempt_generation :: AttemptGeneration
  req_coordinator_epoch :: CoordinatorEpoch
  req_worker_id :: WorkerId
  req_worker_boot_id :: WorkerBootId
  req_reason :: PreemptionReason
  req_policy_generation :: PolicyGeneration
  req_authority_generation :: AuthorityGeneration
  req_required_completion :: LifecycleState
  req_has_deadline :: bool
  req_deadline_ns :: u64
  req_duplicate_of :: PreemptionRequestId

definition default_PreemptionRequest :: PreemptionRequest where
  "default_PreemptionRequest = \<lparr>
     req_id = id_default, req_generation = gen_default,
     req_workload_id = id_default, req_workload_generation = gen_default,
     req_execution_id = id_default, req_execution_generation = gen_default,
     req_attempt_id = id_default, req_attempt_generation = gen_default,
     req_coordinator_epoch = gen_default, req_worker_id = id_default, req_worker_boot_id = id_default,
     req_reason = PreemptionReason.kUnknown, req_policy_generation = gen_default,
     req_authority_generation = gen_default, req_required_completion = LifecycleState.kPreempted,
     req_has_deadline = False, req_deadline_ns = 0, req_duplicate_of = id_default\<rparr>"

section \<open>safepoint.hpp\<close>

record SafePoint =
  sp_id :: SafePointId
  sp_generation :: SafePointGeneration
  sp_execution_id :: ExecutionId
  sp_attempt_id :: AttemptId
  sp_worker_id :: WorkerId
  sp_worker_boot_id :: WorkerBootId
  sp_progress_position :: u64
  sp_state_capture_required :: bool
  sp_checkpoint_required :: bool
  sp_resume_requirement :: bool
  sp_resource_release_eligibility :: "ResourceClass list"
  sp_invariant :: string
  sp_provenance :: EvidenceKind
  sp_order :: u64
  sp_state :: SafePointState

definition default_SafePoint :: SafePoint where
  "default_SafePoint = \<lparr>
     sp_id = id_default, sp_generation = gen_default, sp_execution_id = id_default,
     sp_attempt_id = id_default, sp_worker_id = id_default, sp_worker_boot_id = id_default,
     sp_progress_position = 0, sp_state_capture_required = False, sp_checkpoint_required = False,
     sp_resume_requirement = False, sp_resource_release_eligibility = [], sp_invariant = [],
     sp_provenance = EvidenceKind.kUnknown, sp_order = 0, sp_state = SafePointState.kUnknown\<rparr>"

section \<open>quiescence.hpp\<close>

record QuiescenceObservation =
  qo_category :: QuiescenceCategory
  qo_quiesced :: bool
  qo_generation :: QuiescenceGeneration
  qo_worker_boot_id :: WorkerBootId
  qo_provenance :: EvidenceKind
  qo_order :: u64

record QuiescenceReport =
  qr_generation :: QuiescenceGeneration
  qr_worker_id :: WorkerId
  qr_worker_boot_id :: WorkerBootId
  qr_fully_quiesced :: bool
  qr_observations :: "QuiescenceObservation list"
  qr_provenance :: EvidenceKind

definition default_QuiescenceReport :: QuiescenceReport where
  "default_QuiescenceReport = \<lparr>
     qr_generation = gen_default, qr_worker_id = id_default, qr_worker_boot_id = id_default,
     qr_fully_quiesced = False, qr_observations = [], qr_provenance = EvidenceKind.kUnknown\<rparr>"

section \<open>plan.hpp\<close>

datatype PreservationMode =
    kInvalid | kCapture | kRecompute | kAlreadyDurable | kUnknown

record PreemptionPlan =
  plan_id :: PreemptionPlanId
  plan_generation :: PreemptionPlanGeneration
  plan_execution_id :: ExecutionId
  plan_attempt_id :: AttemptId
  plan_workload_id :: WorkloadId
  plan_workload_generation :: WorkloadGeneration
  plan_preemptibility :: PreemptibilityClass
  plan_last_durable_progress :: u64
  plan_current_position :: u64
  plan_max_rollback :: u64
  plan_preservation_mode :: PreservationMode
  plan_resources_to_release :: "ResourceClass list"
  plan_release_before_preempted :: bool
  plan_estimated_lost_work :: u64
  plan_estimated_recompute_work :: u64
  plan_state_to_preserve_bytes :: u64
  plan_next_safe_point :: SafePointId
  plan_cost_to_next_safe_point :: u64
  plan_checkpoint_backend_available :: bool
  plan_suggested_reason :: PreemptionReason
  plan_provenance :: EvidenceKind

definition default_PreemptionPlan :: PreemptionPlan where
  "default_PreemptionPlan = \<lparr>
     plan_id = id_default, plan_generation = gen_default, plan_execution_id = id_default,
     plan_attempt_id = id_default, plan_workload_id = id_default, plan_workload_generation = gen_default,
     plan_preemptibility = PreemptibilityClass.kUnknown, plan_last_durable_progress = 0,
     plan_current_position = 0, plan_max_rollback = 0,
     plan_preservation_mode = PreservationMode.kUnknown, plan_resources_to_release = [],
     plan_release_before_preempted = True, plan_estimated_lost_work = 0,
     plan_estimated_recompute_work = 0, plan_state_to_preserve_bytes = 0,
     plan_next_safe_point = id_default, plan_cost_to_next_safe_point = 0,
     plan_checkpoint_backend_available = True, plan_suggested_reason = PreemptionReason.kUnknown,
     plan_provenance = EvidenceKind.kUnknown\<rparr>"

section \<open>progress.hpp, preservation.hpp, release.hpp, resume.hpp\<close>

text \<open>Declared by the library for its clients; no operation of the runtime reads them.\<close>

record ProgressRecord =
  pr_generation :: ProgressGeneration
  pr_position :: u64
  pr_kind :: ProgressKind
  pr_worker_id :: WorkerId
  pr_worker_boot_id :: WorkerBootId
  pr_execution_id :: ExecutionId
  pr_attempt_id :: AttemptId
  pr_provenance :: EvidenceKind
  pr_order :: u64

record PreservationRequirement =
  pv_preservation_generation :: PreservationGeneration
  pv_capture_id :: StateCaptureId
  pv_capture_generation :: StateCaptureGeneration
  pv_checkpoint_ref :: CheckpointRef
  pv_checkpoint_generation :: CheckpointGeneration
  pv_required :: bool
  pv_completed :: bool
  pv_outcome :: StatePreservationOutcome
  pv_execution_generation :: ExecutionGeneration
  pv_attempt_generation :: AttemptGeneration
  pv_worker_boot_id :: WorkerBootId

definition equals_required_checkpoint :: "PreservationRequirement \<Rightarrow> CheckpointGeneration \<Rightarrow> bool" where
  "equals_required_checkpoint p expected \<longleftrightarrow> pv_checkpoint_generation p = expected"

record ReleaseObligation =
  ro_resource :: ResourceClass
  ro_units :: u64
  ro_must_release :: bool
  ro_may_stay_warm :: bool
  ro_transfer_ownership :: bool
  ro_external_confirm :: bool
  ro_contract_id :: ResourceContractId
  ro_contract_generation :: ResourceContractGeneration
  ro_released :: bool
  ro_release_generation :: ReleaseGeneration

record ReleaseReceipt =
  rr_resource :: ResourceClass
  rr_units :: u64
  rr_contract_id :: ResourceContractId
  rr_contract_generation :: ResourceContractGeneration
  rr_release_generation :: ReleaseGeneration
  rr_worker_boot_id :: WorkerBootId
  rr_acknowledged :: bool

datatype RequirementStatus = kInvalid | kCurrent | kStale | kMissing | kUnknown

record ResumeObligation =
  rs_resume_generation :: ResumeGeneration
  rs_execution_id :: ExecutionId
  rs_attempt_id :: AttemptId
  rs_workload_id :: WorkloadId
  rs_workload_generation :: WorkloadGeneration
  rs_preempted_execution_generation :: ExecutionGeneration
  rs_checkpoint_ref :: CheckpointRef
  rs_checkpoint_generation :: CheckpointGeneration
  rs_dependency_status :: RequirementStatus
  rs_resource_status :: RequirementStatus
  rs_capability_status :: RequirementStatus
  rs_requires_restore :: bool
  rs_requires_recompute :: bool
  rs_revalidation_required :: bool

end
