(* ===== verification/PF_Adapters.thy ===== *)
theory PF_Adapters
  imports PF_Domains
begin

text \<open>
  The interfaces to the adjacent runtimes (\<^verbatim>\<open>adapters/interfaces.hpp\<close>) and their reference
  implementation \<^verbatim>\<open>ReferenceAdapters\<close> (\<^verbatim>\<open>adapters/reference.hpp\<close>). The class is a record with
  one field per member; each method is a definition \<open>ad_\<close>\<^emph>\<open>name\<close> that returns the new record,
  paired with the method's result where it has one. The abstract base classes are locales:
  \<open>execution_fabric\<close>, \<open>checkpoint_fabric\<close> and \<open>resource_broker\<close> state what the
  runtime relies on, and each is interpreted on the reference implementation.
\<close>

section \<open>Views and results of the interfaces\<close>

record AttemptAuthorityView =
  av_authoritative :: bool
  av_execution_id :: ExecutionId
  av_execution_generation :: ExecutionGeneration
  av_attempt_id :: AttemptId
  av_attempt_generation :: AttemptGeneration
  av_coordinator_epoch :: CoordinatorEpoch
  av_worker_boot_id :: WorkerBootId
  av_provenance :: EvidenceKind

datatype WorkloadLifecycleState =
    kActive | kSuspended | kPreempted | kCancelled | kCompleted | kUnknown

record StateCaptureRequest =
  scr_required :: bool
  scr_expected_generation :: CheckpointGeneration
  scr_capture_generation :: StateCaptureGeneration
  scr_execution_generation :: ExecutionGeneration
  scr_attempt_generation :: AttemptGeneration

record CaptureResult =
  cr_completed :: bool
  cr_success :: bool
  cr_capture_id :: StateCaptureId
  cr_capture_generation :: StateCaptureGeneration
  cr_checkpoint_ref :: CheckpointRef
  cr_checkpoint_generation :: CheckpointGeneration
  cr_provenance :: EvidenceKind

record ResourceLease =
  lease_resource :: ResourceClass
  lease_units :: u64

record ResourceContract =
  rc_id :: ResourceContractId
  rc_generation :: ResourceContractGeneration
  rc_leases :: "ResourceLease list"

record ReleaseResult =
  rel_success :: bool
  rel_release_generation :: ResourceContractGeneration
  rel_worker_boot_id :: WorkerBootId

record ReacquireResult =
  rea_success :: bool
  rea_contract_generation :: ResourceContractGeneration
  rea_worker_boot_id :: WorkerBootId

datatype DependencyStatus = kCurrent | kStale | kMissing | kUnknown

definition DependencyStatus_values :: "DependencyStatus list" where
  "DependencyStatus_values =
     [DependencyStatus.kCurrent, DependencyStatus.kStale, DependencyStatus.kMissing, DependencyStatus.kUnknown]"

record DependencyView =
  dv_status :: DependencyStatus
  dv_generation :: DependencyGeneration
  dv_revalidation_required :: bool
  dv_recompute_required :: bool

definition default_DependencyView :: DependencyView where
  "default_DependencyView = \<lparr>dv_status = DependencyStatus.kUnknown, dv_generation = gen_default,
     dv_revalidation_required = False, dv_recompute_required = False\<rparr>"

datatype FailureCategory = kForcedTermination | kAmbiguous | kFailed | kUnknown

record DeviceCapability =
  dc_device_id :: string
  dc_capability_generation :: u64
  dc_memory_bytes :: u64
  dc_compute_compatibility :: u32
  dc_supports_state_restore :: bool
  dc_supports_recompute :: bool

definition default_DeviceCapability :: DeviceCapability where
  "default_DeviceCapability = \<lparr>dc_device_id = [], dc_capability_generation = 0, dc_memory_bytes = 0,
     dc_compute_compatibility = 0, dc_supports_state_restore = False, dc_supports_recompute = False\<rparr>"

datatype MigrationCompatibilityOutcome =
    kInvalid | kCompatible | kIncompatibleCapability | kStaleCapabilityGeneration
  | kBlockedDependency | kBlockedResource | kStateNotDurable | kUnknown

record MigrationCompatibility =
  mc_outcome :: MigrationCompatibilityOutcome
  mc_detail :: string
  mc_reasons :: "string list"

section \<open>Keys of the reference maps\<close>

instantiation ResourceClass :: linorder
begin

definition less_eq_ResourceClass :: "ResourceClass \<Rightarrow> ResourceClass \<Rightarrow> bool" where
  "less_eq_ResourceClass a b \<longleftrightarrow> position ResourceClass_values a \<le> position ResourceClass_values b"

definition less_ResourceClass :: "ResourceClass \<Rightarrow> ResourceClass \<Rightarrow> bool" where
  "less_ResourceClass a b \<longleftrightarrow> position ResourceClass_values a < position ResourceClass_values b"

instance
proof
  fix a b :: ResourceClass
  show "a \<le> b \<Longrightarrow> b \<le> a \<Longrightarrow> a = b"
    unfolding less_eq_ResourceClass_def by (rule resource_wire.position_antisym)
qed (auto simp: less_eq_ResourceClass_def less_ResourceClass_def)

end

instantiation QuiescenceCategory :: linorder
begin

definition less_eq_QuiescenceCategory :: "QuiescenceCategory \<Rightarrow> QuiescenceCategory \<Rightarrow> bool" where
  "less_eq_QuiescenceCategory a b \<longleftrightarrow> position QuiescenceCategory_values a \<le> position QuiescenceCategory_values b"

definition less_QuiescenceCategory :: "QuiescenceCategory \<Rightarrow> QuiescenceCategory \<Rightarrow> bool" where
  "less_QuiescenceCategory a b \<longleftrightarrow> position QuiescenceCategory_values a < position QuiescenceCategory_values b"

instance
proof
  fix a b :: QuiescenceCategory
  show "a \<le> b \<Longrightarrow> b \<le> a \<Longrightarrow> a = b"
    unfolding less_eq_QuiescenceCategory_def by (rule category_wire.position_antisym)
qed (auto simp: less_eq_QuiescenceCategory_def less_QuiescenceCategory_def)

end

section \<open>The reference implementation\<close>

record ReferenceAdapters =
  ad_attempt_authoritative :: bool
  ad_attempt_execution :: ExecutionId
  ad_attempt_attempt :: AttemptId
  ad_attempt_gen :: ExecutionGeneration
  ad_attempt_attempt_gen :: AttemptGeneration
  ad_attempt_epoch :: CoordinatorEpoch
  ad_attempt_boot :: WorkerBootId
  ad_attempt_provenance :: EvidenceKind
  ad_workload_states :: "(WorkloadId, WorkloadLifecycleState) std_map"
  ad_capture_default :: bool
  ad_capture_count :: u64
  ad_checkpoint_valid :: bool
  ad_current_checkpoint_gen :: CheckpointGeneration
  ad_CaptureGeneration :: StateCaptureGeneration
  ad_last_capture :: "CaptureResult option"
  ad_contract_id :: ResourceContractId
  ad_contract_gen :: ResourceContractGeneration
  ad_contract_execution :: ExecutionId
  ad_reserved_map :: "(ResourceClass, u64) std_map"
  ad_released_map :: "(ResourceClass, u64) std_map"
  ad_random_id :: u64
  ad_dep_status :: "(DependencyId, DependencyView) std_map"
  ad_resume_dep :: DependencyView
  ad_current_capability :: DeviceCapability
  ad_required_capability :: DeviceCapability
  ad_force_incompatible :: bool
  ad_force_stale_capability :: bool
  ad_failures :: "(FailureCategory \<times> string) list"
  ad_quiesced :: "(QuiescenceCategory, bool) std_map"

definition default_ReferenceAdapters :: ReferenceAdapters where
  "default_ReferenceAdapters = \<lparr>
     ad_attempt_authoritative = False, ad_attempt_execution = id_default, ad_attempt_attempt = id_default,
     ad_attempt_gen = gen_default, ad_attempt_attempt_gen = gen_default, ad_attempt_epoch = gen_default,
     ad_attempt_boot = id_default, ad_attempt_provenance = EvidenceKind.kUnknown,
     ad_workload_states = [],
     ad_capture_default = True, ad_capture_count = 0, ad_checkpoint_valid = True,
     ad_current_checkpoint_gen = GenV 1, ad_CaptureGeneration = gen_default, ad_last_capture = None,
     ad_contract_id = id_default, ad_contract_gen = gen_default, ad_contract_execution = id_default,
     ad_reserved_map = [], ad_released_map = [], ad_random_id = 1,
     ad_dep_status = [], ad_resume_dep = default_DependencyView,
     ad_current_capability = default_DeviceCapability, ad_required_capability = default_DeviceCapability,
     ad_force_incompatible = False, ad_force_stale_capability = False,
     ad_failures = [], ad_quiesced = []\<rparr>"

subsection \<open>Execution fabric\<close>

definition ad_set_authoritative ::
  "ExecutionId \<Rightarrow> AttemptId \<Rightarrow> ExecutionGeneration \<Rightarrow> AttemptGeneration \<Rightarrow> CoordinatorEpoch \<Rightarrow> WorkerBootId
     \<Rightarrow> ReferenceAdapters \<Rightarrow> ReferenceAdapters" where
  "ad_set_authoritative execution attempt gen attempt_gen epoch worker a =
     a\<lparr>ad_attempt_authoritative := True, ad_attempt_execution := execution, ad_attempt_attempt := attempt,
       ad_attempt_gen := gen, ad_attempt_boot := worker, ad_attempt_epoch := epoch,
       ad_attempt_attempt_gen := attempt_gen, ad_attempt_provenance := EvidenceKind.kReal\<rparr>"

definition ad_revoke_authority :: "ReferenceAdapters \<Rightarrow> ReferenceAdapters" where
  "ad_revoke_authority a = a\<lparr>ad_attempt_authoritative := False\<rparr>"

definition ad_current_attempt_authority ::
  "ExecutionId \<Rightarrow> AttemptId \<Rightarrow> ReferenceAdapters \<Rightarrow> AttemptAuthorityView" where
  "ad_current_attempt_authority execution attempt a = \<lparr>
     av_authoritative = (ad_attempt_authoritative a \<and> execution = ad_attempt_execution a \<and>
                         attempt = ad_attempt_attempt a),
     av_execution_id = execution, av_execution_generation = ad_attempt_gen a,
     av_attempt_id = attempt, av_attempt_generation = ad_attempt_attempt_gen a,
     av_coordinator_epoch = ad_attempt_epoch a, av_worker_boot_id = ad_attempt_boot a,
     av_provenance = ad_attempt_provenance a\<rparr>"

definition ad_fence_attempt ::
  "ExecutionId \<Rightarrow> AttemptId \<Rightarrow> ExecutionGeneration \<Rightarrow> ReferenceAdapters \<Rightarrow> bool \<times> ReferenceAdapters" where
  "ad_fence_attempt execution attempt gen a = (True, a\<lparr>ad_attempt_authoritative := False\<rparr>)"

definition ad_grant_fresh_attempt_authority ::
  "ExecutionId \<Rightarrow> AttemptId \<Rightarrow> ExecutionGeneration \<Rightarrow> WorkerBootId \<Rightarrow> ReferenceAdapters
     \<Rightarrow> AttemptAuthorityView \<times> ReferenceAdapters" where
  "ad_grant_fresh_attempt_authority execution attempt gen worker a =
     (let a' = a\<lparr>ad_attempt_attempt_gen := gen_next (ad_attempt_attempt_gen a),
                 ad_attempt_authoritative := True, ad_attempt_execution := execution,
                 ad_attempt_attempt := attempt, ad_attempt_gen := gen, ad_attempt_boot := worker,
                 ad_attempt_provenance := EvidenceKind.kReal\<rparr>
      in (\<lparr>av_authoritative = True, av_execution_id = execution, av_execution_generation = gen,
           av_attempt_id = attempt, av_attempt_generation = ad_attempt_attempt_gen a',
           av_coordinator_epoch = ad_attempt_epoch a', av_worker_boot_id = worker,
           av_provenance = EvidenceKind.kReal\<rparr>, a'))"

subsection \<open>Workload fabric\<close>

definition ad_set_workload_state ::
  "WorkloadId \<Rightarrow> WorkloadLifecycleState \<Rightarrow> ReferenceAdapters \<Rightarrow> ReferenceAdapters" where
  "ad_set_workload_state w s a = a\<lparr>ad_workload_states := map_assign w s (ad_workload_states a)\<rparr>"

definition ad_workload_state :: "WorkloadId \<Rightarrow> ReferenceAdapters \<Rightarrow> WorkloadLifecycleState" where
  "ad_workload_state w a =
     (case map_of (ad_workload_states a) w of None \<Rightarrow> WorkloadLifecycleState.kUnknown | Some s \<Rightarrow> s)"

definition ad_notify_preempted ::
  "WorkloadId \<Rightarrow> WorkloadGeneration \<Rightarrow> ExecutionId \<Rightarrow> ExecutionGeneration \<Rightarrow> ReferenceAdapters \<Rightarrow> ReferenceAdapters" where
  "ad_notify_preempted w wg e eg a =
     a\<lparr>ad_workload_states := map_assign w WorkloadLifecycleState.kPreempted (ad_workload_states a)\<rparr>"

definition ad_notify_resumed ::
  "WorkloadId \<Rightarrow> WorkloadGeneration \<Rightarrow> ExecutionId \<Rightarrow> ExecutionGeneration \<Rightarrow> ResumeGeneration
     \<Rightarrow> ReferenceAdapters \<Rightarrow> ReferenceAdapters" where
  "ad_notify_resumed w wg e eg rg a =
     a\<lparr>ad_workload_states := map_assign w WorkloadLifecycleState.kActive (ad_workload_states a)\<rparr>"

subsection \<open>Checkpoint fabric\<close>

definition ad_set_capture_succeeds :: "bool \<Rightarrow> ReferenceAdapters \<Rightarrow> ReferenceAdapters" where
  "ad_set_capture_succeeds v a = a\<lparr>ad_capture_default := v\<rparr>"

definition ad_set_capture_count :: "u64 \<Rightarrow> ReferenceAdapters \<Rightarrow> ReferenceAdapters" where
  "ad_set_capture_count v a = a\<lparr>ad_capture_count := v\<rparr>"

definition ad_request_capture ::
  "StateCaptureRequest \<Rightarrow> ReferenceAdapters \<Rightarrow> CaptureResult \<times> ReferenceAdapters" where
  "ad_request_capture req a =
     (let count = ad_capture_count a + 1;
          r = \<lparr>cr_completed = True, cr_success = ad_capture_default a, cr_capture_id = IdV count,
               cr_capture_generation = scr_capture_generation req, cr_checkpoint_ref = IdV count,
               cr_checkpoint_generation = scr_expected_generation req, cr_provenance = EvidenceKind.kReal\<rparr>
      in (r, a\<lparr>ad_capture_count := count, ad_CaptureGeneration := scr_capture_generation req,
               ad_last_capture := Some r\<rparr>))"

definition ad_query_capture :: "StateCaptureId \<Rightarrow> ReferenceAdapters \<Rightarrow> CaptureResult" where
  "ad_query_capture i a =
     \<lparr>cr_completed = True, cr_success = ad_capture_default a, cr_capture_id = id_default,
      cr_capture_generation = gen_default, cr_checkpoint_ref = id_default,
      cr_checkpoint_generation = gen_default, cr_provenance = EvidenceKind.kReal\<rparr>"

definition ad_validate_checkpoint :: "CheckpointRef \<Rightarrow> CheckpointGeneration \<Rightarrow> ReferenceAdapters \<Rightarrow> bool" where
  "ad_validate_checkpoint r expected a \<longleftrightarrow>
     ad_checkpoint_valid a \<and> id_is_valid r \<and> expected = ad_current_checkpoint_gen a"

definition ad_set_current_checkpoint_generation ::
  "CheckpointGeneration \<Rightarrow> ReferenceAdapters \<Rightarrow> ReferenceAdapters" where
  "ad_set_current_checkpoint_generation g a = a\<lparr>ad_current_checkpoint_gen := g\<rparr>"

definition ad_set_checkpoint_valid :: "bool \<Rightarrow> ReferenceAdapters \<Rightarrow> ReferenceAdapters" where
  "ad_set_checkpoint_valid v a = a\<lparr>ad_checkpoint_valid := v\<rparr>"

definition ad_restore :: "CheckpointRef \<Rightarrow> CheckpointGeneration \<Rightarrow> ReferenceAdapters \<Rightarrow> bool" where
  "ad_restore r expected a \<longleftrightarrow>
     ad_checkpoint_valid a \<and> id_is_valid r \<and> expected = ad_current_checkpoint_gen a"

subsection \<open>Resource broker\<close>

definition ad_lookup :: "(ResourceClass, u64) std_map \<Rightarrow> ResourceClass \<Rightarrow> u64" where
  "ad_lookup m c = (case map_of m c of None \<Rightarrow> 0 | Some n \<Rightarrow> n)"

definition ad_reserved :: "ResourceClass \<Rightarrow> ReferenceAdapters \<Rightarrow> u64" where
  "ad_reserved c a = ad_lookup (ad_reserved_map a) c"

definition ad_released :: "ResourceClass \<Rightarrow> ReferenceAdapters \<Rightarrow> u64" where
  "ad_released c a = ad_lookup (ad_released_map a) c"

definition Generation_advance :: "ResourceContractGeneration \<Rightarrow> u64 \<Rightarrow> ResourceContractGeneration" where
  "Generation_advance g by_n = GenV (gen_value g + by_n)"

definition ad_set_contract ::
  "ExecutionId \<Rightarrow> ResourceContractGeneration \<Rightarrow> ResourceLease list \<Rightarrow> ReferenceAdapters \<Rightarrow> ReferenceAdapters" where
  "ad_set_contract e g leases a =
     a\<lparr>ad_contract_id := IdV (ad_random_id a), ad_random_id := ad_random_id a + 1,
       ad_contract_gen := g, ad_contract_execution := e,
       ad_reserved_map :=
         foldl (\<lambda>m l. map_assign (lease_resource l) (ad_lookup m (lease_resource l) + lease_units l) m) [] leases,
       ad_released_map := []\<rparr>"

definition ad_advance_contract :: "u64 \<Rightarrow> ReferenceAdapters \<Rightarrow> ReferenceAdapters" where
  "ad_advance_contract by_n a = a\<lparr>ad_contract_gen := Generation_advance (ad_contract_gen a) by_n\<rparr>"

definition ad_current_contract :: "ExecutionId \<Rightarrow> ReferenceAdapters \<Rightarrow> ResourceContract" where
  "ad_current_contract e a =
     \<lparr>rc_id = ad_contract_id a, rc_generation = ad_contract_gen a,
      rc_leases = map (\<lambda>(rc, n). \<lparr>lease_resource = rc, lease_units = n\<rparr>) (ad_reserved_map a)\<rparr>"

definition ad_request_release ::
  "ExecutionId \<Rightarrow> ResourceClass \<Rightarrow> u64 \<Rightarrow> ResourceContractGeneration \<Rightarrow> ReferenceAdapters
     \<Rightarrow> ReleaseResult \<times> ReferenceAdapters" where
  "ad_request_release e rc units expected a =
     (let r = \<lparr>rel_success = False, rel_release_generation = ad_contract_gen a,
               rel_worker_boot_id = ad_attempt_boot a\<rparr>
      in if e \<noteq> ad_contract_execution a \<or> expected \<noteq> ad_contract_gen a then (r, a)
         else case map_of (ad_reserved_map a) rc of
           None \<Rightarrow> (r, a)
         | Some n \<Rightarrow>
             if n < units then (r, a)
             else (r\<lparr>rel_success := True\<rparr>,
                   a\<lparr>ad_reserved_map := map_assign rc (n - units) (ad_reserved_map a),
                     ad_released_map := map_assign rc (ad_lookup (ad_released_map a) rc + units)
                                          (ad_released_map a)\<rparr>))"

text \<open>
  \<^verbatim>\<open>released_[rc]\<close> creates a zero entry before it is compared, and the contract generation is
  replaced before the execution is checked: both happen on the failing paths too.
\<close>

definition ad_reacquire ::
  "ExecutionId \<Rightarrow> ResourceClass \<Rightarrow> u64 \<Rightarrow> ResourceContractGeneration \<Rightarrow> ReferenceAdapters
     \<Rightarrow> ReacquireResult \<times> ReferenceAdapters" where
  "ad_reacquire e rc units contract a =
     (let g = (if gen_is_valid contract then contract else Generation_advance (ad_contract_gen a) 1);
          a1 = a\<lparr>ad_contract_gen := g\<rparr>;
          r = \<lparr>rea_success = False, rea_contract_generation = g, rea_worker_boot_id = ad_attempt_boot a\<rparr>
      in if e \<noteq> ad_contract_execution a1 then (r, a1)
         else let have_units = ad_lookup (ad_released_map a1) rc;
                  a2 = a1\<lparr>ad_released_map := map_assign rc have_units (ad_released_map a1)\<rparr>
              in if have_units < units then (r, a2)
                 else (r\<lparr>rea_success := True\<rparr>,
                       a2\<lparr>ad_released_map := map_assign rc (have_units - units) (ad_released_map a2),
                          ad_reserved_map := map_assign rc (ad_lookup (ad_reserved_map a2) rc + units)
                                               (ad_reserved_map a2)\<rparr>))"

subsection \<open>Dependency fabric\<close>

definition ad_set_dependency_status ::
  "DependencyId \<Rightarrow> DependencyView \<Rightarrow> ReferenceAdapters \<Rightarrow> ReferenceAdapters" where
  "ad_set_dependency_status d v a = a\<lparr>ad_dep_status := map_assign d v (ad_dep_status a)\<rparr>"

definition ad_set_resume_dependency :: "DependencyView \<Rightarrow> ReferenceAdapters \<Rightarrow> ReferenceAdapters" where
  "ad_set_resume_dependency v a = a\<lparr>ad_resume_dep := v\<rparr>"

definition ad_dependency_status :: "DependencyId \<Rightarrow> ReferenceAdapters \<Rightarrow> DependencyView" where
  "ad_dependency_status d a =
     (case map_of (ad_dep_status a) d of None \<Rightarrow> default_DependencyView | Some v \<Rightarrow> v)"

definition ad_resume_dependencies :: "ExecutionId \<Rightarrow> ReferenceAdapters \<Rightarrow> DependencyView" where
  "ad_resume_dependencies e a = ad_resume_dep a"

subsection \<open>Compatibility evaluator\<close>

definition ad_set_capability_context ::
  "DeviceCapability \<Rightarrow> DeviceCapability \<Rightarrow> ReferenceAdapters \<Rightarrow> ReferenceAdapters" where
  "ad_set_capability_context current required a =
     a\<lparr>ad_current_capability := current, ad_required_capability := required\<rparr>"

definition ad_set_force_incompatible :: "bool \<Rightarrow> ReferenceAdapters \<Rightarrow> ReferenceAdapters" where
  "ad_set_force_incompatible v a = a\<lparr>ad_force_incompatible := v\<rparr>"

definition ad_set_force_stale_capability :: "bool \<Rightarrow> ReferenceAdapters \<Rightarrow> ReferenceAdapters" where
  "ad_set_force_stale_capability v a = a\<lparr>ad_force_stale_capability := v\<rparr>"

definition ad_capability_is_compatible :: "DeviceCapability \<Rightarrow> ReferenceAdapters \<Rightarrow> bool" where
  "ad_capability_is_compatible dst a =
     (if ad_force_incompatible a then False
      else dc_memory_bytes dst \<ge> dc_memory_bytes (ad_required_capability a) \<and>
           dc_supports_state_restore dst \<and>
           dc_compute_compatibility dst \<ge> dc_compute_compatibility (ad_required_capability a))"

definition ad_capability_generation_current :: "DeviceCapability \<Rightarrow> ReferenceAdapters \<Rightarrow> bool" where
  "ad_capability_generation_current dst a =
     (if ad_force_stale_capability a then False
      else dc_capability_generation dst = dc_capability_generation (ad_current_capability a))"

subsection \<open>Failure fabric and quiescence\<close>

definition ad_report :: "FailureCategory \<Rightarrow> string \<Rightarrow> ReferenceAdapters \<Rightarrow> ReferenceAdapters" where
  "ad_report category detail a = a\<lparr>ad_failures := ad_failures a @ [(category, detail)]\<rparr>"

definition ad_set_quiesced :: "QuiescenceCategory \<Rightarrow> bool \<Rightarrow> ReferenceAdapters \<Rightarrow> ReferenceAdapters" where
  "ad_set_quiesced c v a = a\<lparr>ad_quiesced := map_assign c v (ad_quiesced a)\<rparr>"

definition ad_is_quiesced :: "QuiescenceCategory \<Rightarrow> ReferenceAdapters \<Rightarrow> bool" where
  "ad_is_quiesced c a = (case map_of (ad_quiesced a) c of Some v \<Rightarrow> v | None \<Rightarrow> False)"

definition ad_categories :: "QuiescenceCategory list" where
  "ad_categories =
     [QuiescenceCategory.kCpuWorkerActivity, QuiescenceCategory.kAcceleratorKernels,
      QuiescenceCategory.kAsynchronousCopies, QuiescenceCategory.kQueuedDeviceOperations,
      QuiescenceCategory.kHostCallbacks, QuiescenceCategory.kStorageWrites,
      QuiescenceCategory.kNetworkActivity, QuiescenceCategory.kStatePublication,
      QuiescenceCategory.kCompletionPublication, QuiescenceCategory.kPendingResourceMutation]"

lemmas [ref_adapter_defs] =
  ad_set_authoritative_def ad_revoke_authority_def ad_current_attempt_authority_def ad_fence_attempt_def
  ad_grant_fresh_attempt_authority_def ad_request_capture_def ad_validate_checkpoint_def ad_restore_def
  ad_current_contract_def ad_resume_dependencies_def ad_is_quiesced_def

section \<open>Interface contracts\<close>

subsection \<open>Execution fabric: fencing and fresh authority\<close>

locale execution_fabric =
  fixes authority :: "ExecutionId \<Rightarrow> AttemptId \<Rightarrow> 'a \<Rightarrow> AttemptAuthorityView"
    and fence :: "ExecutionId \<Rightarrow> AttemptId \<Rightarrow> ExecutionGeneration \<Rightarrow> 'a \<Rightarrow> bool \<times> 'a"
    and grant :: "ExecutionId \<Rightarrow> AttemptId \<Rightarrow> ExecutionGeneration \<Rightarrow> WorkerBootId \<Rightarrow> 'a \<Rightarrow> AttemptAuthorityView \<times> 'a"
  assumes fence_fences: "\<not> av_authoritative (authority e t (snd (fence e t g a)))"
    and grant_view: "authority e t (snd (grant e t g b a)) = fst (grant e t g b a)"
    and grant_authoritative: "av_authoritative (fst (grant e t g b a))"
    and grant_fresh: "av_attempt_generation (fst (grant e t g b a)) = gen_next (av_attempt_generation (authority e t a))"
    and grant_boot: "av_worker_boot_id (fst (grant e t g b a)) = b"
    and fence_keeps_generation:
      "av_attempt_generation (authority e t (snd (fence e t g a))) = av_attempt_generation (authority e t a)"
begin

text \<open>A resume after a fence runs under a strictly newer attempt generation, unless the counter is saturated.\<close>

lemma resume_after_fence_is_fresh:
  assumes "gen_value (av_attempt_generation (authority e t a)) \<noteq> kMaxValue"
  shows "av_attempt_generation (authority e t a)
           < av_attempt_generation (authority e t (snd (grant e t g' b (snd (fence e t g a)))))"
  using assms gen.nxt_less by (simp add: grant_view grant_fresh fence_keeps_generation)

lemma fence_then_grant_authoritative:
  "av_authoritative (authority e t (snd (grant e t g' b (snd (fence e t g a)))))"
  by (simp add: grant_view grant_authoritative)

end

interpretation exec: execution_fabric ad_current_attempt_authority ad_fence_attempt ad_grant_fresh_attempt_authority
  by unfold_locales
    (simp_all add: ad_current_attempt_authority_def ad_fence_attempt_def ad_grant_fresh_attempt_authority_def Let_def)

subsection \<open>Checkpoint fabric: one current generation\<close>

locale checkpoint_fabric =
  fixes validate :: "CheckpointRef \<Rightarrow> CheckpointGeneration \<Rightarrow> 'a \<Rightarrow> bool"
    and restore_state :: "CheckpointRef \<Rightarrow> CheckpointGeneration \<Rightarrow> 'a \<Rightarrow> bool"
    and capture :: "StateCaptureRequest \<Rightarrow> 'a \<Rightarrow> CaptureResult \<times> 'a"
  assumes single_generation: "validate r g a \<Longrightarrow> validate r' g' a \<Longrightarrow> g = g'"
    and restore_needs_validate: "restore_state r g a = validate r g a"
    and validate_ref: "validate r g a \<Longrightarrow> id_is_valid r"
    and capture_generation: "cr_checkpoint_generation (fst (capture q a)) = scr_expected_generation q"
    and capture_keeps_validation: "validate r g (snd (capture q a)) = validate r g a"
begin

lemma superseded_capture_never_restores:
  assumes "validate r g a" "cr_checkpoint_generation c \<noteq> g"
  shows "\<not> restore_state (cr_checkpoint_ref c) (cr_checkpoint_generation c) a"
  using assms single_generation restore_needs_validate by blast

lemma captured_validates:
  assumes "validate r (scr_expected_generation q) a" "c = fst (capture q a)"
  shows "validate r (cr_checkpoint_generation c) (snd (capture q a))"
  using assms by (simp add: capture_generation capture_keeps_validation)

end

interpretation ckpt: checkpoint_fabric ad_validate_checkpoint ad_restore ad_request_capture
  by unfold_locales (auto simp: ad_validate_checkpoint_def ad_restore_def ad_request_capture_def Let_def)

subsection \<open>Resource broker: exact accounting\<close>

text \<open>
  The contract of the broker's accounting. \<open>bound\<close> says which resources the contract has an
  entry for; the accounting measure is over the natural numbers, so the laws say that no
  64-bit operation wraps while the sum of both sides fits.
\<close>

locale resource_broker =
  fixes reserved :: "ResourceClass \<Rightarrow> 'a \<Rightarrow> u64"
    and released :: "ResourceClass \<Rightarrow> 'a \<Rightarrow> u64"
    and bound :: "ResourceClass \<Rightarrow> 'a \<Rightarrow> bool"
    and current :: "ExecutionId \<Rightarrow> ResourceContractGeneration \<Rightarrow> 'a \<Rightarrow> bool"
    and release :: "ExecutionId \<Rightarrow> ResourceClass \<Rightarrow> u64 \<Rightarrow> ResourceContractGeneration \<Rightarrow> 'a \<Rightarrow> ReleaseResult \<times> 'a"
  assumes release_ok:
      "current e g a \<Longrightarrow> bound rc a \<Longrightarrow> u \<le> reserved rc a \<Longrightarrow> release e rc u g a = (r, a') \<Longrightarrow>
         rel_success r \<and>
         (\<forall>c. reserved c a' = (if c = rc then reserved rc a - u else reserved c a)) \<and>
         (\<forall>c. released c a' = (if c = rc then released rc a + u else released c a))"
    and release_refused:
      "\<not> (current e g a \<and> bound rc a \<and> u \<le> reserved rc a) \<Longrightarrow> release e rc u g a = (r, a') \<Longrightarrow>
         \<not> rel_success r \<and> a' = a"
    and release_current: "current e' g' (snd (release e rc u g a)) = current e' g' a"
    and release_bound: "bound c (snd (release e rc u g a)) = bound c a"
    and unbound_reserved: "\<not> bound rc a \<Longrightarrow> reserved rc a = 0"
begin

text \<open>The runtime's release loop: every lease of the contract, in order.\<close>

definition release_all :: "ExecutionId \<Rightarrow> ResourceContractGeneration \<Rightarrow> (ResourceClass \<times> u64) list \<Rightarrow> 'a \<Rightarrow> 'a" where
  "release_all e g leases a = foldl (\<lambda>a (rc, u). snd (release e rc u g a)) a leases"

lemma release_step:
  assumes "current e g a" "bound rc a" "u \<le> reserved rc a"
  shows "reserved c (snd (release e rc u g a)) = (if c = rc then reserved rc a - u else reserved c a)"
    and "released c (snd (release e rc u g a)) = (if c = rc then released rc a + u else released c a)"
  using release_ok [OF assms, of "fst (release e rc u g a)" "snd (release e rc u g a)"] by simp_all

lemma release_stale:
  assumes "\<not> current e g a"
  shows "snd (release e rc u g a) = a" and "\<not> rel_success (fst (release e rc u g a))"
  using release_refused [of e g a rc u "fst (release e rc u g a)" "snd (release e rc u g a)"] assms by simp_all

lemma release_all_stale: "\<not> current e g a \<Longrightarrow> release_all e g leases a = a"
  by (induction leases arbitrary: a) (auto simp: release_all_def release_stale)

lemma release_all_exact:
  assumes "distinct (map fst leases)" "current e g a"
    and "\<And>rc u. (rc, u) \<in> set leases \<Longrightarrow> bound rc a \<and> reserved rc a = u"
  shows "reserved c (release_all e g leases a) = (if c \<in> fst ` set leases then 0 else reserved c a) \<and>
         released c (release_all e g leases a)
           = (if c \<in> fst ` set leases then released c a + reserved c a else released c a)"
  using assms
proof (induction leases arbitrary: a)
  case (Cons l leases)
  obtain rc u where l: "l = (rc, u)" by (cases l)
  let ?a = "snd (release e rc u g a)"
  have lease: "bound rc a" "reserved rc a = u" using Cons.prems l by auto
  note step = release_step [of e g a rc u, OF Cons.prems(2) lease(1)]
  have unroll: "release_all e g (l # leases) a = release_all e g leases ?a"
    by (simp add: release_all_def l)
  have nin: "rc \<notin> fst ` set leases" using Cons.prems(1) l by auto
  have rest: "bound rc' ?a \<and> reserved rc' ?a = u'" if "(rc', u') \<in> set leases" for rc' u'
    using that Cons.prems(3) [of rc' u'] nin lease step by (auto simp: release_bound image_iff)
  have cur: "current e g ?a" using Cons.prems(2) by (simp add: release_current)
  show ?case using Cons.IH [OF _ cur rest] Cons.prems(1) l lease step nin unroll by auto
qed (simp_all add: release_all_def)

text \<open>Exact conservation over the naturals, for one release.\<close>

lemma release_conserves:
  assumes "unat (reserved c a) + unat (released c a) < 2 ^ 64"
  shows "unat (reserved c (snd (release e rc u g a))) + unat (released c (snd (release e rc u g a)))
           = unat (reserved c a) + unat (released c a)"
proof (cases "current e g a \<and> bound rc a \<and> u \<le> reserved rc a")
  case True
  then have ok: "current e g a" "bound rc a" "u \<le> reserved rc a" by auto
  show ?thesis
  proof (cases "c = rc")
    case True
    have le: "unat u \<le> unat (reserved rc a)" using ok(3) by (simp add: word_le_nat_alt)
    have sub: "unat (reserved rc a - u) = unat (reserved rc a) - unat u"
      using ok(3) by (rule unat_sub)
    have "unat (released rc a) + unat u < 2 ^ 64" using assms True le by simp
    then have add: "unat (released rc a + u) = unat (released rc a) + unat u"
      by (simp add: unat_word_ariths)
    show ?thesis using release_step [OF ok] True sub add le by simp
  qed (simp add: release_step [OF ok])
next
  case False
  then show ?thesis
    using release_refused [of e g a rc u "fst (release e rc u g a)" "snd (release e rc u g a)"] by simp
qed

end

lemma ad_lookup_assign: "ad_lookup (map_assign k v m) c = (if c = k then v else ad_lookup m c)"
  by (simp add: ad_lookup_def map_of_map_assign)

definition ad_bound :: "ResourceClass \<Rightarrow> ReferenceAdapters \<Rightarrow> bool" where
  "ad_bound rc a \<longleftrightarrow> map_of (ad_reserved_map a) rc \<noteq> None"

definition ad_current :: "ExecutionId \<Rightarrow> ResourceContractGeneration \<Rightarrow> ReferenceAdapters \<Rightarrow> bool" where
  "ad_current e g a \<longleftrightarrow> e = ad_contract_execution a \<and> g = ad_contract_gen a"

lemmas broker_defs = ad_request_release_def ad_reserved_def ad_released_def ad_bound_def ad_current_def Let_def

interpretation broker: resource_broker ad_reserved ad_released ad_bound ad_current ad_request_release
proof
  fix e g a rc u r a'
  assume "ad_current e g a" "ad_bound rc a" "u \<le> ad_reserved rc a" "ad_request_release e rc u g a = (r, a')"
  then show "rel_success r \<and>
         (\<forall>c. ad_reserved c a' = (if c = rc then ad_reserved rc a - u else ad_reserved c a)) \<and>
         (\<forall>c. ad_released c a' = (if c = rc then ad_released rc a + u else ad_released c a))"
    by (auto simp: broker_defs ad_lookup_assign ad_lookup_def [of "ad_reserved_map a" rc] split: if_splits)
next
  fix e g a rc u r a'
  assume "\<not> (ad_current e g a \<and> ad_bound rc a \<and> u \<le> ad_reserved rc a)" "ad_request_release e rc u g a = (r, a')"
  then show "\<not> rel_success r \<and> a' = a"
    by (auto simp: broker_defs ad_lookup_def not_less split: if_splits option.splits)
qed (auto simp: broker_defs map_of_map_assign ad_lookup_def split: option.splits)

text \<open>Reacquiring moves units back; the sum is conserved on every path.\<close>

lemma reacquire_conserves:
  assumes "unat (ad_reserved c a) + unat (ad_released c a) < 2 ^ 64"
  shows "unat (ad_reserved c (snd (ad_reacquire e rc u g a))) + unat (ad_released c (snd (ad_reacquire e rc u g a)))
           = unat (ad_reserved c a) + unat (ad_released c a)"
proof (cases "e = ad_contract_execution a \<and> u \<le> ad_released rc a")
  case True
  then have le: "unat u \<le> unat (ad_released rc a)" by (simp add: word_le_nat_alt)
  have sub: "unat (ad_released rc a - u) = unat (ad_released rc a) - unat u"
    using True by (intro unat_sub) simp
  have add: "unat (ad_reserved rc a + u) = unat (ad_reserved rc a) + unat u" if "c = rc"
    using assms le that by (simp add: unat_word_ariths)
  show ?thesis using True sub add le
    by (auto simp: ad_reacquire_def ad_reserved_def ad_released_def Let_def ad_lookup_assign not_less)
next
  case False
  then show ?thesis by (auto simp: ad_reacquire_def ad_reserved_def ad_released_def Let_def ad_lookup_assign)
qed

section \<open>Well-formed adapters\<close>

definition adapters_wf :: "ReferenceAdapters \<Rightarrow> bool" where
  "adapters_wf a \<longleftrightarrow> map_wf (ad_reserved_map a) \<and> map_wf (ad_released_map a)"

lemma default_adapters_wf: "adapters_wf default_ReferenceAdapters"
  by (simp add: adapters_wf_def default_ReferenceAdapters_def map_wf_def)

lemma fold_assign_map_wf: "map_wf m \<Longrightarrow> map_wf (foldl (\<lambda>m l. map_assign (f l) (h m l) m) m ls)"
  by (induction ls arbitrary: m) (auto simp: map_assign_wf)

lemma adapters_wf_preserved:
  assumes "adapters_wf a"
  shows "adapters_wf (ad_set_contract e g ls a)" and "adapters_wf (snd (ad_request_release e rc u g a))"
    and "adapters_wf (snd (ad_reacquire e rc u g a))"
  using assms
  by (auto simp: adapters_wf_def ad_set_contract_def ad_request_release_def ad_reacquire_def Let_def
      fold_assign_map_wf map_assign_wf smap.wf_empty split: option.splits)

text \<open>A fresh contract has nothing released, so the accounting sum fits in 64 bits.\<close>

lemma set_contract_released: "ad_released c (ad_set_contract e g ls a) = 0"
  by (simp add: ad_released_def ad_set_contract_def ad_lookup_def)

section \<open>Accounting over sequences of broker calls\<close>

datatype broker_call =
    Release ExecutionId ResourceClass u64 ResourceContractGeneration
  | Reacquire ExecutionId ResourceClass u64 ResourceContractGeneration

fun broker_run :: "broker_call list \<Rightarrow> ReferenceAdapters \<Rightarrow> ReferenceAdapters" where
  "broker_run [] a = a"
| "broker_run (Release e rc u g # cs) a = broker_run cs (snd (ad_request_release e rc u g a))"
| "broker_run (Reacquire e rc u g # cs) a = broker_run cs (snd (ad_reacquire e rc u g a))"

text \<open>
  C30: no call of the resource broker creates or destroys a unit: over any sequence of releases
  and reacquisitions, accepted or refused, current or stale, the reserved and the released units
  of every class add up to what they did before, as long as that sum fits in 64 bits.
\<close>
theorem accounting_conserved:
  assumes "unat (ad_reserved c a) + unat (ad_released c a) < 2 ^ 64"
  shows "unat (ad_reserved c (broker_run cs a)) + unat (ad_released c (broker_run cs a))
           = unat (ad_reserved c a) + unat (ad_released c a)"
  using assms
  by (induction cs a rule: broker_run.induct) (simp_all add: broker.release_conserves reacquire_conserves)

theorem accounting_conserved_witness:
  "unat (ad_reserved ResourceClass.kDeviceMemory (broker_run
     [Release (IdV 20) ResourceClass.kDeviceMemory 60 (GenV 1), Reacquire (IdV 20) ResourceClass.kDeviceMemory 10 (GenV 2)]
     (default_ReferenceAdapters\<lparr>ad_contract_execution := IdV 20, ad_contract_gen := GenV 1,
       ad_reserved_map := [(ResourceClass.kDeviceMemory, 100)]\<rparr>))) +
   unat (ad_released ResourceClass.kDeviceMemory (broker_run
     [Release (IdV 20) ResourceClass.kDeviceMemory 60 (GenV 1), Reacquire (IdV 20) ResourceClass.kDeviceMemory 10 (GenV 2)]
     (default_ReferenceAdapters\<lparr>ad_contract_execution := IdV 20, ad_contract_gen := GenV 1,
       ad_reserved_map := [(ResourceClass.kDeviceMemory, 100)]\<rparr>))) = 100"
  by (subst accounting_conserved) (simp_all add: ad_reserved_def ad_released_def ad_lookup_def default_ReferenceAdapters_def)

end
