(* ===== verification/PF_Lifecycle.thy ===== *)
theory PF_Lifecycle
  imports PF_Enums
begin

text \<open>
  The error type of \<^verbatim>\<open>include/preemption_fabric/util/error.hpp\<close> and the guarded state machine
  \<^verbatim>\<open>LifecycleStateMachine\<close> of \<^verbatim>\<open>include/preemption_fabric/lifecycle/lifecycle.hpp\<close>.
  The machine's only field is its state, so a machine is modelled by a value of the enum; an
  operation that throws returns \<open>Inl\<close> with the error. The ordering theorems at the end use the
  gated regions of the prelude over the machine's edge relation.
\<close>

section \<open>Errors\<close>

record PreemptionError =
  err_code :: string
  err_message :: string

definition throw_invalid_transition :: "string \<Rightarrow> string \<Rightarrow> PreemptionError" where
  "throw_invalid_transition from_name to_name =
     \<lparr>err_code = ''illegal_transition'',
      err_message = ''illegal lifecycle transition from '' @ from_name @ '' to '' @ to_name\<rparr>"

section \<open>The state machine\<close>

fun frontier :: "LifecycleState \<Rightarrow> LifecycleState list" where
  "frontier LifecycleState.kInvalid = []"
| "frontier LifecycleState.kRequested =
     [LifecycleState.kValidatingAuthority, LifecycleState.kCancelled, LifecycleState.kSuperseded]"
| "frontier LifecycleState.kValidatingAuthority =
     [LifecycleState.kAssessing, LifecycleState.kCancelled, LifecycleState.kSuperseded,
      LifecycleState.kFailed]"
| "frontier LifecycleState.kAssessing =
     [LifecycleState.kDeferred, LifecycleState.kWaitingForSafePoint, LifecycleState.kQuiescing,
      LifecycleState.kCaptureRequired, LifecycleState.kCancelled, LifecycleState.kSuperseded,
      LifecycleState.kFailed]"
| "frontier LifecycleState.kDeferred =
     [LifecycleState.kWaitingForSafePoint, LifecycleState.kCancelled, LifecycleState.kSuperseded]"
| "frontier LifecycleState.kWaitingForSafePoint =
     [LifecycleState.kSafePointReached, LifecycleState.kCancelled, LifecycleState.kSuperseded,
      LifecycleState.kFailed]"
| "frontier LifecycleState.kSafePointReached =
     [LifecycleState.kQuiescing, LifecycleState.kCancelled, LifecycleState.kSuperseded]"
| "frontier LifecycleState.kQuiescing =
     [LifecycleState.kQuiesced, LifecycleState.kCancelled, LifecycleState.kFailed,
      LifecycleState.kSuperseded]"
| "frontier LifecycleState.kQuiesced =
     [LifecycleState.kCaptureRequired, LifecycleState.kReleasePending, LifecycleState.kFailed,
      LifecycleState.kSuperseded]"
| "frontier LifecycleState.kCaptureRequired =
     [LifecycleState.kCapturingState, LifecycleState.kFailed, LifecycleState.kSuperseded]"
| "frontier LifecycleState.kCapturingState =
     [LifecycleState.kStateDurable, LifecycleState.kFailed, LifecycleState.kSuperseded,
      LifecycleState.kCancelled]"
| "frontier LifecycleState.kStateDurable =
     [LifecycleState.kReleasePending, LifecycleState.kFailed, LifecycleState.kSuperseded]"
| "frontier LifecycleState.kReleasePending =
     [LifecycleState.kReleasing, LifecycleState.kFailed, LifecycleState.kSuperseded]"
| "frontier LifecycleState.kReleasing =
     [LifecycleState.kResourcesReleased, LifecycleState.kFailed, LifecycleState.kSuperseded]"
| "frontier LifecycleState.kResourcesReleased =
     [LifecycleState.kPreempted, LifecycleState.kSuperseded]"
| "frontier LifecycleState.kPreempted =
     [LifecycleState.kResumePending, LifecycleState.kSuperseded]"
| "frontier LifecycleState.kResumePending =
     [LifecycleState.kRevalidating, LifecycleState.kCancelled, LifecycleState.kSuperseded]"
| "frontier LifecycleState.kRevalidating =
     [LifecycleState.kRestoring, LifecycleState.kResumeReady, LifecycleState.kCancelled,
      LifecycleState.kSuperseded, LifecycleState.kFailed]"
| "frontier LifecycleState.kRestoring =
     [LifecycleState.kResumeReady, LifecycleState.kFailed, LifecycleState.kCancelled,
      LifecycleState.kSuperseded]"
| "frontier LifecycleState.kResumeReady =
     [LifecycleState.kResuming, LifecycleState.kCancelled, LifecycleState.kSuperseded]"
| "frontier LifecycleState.kResuming =
     [LifecycleState.kResumed, LifecycleState.kFailed, LifecycleState.kCancelled,
      LifecycleState.kSuperseded]"
| "frontier LifecycleState.kResumed = []"
| "frontier LifecycleState.kCancelled = []"
| "frontier LifecycleState.kAborted = []"
| "frontier LifecycleState.kFailed = []"
| "frontier LifecycleState.kSuperseded = []"

fun contains :: "LifecycleState list \<Rightarrow> LifecycleState \<Rightarrow> bool" where
  "contains [] s = False"
| "contains (x # f) s = (if x = s then True else contains f s)"

definition is_allowed :: "LifecycleState \<Rightarrow> LifecycleState \<Rightarrow> bool" where
  "is_allowed source target \<longleftrightarrow> contains (frontier source) target"

definition transition :: "LifecycleState \<Rightarrow> LifecycleState \<Rightarrow> PreemptionError + LifecycleState" where
  "transition state target =
     (if \<not> is_allowed state target
      then Inl (throw_invalid_transition (LifecycleState_to_string state) (LifecycleState_to_string target))
      else Inr target)"

definition try_transition :: "LifecycleState \<Rightarrow> LifecycleState \<Rightarrow> bool \<times> LifecycleState" where
  "try_transition state target = (if \<not> is_allowed state target then (False, state) else (True, target))"

definition is_terminal :: "LifecycleState \<Rightarrow> bool" where
  "is_terminal s \<longleftrightarrow> s = LifecycleState.kCancelled \<or> s = LifecycleState.kAborted \<or>
     s = LifecycleState.kFailed \<or> s = LifecycleState.kSuperseded \<or> s = LifecycleState.kResumed"

definition is_preempted_durable :: "LifecycleState \<Rightarrow> bool" where
  "is_preempted_durable s \<longleftrightarrow> s = LifecycleState.kPreempted \<or> s = LifecycleState.kResumePending \<or>
     s = LifecycleState.kRevalidating \<or> s = LifecycleState.kRestoring \<or>
     s = LifecycleState.kResumeReady \<or> s = LifecycleState.kResuming \<or> s = LifecycleState.kResumed"

definition is_durable_commit :: "LifecycleState \<Rightarrow> bool" where
  "is_durable_commit s \<longleftrightarrow> s = LifecycleState.kStateDurable \<or> s = LifecycleState.kResourcesReleased \<or>
     s = LifecycleState.kPreempted \<or> s = LifecycleState.kResumed"

section \<open>Basic facts\<close>

lemma contains_iff [simp]: "contains f s \<longleftrightarrow> s \<in> set f"
  by (induction f) auto

lemma is_allowed_iff: "is_allowed s t \<longleftrightarrow> t \<in> set (frontier s)"
  by (simp add: is_allowed_def)

lemma transition_Inr_iff: "transition s t = Inr u \<longleftrightarrow> is_allowed s t \<and> u = t"
  by (auto simp: transition_def)

lemma transition_Inl_iff: "(\<exists>e. transition s t = Inl e) \<longleftrightarrow> \<not> is_allowed s t"
  by (simp add: transition_def)

lemma try_transition_agrees:
  "try_transition s t = (case transition s t of Inl _ \<Rightarrow> (False, s) | Inr u \<Rightarrow> (True, u))"
  by (simp add: try_transition_def transition_def)

lemma frontier_targets: "t \<in> set (frontier s) \<Longrightarrow>
    t \<noteq> LifecycleState.kInvalid \<and> t \<noteq> LifecycleState.kRequested \<and> t \<noteq> LifecycleState.kAborted"
  by (cases s) auto

lemma terminal_frontier: "frontier s = [] \<longleftrightarrow> is_terminal s \<or> s = LifecycleState.kInvalid"
  by (cases s) (simp_all add: is_terminal_def)

section \<open>Classification of the states\<close>

lemma terminal_simps [simp]:
  "\<not> is_terminal LifecycleState.kInvalid" "\<not> is_terminal LifecycleState.kRequested"
  "\<not> is_terminal LifecycleState.kValidatingAuthority" "\<not> is_terminal LifecycleState.kAssessing"
  "\<not> is_terminal LifecycleState.kDeferred" "\<not> is_terminal LifecycleState.kWaitingForSafePoint"
  "\<not> is_terminal LifecycleState.kSafePointReached" "\<not> is_terminal LifecycleState.kQuiescing"
  "\<not> is_terminal LifecycleState.kQuiesced" "\<not> is_terminal LifecycleState.kCaptureRequired"
  "\<not> is_terminal LifecycleState.kCapturingState" "\<not> is_terminal LifecycleState.kStateDurable"
  "\<not> is_terminal LifecycleState.kReleasePending" "\<not> is_terminal LifecycleState.kReleasing"
  "\<not> is_terminal LifecycleState.kResourcesReleased" "\<not> is_terminal LifecycleState.kPreempted"
  "\<not> is_terminal LifecycleState.kResumePending" "\<not> is_terminal LifecycleState.kRevalidating"
  "\<not> is_terminal LifecycleState.kRestoring" "\<not> is_terminal LifecycleState.kResumeReady"
  "\<not> is_terminal LifecycleState.kResuming" "is_terminal LifecycleState.kResumed"
  "is_terminal LifecycleState.kCancelled" "is_terminal LifecycleState.kAborted"
  "is_terminal LifecycleState.kFailed" "is_terminal LifecycleState.kSuperseded"
  by (simp_all add: is_terminal_def)

lemma preempted_durable_simps [simp]:
  "\<not> is_preempted_durable LifecycleState.kInvalid" "\<not> is_preempted_durable LifecycleState.kRequested"
  "\<not> is_preempted_durable LifecycleState.kValidatingAuthority"
  "\<not> is_preempted_durable LifecycleState.kAssessing" "\<not> is_preempted_durable LifecycleState.kDeferred"
  "\<not> is_preempted_durable LifecycleState.kWaitingForSafePoint"
  "\<not> is_preempted_durable LifecycleState.kSafePointReached"
  "\<not> is_preempted_durable LifecycleState.kQuiescing" "\<not> is_preempted_durable LifecycleState.kQuiesced"
  "\<not> is_preempted_durable LifecycleState.kCaptureRequired"
  "\<not> is_preempted_durable LifecycleState.kCapturingState"
  "\<not> is_preempted_durable LifecycleState.kStateDurable"
  "\<not> is_preempted_durable LifecycleState.kReleasePending"
  "\<not> is_preempted_durable LifecycleState.kReleasing"
  "\<not> is_preempted_durable LifecycleState.kResourcesReleased"
  "is_preempted_durable LifecycleState.kPreempted" "is_preempted_durable LifecycleState.kResumePending"
  "is_preempted_durable LifecycleState.kRevalidating" "is_preempted_durable LifecycleState.kRestoring"
  "is_preempted_durable LifecycleState.kResumeReady" "is_preempted_durable LifecycleState.kResuming"
  "is_preempted_durable LifecycleState.kResumed" "\<not> is_preempted_durable LifecycleState.kCancelled"
  "\<not> is_preempted_durable LifecycleState.kAborted" "\<not> is_preempted_durable LifecycleState.kFailed"
  "\<not> is_preempted_durable LifecycleState.kSuperseded"
  by (simp_all add: is_preempted_durable_def)

section \<open>Rank: the machine has no cycles\<close>

text \<open>
  Every legal edge goes forward in the numeric order of the enumerators, except into the
  terminal error states, which have the greatest values. A run of legal transitions is
  therefore at most twenty-five edges long.
\<close>

definition lifecycle_rank :: "LifecycleState \<Rightarrow> nat" where
  "lifecycle_rank s = position LifecycleState_values s"

lemma edge_increases_rank: "is_allowed s t \<Longrightarrow> lifecycle_rank s < lifecycle_rank t"
  by (cases s; auto simp: is_allowed_iff lifecycle_rank_def LifecycleState_values_def)

lemma rank_bound: "lifecycle_rank s \<le> 25"
  by (cases s; simp add: lifecycle_rank_def LifecycleState_values_def)

lemma steps_rank: "steps is_allowed s ts u \<Longrightarrow> lifecycle_rank s + length ts \<le> lifecycle_rank u"
  by (induction rule: steps.induct) (auto dest!: edge_increases_rank)

section \<open>Ordering: what cannot be bypassed\<close>

text \<open>
  Between \<open>kPreempted\<close> and \<open>kResumed\<close> every stage of the resume protocol is
  a gate except \<open>kRestoring\<close>, which the edge from \<open>kRevalidating\<close> to
  \<open>kResumeReady\<close> bypasses.
\<close>

definition before_revalidation :: "LifecycleState \<Rightarrow> bool" where
  "before_revalidation s \<longleftrightarrow> s \<in> {LifecycleState.kPreempted, LifecycleState.kResumePending,
     LifecycleState.kCancelled, LifecycleState.kSuperseded, LifecycleState.kFailed, LifecycleState.kAborted}"

definition before_resume_ready :: "LifecycleState \<Rightarrow> bool" where
  "before_resume_ready s \<longleftrightarrow> before_revalidation s \<or> s \<in> {LifecycleState.kRevalidating, LifecycleState.kRestoring}"

definition before_resuming :: "LifecycleState \<Rightarrow> bool" where
  "before_resuming s \<longleftrightarrow> before_resume_ready s \<or> s = LifecycleState.kResumeReady"

definition before_state_durable_or_pending :: "LifecycleState \<Rightarrow> bool" where
  "before_state_durable_or_pending s \<longleftrightarrow> lifecycle_rank s \<le> lifecycle_rank LifecycleState.kCapturingState
     \<or> is_terminal s \<and> s \<noteq> LifecycleState.kResumed"

interpretation revalidation_gate:
  gated_region is_allowed before_revalidation "\<lambda>s. s = LifecycleState.kRevalidating"
proof
  fix s t assume "is_allowed s t" "before_revalidation s"
  then show "before_revalidation t \<or> t = LifecycleState.kRevalidating"
    by (cases s; auto simp: is_allowed_iff before_revalidation_def)
qed

interpretation resume_ready_gate:
  gated_region is_allowed before_resume_ready "\<lambda>s. s = LifecycleState.kResumeReady"
proof
  fix s t assume "is_allowed s t" "before_resume_ready s"
  then show "before_resume_ready t \<or> t = LifecycleState.kResumeReady"
    by (cases s; auto simp: is_allowed_iff before_resume_ready_def before_revalidation_def)
qed

interpretation resuming_gate:
  gated_region is_allowed before_resuming "\<lambda>s. s = LifecycleState.kResuming"
proof
  fix s t assume "is_allowed s t" "before_resuming s"
  then show "before_resuming t \<or> t = LifecycleState.kResuming"
    by (cases s; auto simp: is_allowed_iff before_resuming_def before_resume_ready_def before_revalidation_def)
qed

interpretation release_pending_gate:
  gated_region is_allowed before_state_durable_or_pending
    "\<lambda>s. s = LifecycleState.kStateDurable \<or> s = LifecycleState.kReleasePending"
proof
  fix s t assume "is_allowed s t" "before_state_durable_or_pending s"
  then show "before_state_durable_or_pending t \<or> t = LifecycleState.kStateDurable \<or> t = LifecycleState.kReleasePending"
    by (cases s; auto simp: is_allowed_iff before_state_durable_or_pending_def is_terminal_def
        lifecycle_rank_def LifecycleState_values_def)
qed

section \<open>Properties of the machine\<close>

text \<open>
  C31: the lifecycle machine always comes to rest: a run of legal transitions has at most
  twenty-five edges, and a state that no transition leaves is terminal or the initial state.
\<close>
theorem lifecycle_terminates:
  "(\<forall>s ts u. steps is_allowed s ts u \<longrightarrow> length ts \<le> 25) \<and>
   (\<forall>s. (\<forall>t. \<exists>e. transition s t = Inl e) \<longleftrightarrow> is_terminal s \<or> s = LifecycleState.kInvalid)"
proof (intro conjI allI impI)
  fix s ts u assume "steps is_allowed s ts u"
  then show "length ts \<le> 25" using steps_rank [of s ts u] rank_bound [of u] by linarith
next
  fix s
  show "(\<forall>t. \<exists>e. transition s t = Inl e) \<longleftrightarrow> is_terminal s \<or> s = LifecycleState.kInvalid"
    using terminal_frontier [of s] by (simp add: transition_Inl_iff is_allowed_iff)
qed

definition resume_path :: "LifecycleState list" where
  "resume_path = [LifecycleState.kResumePending, LifecycleState.kRevalidating, LifecycleState.kRestoring,
     LifecycleState.kResumeReady, LifecycleState.kResuming, LifecycleState.kResumed]"

lemma resume_path_legal: "steps is_allowed LifecycleState.kPreempted resume_path LifecycleState.kResumed"
  by (simp add: resume_path_def is_allowed_iff)

theorem lifecycle_terminates_witness: "length resume_path \<le> 25"
  using lifecycle_terminates resume_path_legal by blast

text \<open>
  The machine itself does not let a preempted execution resume without revalidation: every
  legal run from PREEMPTED to RESUMED passes REVALIDATING, then RESUME_READY, then RESUMING.
\<close>
theorem resume_passes_gates:
  assumes "steps is_allowed LifecycleState.kPreempted ts LifecycleState.kResumed"
  shows "\<exists>a b c d. ts = a @ LifecycleState.kRevalidating # b @ LifecycleState.kResumeReady # c @ LifecycleState.kResuming # d"
proof -
  have "before_revalidation LifecycleState.kPreempted" "\<not> before_revalidation LifecycleState.kResumed"
    by (simp_all add: before_revalidation_def)
  then obtain a t1 where t1: "ts = a @ LifecycleState.kRevalidating # t1"
    "steps is_allowed LifecycleState.kRevalidating t1 LifecycleState.kResumed"
    using revalidation_gate.last_gate [OF assms] by blast
  have "before_resume_ready LifecycleState.kRevalidating" "\<not> before_resume_ready LifecycleState.kResumed"
    by (simp_all add: before_resume_ready_def before_revalidation_def)
  then obtain b t2 where t2: "t1 = b @ LifecycleState.kResumeReady # t2"
    "steps is_allowed LifecycleState.kResumeReady t2 LifecycleState.kResumed"
    using resume_ready_gate.last_gate [OF t1(2)] by blast
  have "before_resuming LifecycleState.kResumeReady" "\<not> before_resuming LifecycleState.kResumed"
    by (simp_all add: before_resuming_def before_resume_ready_def before_revalidation_def)
  then obtain c d where "t2 = c @ LifecycleState.kResuming # d"
    using resuming_gate.last_gate [OF t2(2)] by blast
  then show ?thesis using t1(1) t2(1) by blast
qed

theorem resume_passes_gates_witness: "LifecycleState.kRevalidating \<in> set resume_path"
  using resume_passes_gates [OF resume_path_legal] by (metis in_set_conv_decomp)

text \<open>
  Quiescence is not such a gate: the edge from ASSESSING to CAPTURE_REQUIRED makes a run legal
  that is preempted without having been QUIESCED. The runtime never takes this edge.
\<close>

lemma preempted_without_quiescence_is_legal:
  "steps is_allowed LifecycleState.kAssessing
     [LifecycleState.kCaptureRequired, LifecycleState.kCapturingState, LifecycleState.kStateDurable,
      LifecycleState.kReleasePending, LifecycleState.kReleasing, LifecycleState.kResourcesReleased,
      LifecycleState.kPreempted] LifecycleState.kPreempted"
  by (simp add: is_allowed_iff)

end
