(* ===== verification/PF_Checked.thy ===== *)
theory PF_Checked
  imports PF_Prelude "HOL-Library.Signed_Division"
begin

text \<open>
  The checked arithmetic of \<^verbatim>\<open>include/preemption_fabric/util/checked.hpp\<close>. The two templates are
  modelled over the mathematical integers with the limits of the instantiating type as
  parameters; \<^verbatim>\<open>/\<close> truncates towards zero, which is \<open>sdiv\<close>. The theorems show that the
  range tests, none of which leaves the type's range, decide exactly whether the mathematical
  result is representable.
\<close>

definition checked_add :: "int \<Rightarrow> int \<Rightarrow> int \<Rightarrow> int \<Rightarrow> int option" where
  "checked_add tmin tmax a b =
     (if b > 0 \<and> a > tmax - b then None
      else if b < 0 \<and> a < tmin - b then None
      else Some (a + b))"

definition checked_mul :: "int \<Rightarrow> int \<Rightarrow> int \<Rightarrow> int \<Rightarrow> int option" where
  "checked_mul tmin tmax a b =
     (let minus_one = (if tmin < 0 then -1 else tmax) in
      if a = 0 \<or> b = 0 then Some 0
      else if a = minus_one \<and> b = tmin then None
      else if b = minus_one \<and> a = tmin then None
      else if a > 0 then
        (if b > 0 then (if a > tmax sdiv b then None else Some (a * b))
         else (if b < tmin sdiv a then None else Some (a * b)))
      else
        (if b > 0 then (if a < tmin sdiv b then None else Some (a * b))
         else (if a \<noteq> 0 \<and> b < tmax sdiv a then None else Some (a * b))))"

definition fits_u32 :: "u64 \<Rightarrow> bool" where
  "fits_u32 v \<longleftrightarrow> v \<le> 0xFFFFFFFF"

definition fits_u16 :: "u64 \<Rightarrow> bool" where
  "fits_u16 v \<longleftrightarrow> v \<le> 0xFFFF"

definition fits_u8 :: "u64 \<Rightarrow> bool" where
  "fits_u8 v \<longleftrightarrow> v \<le> 0xFF"

text \<open>The limits of the integer types the templates are instantiated with.\<close>

definition int_limits :: "int \<Rightarrow> int \<Rightarrow> bool" where
  "int_limits tmin tmax \<longleftrightarrow> tmax > 0 \<and> (tmin = 0 \<or> tmin = - tmax - 1)"

definition in_limits :: "int \<Rightarrow> int \<Rightarrow> int \<Rightarrow> bool" where
  "in_limits tmin tmax v \<longleftrightarrow> tmin \<le> v \<and> v \<le> tmax"

section \<open>Truncating division against a bound\<close>

lemma div_less_iff_int:
  fixes a b m :: int
  assumes "0 < b"
  shows "m div b < a \<longleftrightarrow> m < a * b"
proof
  show "m < a * b" if "m div b < a"
  proof (rule ccontr)
    assume "\<not> m < a * b"
    then have "(a * b) div b \<le> m div b" using assms by (intro zdiv_mono1) auto
    then show False using that assms by simp
  qed
next
  show "m div b < a" if "m < a * b"
  proof (rule ccontr)
    assume "\<not> m div b < a"
    then have "a * b \<le> m div b * b" using assms by (intro mult_right_mono) auto
    also have "\<dots> \<le> m" using assms minus_mod_eq_div_mult [of m b] pos_mod_sign [of b m] by linarith
    finally show False using that by simp
  qed
qed

lemma gt_sdiv_pos:
  fixes a b m :: int
  assumes "0 < b" "0 \<le> m"
  shows "a > m sdiv b \<longleftrightarrow> a * b > m"
proof -
  have "m sdiv b = m div b" using assms by (cases "m = 0") (simp_all add: signed_divide_int_def)
  then show ?thesis using assms by (simp add: div_less_iff_int mult.commute)
qed

lemma sdiv_neg_numerator:
  fixes a m :: int
  assumes "0 < a" "m \<le> 0"
  shows "m sdiv a = - ((- m) div a)"
  using assms by (cases "m = 0") (simp_all add: signed_divide_int_def sgn_if)

lemma sdiv_neg_denominator:
  fixes a m :: int
  assumes "a < 0" "0 \<le> m"
  shows "m sdiv a = - (m div (- a))"
  using assms by (cases "m = 0") (simp_all add: signed_divide_int_def sgn_if)

lemma lt_sdiv_neg:
  fixes a b m :: int
  assumes "0 < a" "m \<le> 0"
  shows "b < m sdiv a \<longleftrightarrow> a * b < m"
proof -
  have "b < m sdiv a \<longleftrightarrow> (- m) div a < - b" using assms by (simp add: sdiv_neg_numerator) linarith
  also have "\<dots> \<longleftrightarrow> - m < (- b) * a" using assms by (simp add: div_less_iff_int)
  finally show ?thesis by (simp add: mult.commute)
qed

lemma lt_sdiv_neg_neg:
  fixes a b m :: int
  assumes "a < 0" "0 \<le> m"
  shows "b < m sdiv a \<longleftrightarrow> a * b > m"
proof -
  have "b < m sdiv a \<longleftrightarrow> m div (- a) < - b" using assms by (simp add: sdiv_neg_denominator) linarith
  also have "\<dots> \<longleftrightarrow> m < (- b) * (- a)" using assms by (simp add: div_less_iff_int)
  finally show ?thesis by (simp add: mult.commute)
qed

section \<open>Exactness of the checks\<close>

lemma checked_add_exact:
  assumes "in_limits tmin tmax a" "in_limits tmin tmax b"
  shows "checked_add tmin tmax a b = (if in_limits tmin tmax (a + b) then Some (a + b) else None)"
  using assms by (auto simp: checked_add_def in_limits_def)

lemma mul_minus_one_tmin: "int_limits tmin tmax \<Longrightarrow> tmin < 0 \<Longrightarrow> (- 1) * tmin > tmax"
  by (auto simp: int_limits_def)

lemma checked_mul_exact_nonzero:
  assumes lim: "int_limits tmin tmax" and "in_limits tmin tmax a" "in_limits tmin tmax b"
    and nz: "a \<noteq> 0" "b \<noteq> 0"
  shows "checked_mul tmin tmax a b = (if in_limits tmin tmax (a * b) then Some (a * b) else None)"
proof -
  have bounds: "tmin \<le> 0" "0 \<le> tmax" using lim by (auto simp: int_limits_def)
  have special: "a * b > tmax" if "a = (if tmin < 0 then -1 else tmax) \<and> b = tmin \<or>
      b = (if tmin < 0 then -1 else tmax) \<and> a = tmin"
    using that mul_minus_one_tmin [OF lim] nz bounds by (auto split: if_splits)
  have sign: "a * b > 0 \<longleftrightarrow> (a > 0 \<longleftrightarrow> b > 0)" "a * b \<noteq> 0"
    using nz by (auto simp: zero_less_mult_iff)
  have tests:
    "a > 0 \<Longrightarrow> b > 0 \<Longrightarrow> a > tmax sdiv b \<longleftrightarrow> tmax < a * b"
    "a > 0 \<Longrightarrow> b < 0 \<Longrightarrow> b < tmin sdiv a \<longleftrightarrow> a * b < tmin"
    "a < 0 \<Longrightarrow> b > 0 \<Longrightarrow> a < tmin sdiv b \<longleftrightarrow> a * b < tmin"
    "a < 0 \<Longrightarrow> b < 0 \<Longrightarrow> b < tmax sdiv a \<longleftrightarrow> tmax < a * b"
    using bounds gt_sdiv_pos [of b tmax a] lt_sdiv_neg [of a tmin b] lt_sdiv_neg_neg [of a tmax b]
      lt_sdiv_neg [of b tmin a, unfolded mult.commute [of b a]] by simp_all
  define p where "p = a * b"
  show ?thesis
    using nz bounds special sign tests unfolding checked_mul_def Let_def in_limits_def p_def [symmetric]
    by (smt (verit, best))
qed

lemma checked_mul_exact:
  assumes "int_limits tmin tmax" "in_limits tmin tmax a" "in_limits tmin tmax b"
  shows "checked_mul tmin tmax a b = (if in_limits tmin tmax (a * b) then Some (a * b) else None)"
proof (cases "a = 0 \<or> b = 0")
  case True
  then show ?thesis using assms(1) by (auto simp: checked_mul_def in_limits_def int_limits_def Let_def)
next
  case False
  then show ?thesis using assms checked_mul_exact_nonzero by simp
qed

lemma fits_u32_of_length: "n < 2 ^ 32 \<Longrightarrow> fits_u32 (word_of_nat n)"
  by (simp add: fits_u32_def word_le_nat_alt unat_of_nat)

text \<open>
  C33: the checked arithmetic is exact for every integer type: given the limits of a signed or an
  unsigned type and operands within them, addition and multiplication return the mathematical
  result when it is representable and nothing otherwise.
\<close>
theorem checked_arithmetic_exact:
  assumes "int_limits tmin tmax" "in_limits tmin tmax a" "in_limits tmin tmax b"
  shows "checked_add tmin tmax a b = (if in_limits tmin tmax (a + b) then Some (a + b) else None) \<and>
     checked_mul tmin tmax a b = (if in_limits tmin tmax (a * b) then Some (a * b) else None)"
  using assms by (simp add: checked_add_exact checked_mul_exact)

theorem checked_arithmetic_exact_witness:
  "checked_add (- 128) 127 100 27 = Some 127 \<and> checked_mul (- 128) 127 (- 128) (- 1) = None"
  using checked_arithmetic_exact [of "- 128" 127 100 27] checked_arithmetic_exact [of "- 128" 127 "- 128" "- 1"]
  by (simp add: int_limits_def in_limits_def)

end
