(* ===== verification/PF_Binary.thy ===== *)
theory PF_Binary
  imports PF_Checked
begin

text \<open>
  The byte writer and reader of \<^verbatim>\<open>include/preemption_fabric/util/binary.hpp\<close>. A
  \<^verbatim>\<open>ByteWriter\<close> is its buffer, a \<^verbatim>\<open>ByteReader\<close> the pair of the span it reads and its
  position. The read operations return \<open>None\<close> where the source returns \<^verbatim>\<open>false\<close>, and the
  value with the advanced reader otherwise. The locale \<open>field_codec\<close> is the contract between
  the two classes that the persistence and the protocol codecs rest on.
\<close>

unbundle bit_operations_syntax

section \<open>ByteWriter\<close>

type_synonym ByteWriter = "byte list"

definition u8_le :: "u8 \<Rightarrow> byte list" where
  "u8_le v = [v]"

definition u16_le :: "u16 \<Rightarrow> byte list" where
  "u16_le v = [ucast (v AND 0xFF), ucast (drop_bit 8 v AND 0xFF)]"

definition u32_le :: "u32 \<Rightarrow> byte list" where
  "u32_le v = [ucast (v AND 0xFF), ucast (drop_bit 8 v AND 0xFF),
               ucast (drop_bit 16 v AND 0xFF), ucast (drop_bit 24 v AND 0xFF)]"

definition u64_le :: "u64 \<Rightarrow> byte list" where
  "u64_le v = map (\<lambda>i. ucast (drop_bit (i * 8) v AND 0xFF)) [0..<8]"

definition bw_u8 :: "u8 \<Rightarrow> ByteWriter \<Rightarrow> ByteWriter" where
  "bw_u8 v w = w @ u8_le v"

definition bw_u16 :: "u16 \<Rightarrow> ByteWriter \<Rightarrow> ByteWriter" where
  "bw_u16 v w = w @ u16_le v"

definition bw_u32 :: "u32 \<Rightarrow> ByteWriter \<Rightarrow> ByteWriter" where
  "bw_u32 v w = w @ u32_le v"

definition bw_u64 :: "u64 \<Rightarrow> ByteWriter \<Rightarrow> ByteWriter" where
  "bw_u64 v w = w @ u64_le v"

text \<open>
  \<^verbatim>\<open>std::int32_t\<close> and \<^verbatim>\<open>std::int64_t\<close> are integers; the cast to the unsigned type is the
  reduction modulo the width, and the cast back reads the two's complement.
\<close>

definition i32_le :: "int \<Rightarrow> byte list" where
  "i32_le v = u32_le (word_of_int v)"

definition i64_le :: "int \<Rightarrow> byte list" where
  "i64_le v = u64_le (word_of_int v)"

definition bw_i32 :: "int \<Rightarrow> ByteWriter \<Rightarrow> ByteWriter" where
  "bw_i32 v w = bw_u32 (word_of_int v) w"

definition bw_i64 :: "int \<Rightarrow> ByteWriter \<Rightarrow> ByteWriter" where
  "bw_i64 v w = bw_u64 (word_of_int v) w"

definition bw_bytes :: "byte list \<Rightarrow> ByteWriter \<Rightarrow> ByteWriter" where
  "bw_bytes d w = w @ d"

definition char_byte :: "char \<Rightarrow> byte" where
  "char_byte c = word_of_nat (of_char c)"

definition byte_char :: "byte \<Rightarrow> char" where
  "byte_char b = char_of (unat b)"

definition string_le :: "string \<Rightarrow> byte list" where
  "string_le s = u32_le (word_of_nat (length s)) @ map char_byte s"

text \<open>\<open>None\<close> is the \<^verbatim>\<open>std::length_error\<close> of an over-long string.\<close>

definition bw_string :: "string \<Rightarrow> ByteWriter \<Rightarrow> ByteWriter option" where
  "bw_string s w = (if \<not> fits_u32 (word_of_nat (length s)) then None else Some (w @ string_le s))"

section \<open>ByteReader\<close>

record ByteReader =
  br_data :: "byte list"
  br_pos :: nat

definition byte_reader :: "byte list \<Rightarrow> ByteReader" where
  "byte_reader d = \<lparr>br_data = d, br_pos = 0\<rparr>"

definition br_remaining :: "ByteReader \<Rightarrow> nat" where
  "br_remaining r = length (br_data r) - br_pos r"

definition br_at_end :: "ByteReader \<Rightarrow> bool" where
  "br_at_end r \<longleftrightarrow> br_pos r = length (br_data r)"

definition br_empty :: "ByteReader \<Rightarrow> bool" where
  "br_empty r \<longleftrightarrow> br_pos r \<ge> length (br_data r)"

definition br_reset :: "byte list \<Rightarrow> ByteReader \<Rightarrow> ByteReader" where
  "br_reset d r = r\<lparr>br_data := d, br_pos := 0\<rparr>"

definition br_remaining_span :: "ByteReader \<Rightarrow> byte list" where
  "br_remaining_span r = drop (br_pos r) (br_data r)"

definition br_advance :: "nat \<Rightarrow> ByteReader \<Rightarrow> ByteReader" where
  "br_advance n r = r\<lparr>br_pos := br_pos r + n\<rparr>"

definition br_octet :: "ByteReader \<Rightarrow> nat \<Rightarrow> byte" where
  "br_octet r i = br_data r ! (br_pos r + i)"

definition br_u8 :: "ByteReader \<Rightarrow> (u8 \<times> ByteReader) option" where
  "br_u8 r = (if br_remaining r < 1 then None else Some (br_octet r 0, br_advance 1 r))"

definition br_u16 :: "ByteReader \<Rightarrow> (u16 \<times> ByteReader) option" where
  "br_u16 r =
     (if br_remaining r < 2 then None
      else let lo = ucast (br_octet r 0); hi = ucast (br_octet r 1)
           in Some (push_bit 8 hi OR lo, br_advance 2 r))"

definition br_u32 :: "ByteReader \<Rightarrow> (u32 \<times> ByteReader) option" where
  "br_u32 r =
     (if br_remaining r < 4 then None
      else Some (foldl (\<lambda>v i. v OR push_bit (i * 8) (ucast (br_octet r i))) 0 [0..<4], br_advance 4 r))"

definition br_u64 :: "ByteReader \<Rightarrow> (u64 \<times> ByteReader) option" where
  "br_u64 r =
     (if br_remaining r < 8 then None
      else Some (foldl (\<lambda>v i. v OR push_bit (i * 8) (ucast (br_octet r i))) 0 [0..<8], br_advance 8 r))"

definition br_i32 :: "ByteReader \<Rightarrow> (int \<times> ByteReader) option" where
  "br_i32 r = (case br_u32 r of None \<Rightarrow> None | Some (u, r) \<Rightarrow> Some (sint u, r))"

definition br_i64 :: "ByteReader \<Rightarrow> (int \<times> ByteReader) option" where
  "br_i64 r = (case br_u64 r of None \<Rightarrow> None | Some (u, r) \<Rightarrow> Some (sint u, r))"

definition br_bytes :: "nat \<Rightarrow> ByteReader \<Rightarrow> (byte list \<times> ByteReader) option" where
  "br_bytes n r =
     (if br_remaining r < n then None
      else Some (take n (drop (br_pos r) (br_data r)), br_advance n r))"

definition br_string :: "ByteReader \<Rightarrow> (string \<times> ByteReader) option" where
  "br_string r =
     (case br_u32 r of
        None \<Rightarrow> None
      | Some (n, r) \<Rightarrow>
          if \<not> fits_u32 (ucast n) then None
          else if unat n > br_remaining r then None
          else Some (map byte_char (take (unat n) (drop (br_pos r) (br_data r))), br_advance (unat n) r))"

section \<open>The contract between writer and reader\<close>

text \<open>A reader that has consumed \<open>pre\<close> and still has \<open>suf\<close> in front of it.\<close>

definition reader_at :: "byte list \<Rightarrow> byte list \<Rightarrow> ByteReader" where
  "reader_at pre suf = \<lparr>br_data = pre @ suf, br_pos = length pre\<rparr>"

lemma byte_reader_at: "byte_reader d = reader_at [] d"
  by (simp add: byte_reader_def reader_at_def)

lemma br_remaining_at [simp]: "br_remaining (reader_at pre suf) = length suf"
  by (simp add: br_remaining_def reader_at_def)

lemma br_at_end_at [simp]: "br_at_end (reader_at pre suf) \<longleftrightarrow> suf = []"
  by (simp add: br_at_end_def reader_at_def)

lemma br_octet_at [simp]: "br_octet (reader_at pre suf) i = suf ! i"
  by (simp add: br_octet_def reader_at_def)

lemma br_advance_at: "br_advance (length a) (reader_at pre (a @ suf)) = reader_at (pre @ a) suf"
  by (simp add: br_advance_def reader_at_def)

locale field_codec =
  fixes enc :: "'v \<Rightarrow> byte list"
    and dec :: "ByteReader \<Rightarrow> ('v \<times> ByteReader) option"
    and ok :: "'v \<Rightarrow> bool"
  assumes dec_enc: "ok v \<Longrightarrow> dec (reader_at pre (enc v @ suf)) = Some (v, reader_at (pre @ enc v) suf)"
begin

lemma dec_enc_end: "ok v \<Longrightarrow> dec (byte_reader (enc v)) = Some (v, reader_at (enc v) [])"
  using dec_enc [of v "[]" "[]"] by (simp add: byte_reader_at)

lemma enc_prefix_free:
  assumes "ok v" "ok v'" "enc v @ suf = enc v' @ suf'"
  shows "v = v' \<and> suf = suf'"
proof -
  have "Some (v, reader_at (enc v) suf) = Some (v', reader_at (enc v') suf')"
    using dec_enc [OF assms(1), of "[]" suf] dec_enc [OF assms(2), of "[]" suf'] assms(3) by simp
  then show ?thesis using assms(3) by simp
qed

end

section \<open>Little-endian round trips\<close>

lemma octets_fold:
  fixes v :: "'a::len word"
  assumes "\<And>i. i < k \<Longrightarrow> (f i :: byte) = ucast (drop_bit (i * 8) v AND 0xFF)"
  shows "foldl (\<lambda>a i. a OR push_bit (i * 8) (ucast (f i))) 0 [0..<k] = take_bit (k * 8) v"
  using assms
proof (induction k)
  case (Suc k)
  have f: "f k = ucast (drop_bit (k * 8) v AND 0xFF)" using Suc.prems by simp
  have "take_bit (Suc k * 8) v = take_bit (k * 8) v OR push_bit (k * 8) (take_bit 8 (drop_bit (k * 8) v))"
    by (rule bit_word_eqI) (auto simp: bit_take_bit_iff bit_or_iff bit_push_bit_iff bit_drop_bit_eq)
  moreover have "drop_bit (k * 8) v AND 0xFF = take_bit 8 (drop_bit (k * 8) v)"
    by (simp add: take_bit_eq_mask mask_eq_exp_minus_1)
  then have "(ucast (f k) :: 'a word) = take_bit 8 (drop_bit (k * 8) v)"
    unfolding f by (intro bit_word_eqI) (auto simp: bit_take_bit_iff bit_unsigned_iff)
  ultimately show ?case using Suc by simp
qed simp

lemma octets_word: "LENGTH('a::len) \<le> k * 8 \<Longrightarrow> take_bit (k * 8) v = (v :: 'a word)"
  by (simp add: take_bit_word_eq_self)

lemma u32_le_nth: "i < 4 \<Longrightarrow> (u32_le v @ suf) ! i = ucast (drop_bit (i * 8) v AND 0xFF)"
proof -
  assume "i < 4"
  then consider "i = 0" | "i = 1" | "i = 2" | "i = 3" by linarith
  then show ?thesis by cases (simp_all add: u32_le_def)
qed

lemma u64_le_nth: "i < 8 \<Longrightarrow> (u64_le v @ suf) ! i = ucast (drop_bit (i * 8) v AND 0xFF)"
  by (simp add: u64_le_def nth_append)

lemma u8_le_len [simp, codec_len]: "length (u8_le v) = 1"
  by (simp add: u8_le_def)

lemma u16_le_len [simp, codec_len]: "length (u16_le v) = 2"
  by (simp add: u16_le_def)

lemma u32_le_len [simp, codec_len]: "length (u32_le v) = 4"
  by (simp add: u32_le_def)

lemma u64_le_len [simp, codec_len]: "length (u64_le v) = 8"
  by (simp add: u64_le_def)

lemma string_le_len [simp, codec_len]: "length (string_le s) = 4 + length s"
  by (simp add: string_le_def)

lemma byte_char_char_byte [simp]: "byte_char (char_byte c) = c"
proof -
  have "(of_char c :: nat) < 256" by (rule nat_of_char_less_256)
  then show ?thesis by (simp add: byte_char_def char_byte_def unat_of_nat)
qed

lemma byte_char_comp [simp]: "byte_char \<circ> char_byte = id"
  by (simp add: fun_eq_iff)

lemma br_advance_le:
  "br_advance 1 (reader_at pre (u8_le a @ suf)) = reader_at (pre @ u8_le a) suf"
  "br_advance 2 (reader_at pre (u16_le b @ suf)) = reader_at (pre @ u16_le b) suf"
  "br_advance 4 (reader_at pre (u32_le c @ suf)) = reader_at (pre @ u32_le c) suf"
  "br_advance 8 (reader_at pre (u64_le d @ suf)) = reader_at (pre @ u64_le d) suf"
  using br_advance_at [of "u8_le a"] br_advance_at [of "u16_le b"]
    br_advance_at [of "u32_le c"] br_advance_at [of "u64_le d"] by simp_all

lemma br_u8_enc: "br_u8 (reader_at pre (u8_le v @ suf)) = Some (v, reader_at (pre @ u8_le v) suf)"
  using br_advance_le(1) [of pre v suf] by (simp add: br_u8_def) (simp add: u8_le_def)

lemma br_u16_enc: "br_u16 (reader_at pre (u16_le v @ suf)) = Some (v, reader_at (pre @ u16_le v) suf)"
proof -
  have "push_bit 8 (ucast (ucast (drop_bit 8 v AND 0xFF) :: byte)) OR ucast (ucast (v AND 0xFF) :: byte) = v"
    using octets_fold [of 2 "\<lambda>i. ucast (drop_bit (i * 8) v AND 0xFF)" v] octets_word [of 2 v]
    by (simp add: upt_conv_Cons or.commute)
  then show ?thesis by (simp add: br_u16_def br_advance_le) (simp add: u16_le_def)
qed

lemma br_u32_enc: "br_u32 (reader_at pre (u32_le v @ suf)) = Some (v, reader_at (pre @ u32_le v) suf)"
  using octets_fold [of 4 "\<lambda>i. (u32_le v @ suf) ! i" v] octets_word [of 4 v]
  by (simp add: br_u32_def u32_le_nth br_advance_le)

lemma br_u64_enc: "br_u64 (reader_at pre (u64_le v @ suf)) = Some (v, reader_at (pre @ u64_le v) suf)"
  using octets_fold [of 8 "\<lambda>i. (u64_le v @ suf) ! i" v] octets_word [of 8 v]
  by (simp add: br_u64_def u64_le_nth br_advance_le)

lemma br_string_enc:
  assumes "length s < 2 ^ 32"
  shows "br_string (reader_at pre (string_le s @ suf)) = Some (s, reader_at (pre @ string_le s) suf)"
proof -
  have n: "unat (word_of_nat (length s) :: u32) = length s"
    using assms by (simp add: unat_of_nat)
  have fits: "fits_u32 (ucast (word_of_nat (length s) :: u32))"
    using order_trans [OF take_bit_nat_less_eq_self [of 64 "length s"], of "2 ^ 32 - 1"] assms
    by (simp add: fits_u32_def word_le_nat_alt unsigned_ucast_eq unat_of_nat)
  show ?thesis
    using br_u32_enc [of pre "word_of_nat (length s)" "map char_byte s @ suf"]
      br_advance_at [of "map char_byte s" "pre @ u32_le (word_of_nat (length s))" suf] n fits
    by (simp add: br_string_def string_le_def) (simp add: reader_at_def)
qed

lemma signed_cast:
  assumes "- (2 ^ (LENGTH('a::len) - 1)) \<le> v" "v < 2 ^ (LENGTH('a) - 1)"
  shows "sint (word_of_int v :: 'a word) = v"
  using assms by (simp add: sint_word_ariths sint_sbintrunc' signed_take_bit_int_eq_self)

lemma br_i32_enc:
  assumes "- (2 ^ 31) \<le> v" "v < 2 ^ 31"
  shows "br_i32 (reader_at pre (i32_le v @ suf)) = Some (v, reader_at (pre @ i32_le v) suf)"
  using signed_cast [where 'a = 32, of v] assms by (simp add: br_i32_def i32_le_def br_u32_enc)

lemma br_i64_enc:
  assumes "- (2 ^ 63) \<le> v" "v < 2 ^ 63"
  shows "br_i64 (reader_at pre (i64_le v @ suf)) = Some (v, reader_at (pre @ i64_le v) suf)"
  using signed_cast [where 'a = 64, of v] assms by (simp add: br_i64_def i64_le_def br_u64_enc)

lemma br_remaining_span_at: "br_remaining_span (reader_at pre suf) = suf" "br_empty (reader_at pre suf) \<longleftrightarrow> suf = []"
  by (simp_all add: br_remaining_span_def br_empty_def reader_at_def)

interpretation u8c: field_codec u8_le br_u8 "\<lambda>_. True"
  by unfold_locales (rule br_u8_enc)

interpretation u16c: field_codec u16_le br_u16 "\<lambda>_. True"
  by unfold_locales (rule br_u16_enc)

interpretation u32c: field_codec u32_le br_u32 "\<lambda>_. True"
  by unfold_locales (rule br_u32_enc)

interpretation u64c: field_codec u64_le br_u64 "\<lambda>_. True"
  by unfold_locales (rule br_u64_enc)

interpretation i32c: field_codec i32_le br_i32 "\<lambda>v. - (2 ^ 31) \<le> v \<and> v < 2 ^ 31"
  by unfold_locales (simp add: br_i32_enc)

interpretation i64c: field_codec i64_le br_i64 "\<lambda>v. - (2 ^ 63) \<le> v \<and> v < 2 ^ 63"
  by unfold_locales (simp add: br_i64_enc)

interpretation strc: field_codec string_le br_string "\<lambda>s. length s < 2 ^ 32"
  by unfold_locales (rule br_string_enc)

lemmas [codec_rt] = br_u8_enc br_u16_enc br_u32_enc br_u64_enc br_string_enc

section \<open>Every four octets are the encoding of the value read from them\<close>

lemma u32_le_octets:
  fixes a b c d :: byte
  shows "u32_le (ucast a OR push_bit 8 (ucast b) OR push_bit 16 (ucast c) OR push_bit 24 (ucast d)) = [a, b, c, d]"
proof -
  let ?v = "ucast a OR push_bit 8 (ucast b) OR push_bit 16 (ucast c) OR push_bit 24 (ucast d) :: u32"
  have byte_bit: "\<not> bit (x :: byte) n" if "8 \<le> n" for x n
    using that bit_imp_le_length [of x n] by auto
  have oct: "ucast (drop_bit k v AND 0xFF) = x"
    if "\<And>n. n < 8 \<Longrightarrow> bit v (k + n) \<longleftrightarrow> bit x n" for k and v :: u32 and x :: byte
  proof -
    have mask: "y AND 0xFF = take_bit 8 y" for y :: u32
      by (simp add: take_bit_eq_mask mask_eq_exp_minus_1)
    show ?thesis
      unfolding mask by (rule bit_word_eqI) (simp add: bit_unsigned_iff bit_take_bit_iff bit_drop_bit_eq that)
  qed
  note bits = bit_unsigned_iff bit_or_iff bit_push_bit_iff byte_bit
  have "ucast (drop_bit 0 ?v AND 0xFF) = a" by (rule oct) (simp add: bits)
  moreover have "ucast (drop_bit 8 ?v AND 0xFF) = b" by (rule oct) (simp add: bits)
  moreover have "ucast (drop_bit 16 ?v AND 0xFF) = c" by (rule oct) (simp add: bits)
  moreover have "ucast (drop_bit 24 ?v AND 0xFF) = d" by (rule oct) (simp add: bits)
  ultimately show ?thesis by (simp only: u32_le_def drop_bit_0 id_apply)
qed

lemma br_u32_octets:
  "length d = 4 \<Longrightarrow> \<exists>v. br_u32 (byte_reader d) = Some (v, reader_at d []) \<and> u32_le v = d"
proof -
  assume "length d = 4"
  then obtain a b c e where d: "d = [a, b, c, e]"
    by (auto simp: numeral_eq_Suc length_Suc_conv)
  have "br_u32 (byte_reader d)
      = Some (ucast a OR push_bit 8 (ucast b) OR push_bit 16 (ucast c) OR push_bit 24 (ucast e), reader_at d [])"
    unfolding d byte_reader_at
    by (simp add: br_u32_def upt_conv_Cons or.assoc) (simp add: br_advance_def reader_at_def)
  then show ?thesis using u32_le_octets [of a b c e] d by blast
qed

section \<open>Reads never leave the span\<close>

lemma br_u32_length: "br_u32 r = Some (v, r') \<Longrightarrow> br_data r' = br_data r \<and> br_pos r' = br_pos r + 4 \<and> br_pos r + 4 \<le> length (br_data r)"
  by (auto simp: br_u32_def br_remaining_def br_advance_def split: if_splits)

lemma br_u64_length: "br_u64 r = Some (v, r') \<Longrightarrow> br_data r' = br_data r \<and> br_pos r' = br_pos r + 8 \<and> br_pos r + 8 \<le> length (br_data r)"
  by (auto simp: br_u64_def br_remaining_def br_advance_def split: if_splits)

end
