(* ===== verification/PF_Crc32.thy ===== *)
theory PF_Crc32
  imports PF_Prelude
begin

text \<open>
  The checksum of \<^verbatim>\<open>include/preemption_fabric/util/crc32.hpp\<close>: the table-driven reflected
  CRC-32. The theory relates it to the bit-serial definition of the same code and shows what
  the frame and image decoders rely on: two byte strings of equal length that both end in their
  checksum cannot differ within one run of at most four consecutive bytes only.
\<close>

unbundle bit_operations_syntax

definition kCrc32Polynomial :: u32 where
  "kCrc32Polynomial = 0xEDB88320"

definition crc_bit :: "u32 \<Rightarrow> u32" where
  "crc_bit c = (if c AND 1 \<noteq> 0 then kCrc32Polynomial XOR drop_bit 1 c else drop_bit 1 c)"

definition crc32_table :: "u32 list" where
  "crc32_table = map (\<lambda>i. (crc_bit ^^ 8) (word_of_nat i)) [0..<256]"

definition crc_step :: "u32 \<Rightarrow> byte \<Rightarrow> u32" where
  "crc_step crc b = (crc32_table ! unat ((crc XOR ucast b) AND 0xFF)) XOR drop_bit 8 crc"

definition crc32 :: "byte list \<Rightarrow> u32" where
  "crc32 d = foldl crc_step 0xFFFFFFFF d XOR 0xFFFFFFFF"

section \<open>The bit-serial reference\<close>

text \<open>The textbook form: each message bit is shifted through the register, lowest bit first.\<close>

definition serial_step :: "u32 \<Rightarrow> byte \<Rightarrow> u32" where
  "serial_step crc b = (crc_bit ^^ 8) (crc XOR ucast b)"

definition crc32_serial :: "byte list \<Rightarrow> u32" where
  "crc32_serial d = foldl serial_step 0xFFFFFFFF d XOR 0xFFFFFFFF"

lemma xor_left_cancel: "a XOR b = a XOR c \<longleftrightarrow> b = c" for a b c :: "'a::len word"
proof
  assume "a XOR b = a XOR c"
  then have "a XOR (a XOR b) = a XOR (a XOR c)" by simp
  then show "b = c" by (simp add: xor.assoc [symmetric])
qed simp

lemma xor_right_cancel: "b XOR a = c XOR a \<longleftrightarrow> b = c" for a b c :: "'a::len word"
  by (simp add: xor.commute [of _ a] xor_left_cancel)

lemma and_one_xor: "(a XOR b) AND 1 \<noteq> (0::u32) \<longleftrightarrow> ((a AND 1 \<noteq> 0) \<noteq> (b AND 1 \<noteq> 0))"
  by (simp add: and_one_eq odd_iff_mod_2_eq_one [symmetric] even_xor_iff flip: even_iff_mod_2_eq_zero)

lemma crc_bit_xor: "crc_bit (a XOR b) = crc_bit a XOR crc_bit b"
proof -
  have "drop_bit 1 (a XOR b) = drop_bit 1 a XOR drop_bit 1 b" by (rule drop_bit_xor)
  then show ?thesis
    using and_one_xor [of a b] by (auto simp: crc_bit_def xor.assoc xor.left_commute xor.commute)
qed

lemma crc_bits_xor: "(crc_bit ^^ n) (a XOR b) = (crc_bit ^^ n) a XOR (crc_bit ^^ n) b"
  by (induction n) (simp_all add: crc_bit_xor)

lemma crc_bits_low_clear: "(\<And>i. i < n \<Longrightarrow> \<not> bit c i) \<Longrightarrow> (crc_bit ^^ n) c = drop_bit n c"
proof (induction n)
  case (Suc n)
  have "\<not> bit (drop_bit n c) 0" using Suc.prems [of n] by (simp add: bit_drop_bit_eq)
  then have "crc_bit (drop_bit n c) = drop_bit (Suc n) c"
    by (simp add: crc_bit_def and_one_eq even_bit_succ_iff bit_0 odd_iff_mod_2_eq_one add.commute)
  then show ?case using Suc by simp
qed simp

lemma and_low_octet: "x AND 0xFF = take_bit 8 x" for x :: u32
  by (simp add: take_bit_eq_mask mask_eq_exp_minus_1)

lemma low_octet_split: "x = take_bit 8 x XOR push_bit 8 (drop_bit 8 x)" for x :: u32
  by (rule bit_word_eqI) (auto simp: bit_xor_iff bit_take_bit_iff bit_push_bit_iff bit_drop_bit_eq)

lemma crc_octet_shift: "(crc_bit ^^ 8) (push_bit 8 y) = y" if "drop_bit 24 y = 0"
proof -
  have high: "n < 24" if "bit y n" for n
  proof (rule ccontr)
    assume "\<not> n < 24"
    then show False
      using arg_cong [OF \<open>drop_bit 24 y = 0\<close>, of "\<lambda>w. bit w (n - 24)"] \<open>bit y n\<close> by (simp add: bit_drop_bit_eq)
  qed
  have "(crc_bit ^^ 8) (push_bit 8 y) = drop_bit 8 (push_bit 8 y)"
    by (rule crc_bits_low_clear) (simp add: bit_push_bit_iff)
  also have "\<dots> = y"
    by (rule bit_word_eqI) (auto simp: bit_drop_bit_eq bit_push_bit_iff dest: high)
  finally show ?thesis .
qed

lemma crc_table_nth: "crc32_table ! unat (x AND 0xFF) = (crc_bit ^^ 8) (x AND 0xFF)"
proof -
  have "unat (x AND 0xFF) \<le> unat (0xFF :: u32)"
    by (rule word_and_le1 [THEN word_le_nat_alt [THEN iffD1]])
  then show ?thesis by (simp add: crc32_table_def del: upt_Suc)
qed

lemma crc_octet: "(crc_bit ^^ 8) x = crc32_table ! unat (x AND 0xFF) XOR drop_bit 8 x"
proof -
  have "(crc_bit ^^ 8) x = (crc_bit ^^ 8) (take_bit 8 x) XOR (crc_bit ^^ 8) (push_bit 8 (drop_bit 8 x))"
    by (subst low_octet_split [of x]) (rule crc_bits_xor)
  also have "(crc_bit ^^ 8) (push_bit 8 (drop_bit 8 x)) = drop_bit 8 x"
    by (rule crc_octet_shift) (simp add: drop_bit_drop_bit drop_bit_eq_zero_iff_not_bit_last)
  also have "(crc_bit ^^ 8) (take_bit 8 x) = crc32_table ! unat (x AND 0xFF)"
    by (simp only: crc_table_nth [of x, unfolded and_low_octet] and_low_octet)
  finally show ?thesis .
qed

lemma crc_step_serial: "crc_step crc b = serial_step crc b"
proof -
  have "drop_bit 8 (crc XOR ucast b) = drop_bit 8 crc"
    by (rule bit_word_eqI) (auto simp: bit_drop_bit_eq bit_xor_iff bit_unsigned_iff dest: bit_imp_le_length)
  then show ?thesis by (simp only: crc_step_def serial_step_def crc_octet)
qed

lemma crc32_eq_serial: "crc32 d = crc32_serial d"
  by (simp add: crc32_def crc32_serial_def crc_step_serial [abs_def] cong: foldl_cong)

section \<open>Error detection\<close>

lemma crc_bit_zero: "crc_bit c = 0 \<longleftrightarrow> c = 0"
proof
  assume z: "crc_bit c = 0"
  show "c = 0"
  proof (cases "bit c 0")
    case True
    then have "kCrc32Polynomial XOR drop_bit 1 c = 0"
      using z by (simp add: crc_bit_def bit_0 one_and_eq and_one_eq odd_iff_mod_2_eq_one)
    then have "bit (kCrc32Polynomial XOR drop_bit 1 c) 31 = False" by simp
    then show ?thesis by (auto simp: bit_xor_iff bit_drop_bit_eq kCrc32Polynomial_def dest: bit_imp_le_length)
  next
    case False
    then have "drop_bit 1 c = 0"
      using z by (simp add: crc_bit_def bit_0 and_one_eq even_iff_mod_2_eq_zero)
    then have "bit (drop_bit 1 c) i = False" for i by simp
    then have "\<not> bit c (Suc i)" for i by (simp add: bit_drop_bit_eq)
    then have "\<not> bit c i" for i using False by (cases i) auto
    then show ?thesis by (intro bit_word_eqI) simp
  qed
qed (simp add: crc_bit_def)

lemma crc_bits_inject: "(crc_bit ^^ n) a = (crc_bit ^^ n) b \<longleftrightarrow> a = b"
proof
  have zero: "(crc_bit ^^ n) c = 0 \<longleftrightarrow> c = 0" for c by (induction n) (simp_all add: crc_bit_zero)
  assume "(crc_bit ^^ n) a = (crc_bit ^^ n) b"
  then have "a XOR b = a XOR a" using zero [of "a XOR b"] by (simp add: crc_bits_xor)
  then show "a = b" by (simp only: xor_left_cancel)
qed simp

lemma serial_step_inject: "serial_step a b = serial_step a' b \<longleftrightarrow> a = a'"
  by (simp add: serial_step_def crc_bits_inject xor_right_cancel)

lemma serial_fold_inject: "foldl serial_step a d = foldl serial_step a' d \<longleftrightarrow> a = a'"
  by (induction d arbitrary: a a') (simp_all add: serial_step_inject)

fun le_word :: "byte list \<Rightarrow> u32" where
  "le_word [] = 0"
| "le_word (b # bs) = ucast b XOR push_bit 8 (le_word bs)"

lemma le_word_bits: "bit (le_word bs) i \<Longrightarrow> i < 8 * length bs"
proof (induction bs arbitrary: i)
  case (Cons b bs)
  show ?case
  proof (cases "i < 8")
    case False
    then have "bit (le_word bs) (i - 8)"
      using Cons.prems by (auto simp: bit_xor_iff bit_push_bit_iff bit_unsigned_iff dest: bit_imp_le_length)
    then show ?thesis using Cons.IH False by fastforce
  qed simp
qed simp

lemma serial_fold_word:
  "length bs \<le> 4 \<Longrightarrow> foldl serial_step c bs = (crc_bit ^^ (8 * length bs)) (c XOR le_word bs)"
proof (induction bs arbitrary: c)
  case (Cons b bs)
  have "drop_bit 24 (le_word bs) = 0"
    by (rule bit_word_eqI) (use Cons.prems in \<open>auto simp: bit_drop_bit_eq dest!: le_word_bits\<close>)
  then have shift: "(crc_bit ^^ 8) (push_bit 8 (le_word bs)) = le_word bs"
    by (rule crc_octet_shift)
  have "serial_step c b XOR le_word bs = (crc_bit ^^ 8) (c XOR le_word (b # bs))"
    using shift by (simp add: serial_step_def crc_bits_xor xor.assoc)
  then have "foldl serial_step c (b # bs) = (crc_bit ^^ (8 * length bs)) ((crc_bit ^^ 8) (c XOR le_word (b # bs)))"
    using Cons by simp
  then show ?case by (simp add: funpow_add [symmetric, THEN fun_cong, unfolded comp_def] algebra_simps)
qed simp

lemma le_word_inject: "length xs = length ys \<Longrightarrow> length xs \<le> 4 \<Longrightarrow> le_word xs = le_word ys \<Longrightarrow> xs = ys"
proof (induction xs ys rule: list_induct2)
  case (Cons x xs y ys)
  have bits: "bit (ucast x XOR push_bit 8 (le_word xs)) i = bit (ucast y XOR push_bit 8 (le_word ys)) i" for i
    using Cons.prems by simp
  have "x = y"
  proof (rule bit_word_eqI)
    fix n assume "n < LENGTH(8)"
    then show "bit x n = bit y n"
      using bits [of n] by (simp add: bit_xor_iff bit_push_bit_iff bit_unsigned_iff)
  qed
  moreover have "le_word xs = le_word ys"
  proof (rule bit_word_eqI)
    fix n assume "n < LENGTH(32)"
    show "bit (le_word xs) n = bit (le_word ys) n"
    proof (cases "n < 24")
      case True
      then show ?thesis
        using bits [of "n + 8"] by (auto simp: bit_xor_iff bit_push_bit_iff bit_unsigned_iff dest: bit_imp_le_length)
    next
      case False
      then show ?thesis using le_word_bits [of xs n] le_word_bits [of ys n] Cons by auto
    qed
  qed
  ultimately show ?case using Cons by simp
qed simp

lemma crc32_burst:
  assumes "length mid = length mid'" "length mid \<le> 4" "mid \<noteq> mid'"
  shows "crc32 (pre @ mid @ suf) \<noteq> crc32 (pre @ mid' @ suf)"
proof
  assume "crc32 (pre @ mid @ suf) = crc32 (pre @ mid' @ suf)"
  then have "foldl serial_step 0xFFFFFFFF (pre @ mid @ suf) = foldl serial_step 0xFFFFFFFF (pre @ mid' @ suf)"
    by (simp only: crc32_eq_serial crc32_serial_def xor_right_cancel)
  then have "le_word mid = le_word mid'"
    using assms by (simp add: serial_fold_inject serial_fold_word crc_bits_inject xor_left_cancel)
  then show False using assms le_word_inject by blast
qed

text \<open>
  A string followed by the four bytes of its checksum takes the register to a value that does not
  depend on the string. So the checksum also protects itself, and a run of changed bytes may lie
  across the boundary between the two.
\<close>

lemma le_word_octets:
  "le_word [ucast (v AND 0xFF), ucast (drop_bit 8 v AND 0xFF), ucast (drop_bit 16 v AND 0xFF), ucast (drop_bit 24 v AND 0xFF)] = v"
proof (rule bit_word_eqI)
  fix n assume "n < LENGTH(32)"
  then consider "n < 8" | "8 \<le> n" "n < 16" | "16 \<le> n" "n < 24" | "24 \<le> n" "n < 32" by fastforce
  then show "bit (le_word [ucast (v AND 0xFF), ucast (drop_bit 8 v AND 0xFF), ucast (drop_bit 16 v AND 0xFF),
      ucast (drop_bit 24 v AND 0xFF)]) n = bit v n"
    by cases (auto simp: and_low_octet bit_xor_iff bit_push_bit_iff bit_unsigned_iff bit_take_bit_iff bit_drop_bit_eq)
qed

lemma crc32_codeword:
  assumes "length cs = 4"
  shows "crc32 d = le_word cs \<longleftrightarrow> foldl serial_step 0xFFFFFFFF (d @ cs) = (crc_bit ^^ 32) 0xFFFFFFFF"
proof -
  define reg where "reg = foldl serial_step 0xFFFFFFFF d"
  have "foldl serial_step 0xFFFFFFFF (d @ cs) = (crc_bit ^^ 32) (reg XOR le_word cs)"
    using serial_fold_word [of cs reg] assms by (simp add: reg_def)
  moreover have "reg XOR le_word cs = 0xFFFFFFFF \<longleftrightarrow> reg XOR 0xFFFFFFFF = le_word cs"
    using xor_left_cancel [where a = reg and b = "reg XOR le_word cs" and c = "0xFFFFFFFF"] by (auto simp: xor.assoc [symmetric])
  ultimately show ?thesis by (simp add: crc32_eq_serial crc32_serial_def crc_bits_inject flip: reg_def)
qed

lemma crc32_codeword_burst:
  assumes "crc32 d = le_word cs" "crc32 d' = le_word cs'" "length cs = 4" "length cs' = 4"
    and "d @ cs = pre @ mid @ suf" "d' @ cs' = pre @ mid' @ suf" "length mid' = length mid" "length mid \<le> 4"
  shows "mid' = mid"
proof -
  have "foldl serial_step 0xFFFFFFFF (pre @ mid' @ suf) = foldl serial_step 0xFFFFFFFF (pre @ mid @ suf)"
    using crc32_codeword [of cs d] crc32_codeword [of cs' d'] assms(1-6) by metis
  then have "le_word mid' = le_word mid"
    using assms(7,8) by (simp add: serial_fold_inject serial_fold_word crc_bits_inject xor_left_cancel)
  then show ?thesis using assms(7,8) le_word_inject by metis
qed

lemma crc32_byte_change:
  assumes "i < length d" "d ! i \<noteq> b"
  shows "crc32 (d[i := b]) \<noteq> crc32 d"
  using crc32_burst [of "[b]" "[d ! i]" "take i d" "drop (Suc i) d"] assms
  by (simp add: upd_conv_take_nth_drop id_take_nth_drop [symmetric])

text \<open>
  C32: the table-driven loop computes the checksum it is meant to compute: for every byte string
  it equals the bit-serial CRC-32, in which each message bit is shifted through the register.
\<close>
theorem table_driven_is_serial: "crc32 d = crc32_serial d"
  by (rule crc32_eq_serial)

end
