(* ===== verification/PF_Persistence.thy ===== *)
theory PF_Persistence
  imports PF_Domains PF_Lifecycle PF_Binary PF_Crc32
begin

text \<open>
  The durable image: the structs of \<^verbatim>\<open>persistence/state.hpp\<close>, the error categories of
  \<^verbatim>\<open>persistence/store.hpp\<close> and the codec of \<^verbatim>\<open>src/persistence/store.cpp\<close>. A decode is a sum:
  \<open>Inl\<close> carries the \<^verbatim>\<open>PersistenceError\<close> of the failing path, \<open>Inr\<close> the state. The
  reading lambdas of the source share a flag \<^verbatim>\<open>ok\<close>: a short read clears it and yields 0, and
  the loops and the checks after each section look at it. The lemmas show that decoding an
  encoded image returns exactly the verdict of the semantic validation, that every truncation,
  extension and single-byte corruption is rejected, and what an accepted image guarantees.
\<close>

section \<open>state.hpp\<close>

record PersistentSafePoint =
  psp_id :: SafePointId
  psp_generation :: SafePointGeneration
  psp_execution_id :: ExecutionId
  psp_attempt_id :: AttemptId
  psp_worker_id :: WorkerId
  psp_worker_boot_id :: WorkerBootId
  psp_progress_position :: u64
  psp_state_capture_required :: bool
  psp_checkpoint_required :: bool
  psp_state :: SafePointState
  psp_order :: u64

record PersistentReleaseReceipt =
  prr_resource :: ResourceClass
  prr_units :: u64
  prr_contract_id :: ResourceContractId
  prr_contract_generation :: ResourceContractGeneration
  prr_release_generation :: ReleaseGeneration
  prr_worker_boot_id :: WorkerBootId

record PersistentSuperseded =
  psu_request_id :: PreemptionRequestId
  psu_generation :: PreemptionRequestGeneration
  psu_final_state :: LifecycleState

record PersistentState =
  ps_format_version :: u32
  ps_coordinator_epoch :: CoordinatorEpoch
  ps_policy_generation :: PolicyGeneration
  ps_workload_id :: WorkloadId
  ps_workload_generation :: WorkloadGeneration
  ps_execution_id :: ExecutionId
  ps_execution_generation :: ExecutionGeneration
  ps_attempt_id :: AttemptId
  ps_attempt_generation :: AttemptGeneration
  ps_worker_id :: WorkerId
  ps_worker_boot_id :: WorkerBootId
  ps_fenced_worker_boot :: WorkerBootId
  ps_lifecycle :: LifecycleState
  ps_request_id :: PreemptionRequestId
  ps_request_generation :: PreemptionRequestGeneration
  ps_quiesced :: bool
  ps_quiescence_generation :: QuiescenceGeneration
  ps_state_durable :: bool
  ps_state_capture_generation :: StateCaptureGeneration
  ps_checkpoint_ref :: CheckpointRef
  ps_checkpoint_generation :: CheckpointGeneration
  ps_resources_released :: bool
  ps_release_generation :: ReleaseGeneration
  ps_preempted :: bool
  ps_resume_generation :: ResumeGeneration
  ps_durable_progress :: u64
  ps_progress_generation :: ProgressGeneration
  ps_safe_points :: "PersistentSafePoint list"
  ps_release_receipts :: "PersistentReleaseReceipt list"
  ps_history :: "PersistentSuperseded list"

definition default_PersistentState :: PersistentState where
  "default_PersistentState =
     \<lparr>ps_format_version = 0, ps_coordinator_epoch = gen_default, ps_policy_generation = gen_default,
      ps_workload_id = id_default, ps_workload_generation = gen_default, ps_execution_id = id_default,
      ps_execution_generation = gen_default, ps_attempt_id = id_default, ps_attempt_generation = gen_default,
      ps_worker_id = id_default, ps_worker_boot_id = id_default, ps_fenced_worker_boot = id_default,
      ps_lifecycle = LifecycleState.kInvalid, ps_request_id = id_default, ps_request_generation = gen_default,
      ps_quiesced = False, ps_quiescence_generation = gen_default, ps_state_durable = False,
      ps_state_capture_generation = gen_default, ps_checkpoint_ref = id_default,
      ps_checkpoint_generation = gen_default, ps_resources_released = False,
      ps_release_generation = gen_default, ps_preempted = False, ps_resume_generation = gen_default,
      ps_durable_progress = 0, ps_progress_generation = gen_default, ps_safe_points = [],
      ps_release_receipts = [], ps_history = []\<rparr>"

section \<open>store.hpp\<close>

datatype PersistenceError =
    kOk | kBadMagic | kBadVersion | kTruncated | kChecksum | kInvalidEnum | kMalformedLength
  | kTrailingGarbage | kDuplicateId | kGenerationRegression | kMultipleAuthoritative
  | kIllegalLifecycle | kReleaseBeforeQuiescence | kResumeBeforePreempted | kBrokenCheckpoint
  | kInvalidResourceObligation | kMalformedProgress | kIntegerOverflow

fun PersistenceError_to_string :: "PersistenceError \<Rightarrow> string" where
  "PersistenceError_to_string PersistenceError.kOk = ''OK''"
| "PersistenceError_to_string PersistenceError.kBadMagic = ''BAD_MAGIC''"
| "PersistenceError_to_string PersistenceError.kBadVersion = ''BAD_VERSION''"
| "PersistenceError_to_string PersistenceError.kTruncated = ''TRUNCATED''"
| "PersistenceError_to_string PersistenceError.kChecksum = ''CHECKSUM''"
| "PersistenceError_to_string PersistenceError.kInvalidEnum = ''INVALID_ENUM''"
| "PersistenceError_to_string PersistenceError.kMalformedLength = ''MALFORMED_LENGTH''"
| "PersistenceError_to_string PersistenceError.kTrailingGarbage = ''TRAILING_GARBAGE''"
| "PersistenceError_to_string PersistenceError.kDuplicateId = ''DUPLICATE_ID''"
| "PersistenceError_to_string PersistenceError.kGenerationRegression = ''GENERATION_REGRESSION''"
| "PersistenceError_to_string PersistenceError.kMultipleAuthoritative = ''MULTIPLE_AUTHORITATIVE''"
| "PersistenceError_to_string PersistenceError.kIllegalLifecycle = ''ILLEGAL_LIFECYCLE''"
| "PersistenceError_to_string PersistenceError.kReleaseBeforeQuiescence = ''RELEASE_BEFORE_QUIESCENCE''"
| "PersistenceError_to_string PersistenceError.kResumeBeforePreempted = ''RESUME_BEFORE_PREEMPTED''"
| "PersistenceError_to_string PersistenceError.kBrokenCheckpoint = ''BROKEN_CHECKPOINT''"
| "PersistenceError_to_string PersistenceError.kInvalidResourceObligation = ''INVALID_RESOURCE_OBLIGATION''"
| "PersistenceError_to_string PersistenceError.kMalformedProgress = ''MALFORMED_PROGRESS''"
| "PersistenceError_to_string PersistenceError.kIntegerOverflow = ''INTEGER_OVERFLOW''"

lemma PersistenceError_to_string_inject: "PersistenceError_to_string e = PersistenceError_to_string e' \<longleftrightarrow> e = e'"
  by (cases e; cases e'; simp)

abbreviation PF_PERSISTENCE_VERSION :: u32 where
  "PF_PERSISTENCE_VERSION \<equiv> 1"

section \<open>Validation (store.cpp)\<close>

definition persist_magic :: "byte list" where
  "persist_magic = [0x50, 0x46, 0x53, 0x42]"

definition persist_header_size :: nat where
  "persist_header_size = 4 + 4 + 4"

definition persist_trailer_size :: nat where
  "persist_trailer_size = 4"

definition is_known_lifecycle :: "LifecycleState \<Rightarrow> bool" where
  "is_known_lifecycle s \<longleftrightarrow> s = LifecycleState.kInvalid \<or> LifecycleState_to_string s \<noteq> ''<unknown>''"

definition is_known_resource :: "ResourceClass \<Rightarrow> bool" where
  "is_known_resource r \<longleftrightarrow> ResourceClass_to_string r \<noteq> ''<unknown>''"

definition is_known_safepoint_state :: "SafePointState \<Rightarrow> bool" where
  "is_known_safepoint_state s \<longleftrightarrow> SafePointState_to_string s \<noteq> ''<unknown>'' \<and> s \<noteq> SafePointState.kUnset"

definition is_on_main_path :: "LifecycleState \<Rightarrow> bool" where
  "is_on_main_path s \<longleftrightarrow> s \<in> {LifecycleState.kRequested, LifecycleState.kValidatingAuthority,
     LifecycleState.kAssessing, LifecycleState.kDeferred, LifecycleState.kWaitingForSafePoint,
     LifecycleState.kSafePointReached, LifecycleState.kQuiescing, LifecycleState.kQuiesced,
     LifecycleState.kCaptureRequired, LifecycleState.kCapturingState, LifecycleState.kStateDurable,
     LifecycleState.kReleasePending, LifecycleState.kReleasing, LifecycleState.kResourcesReleased,
     LifecycleState.kPreempted, LifecycleState.kResumePending, LifecycleState.kRevalidating,
     LifecycleState.kRestoring, LifecycleState.kResumeReady, LifecycleState.kResuming,
     LifecycleState.kResumed}"

definition is_release_reached :: "LifecycleState \<Rightarrow> bool" where
  "is_release_reached s \<longleftrightarrow> s \<in> {LifecycleState.kReleasePending, LifecycleState.kReleasing,
     LifecycleState.kResourcesReleased, LifecycleState.kPreempted, LifecycleState.kResumePending,
     LifecycleState.kRevalidating, LifecycleState.kRestoring, LifecycleState.kResumeReady,
     LifecycleState.kResuming, LifecycleState.kResumed}"

definition is_resume_reached :: "LifecycleState \<Rightarrow> bool" where
  "is_resume_reached s \<longleftrightarrow> s \<in> {LifecycleState.kResumePending, LifecycleState.kRevalidating,
     LifecycleState.kRestoring, LifecycleState.kResumeReady, LifecycleState.kResuming,
     LifecycleState.kResumed}"

text \<open>The three loops of \<^verbatim>\<open>validate_state\<close>; \<open>seen\<close> is the set \<^verbatim>\<open>seen_ids\<close>.\<close>

fun validate_safe_points :: "u64 list \<Rightarrow> PersistentSafePoint list \<Rightarrow> PersistenceError" where
  "validate_safe_points seen [] = PersistenceError.kOk"
| "validate_safe_points seen (sp # sps) =
     (if \<not> id_is_valid (psp_id sp) then PersistenceError.kDuplicateId
      else if id_value (psp_id sp) \<in> set seen then PersistenceError.kDuplicateId
      else if \<not> is_known_safepoint_state (psp_state sp) then PersistenceError.kInvalidEnum
      else validate_safe_points (id_value (psp_id sp) # seen) sps)"

fun validate_receipts :: "PersistentReleaseReceipt list \<Rightarrow> PersistenceError" where
  "validate_receipts [] = PersistenceError.kOk"
| "validate_receipts (r # rs) =
     (if \<not> is_known_resource (prr_resource r) then PersistenceError.kInvalidEnum
      else if \<not> gen_is_valid (prr_contract_generation r) \<or> \<not> gen_is_valid (prr_release_generation r)
        then PersistenceError.kInvalidResourceObligation
      else if prr_units r = 0 then PersistenceError.kInvalidResourceObligation
      else validate_receipts rs)"

fun validate_history :: "PersistentSuperseded list \<Rightarrow> PersistenceError" where
  "validate_history [] = PersistenceError.kOk"
| "validate_history (h # hs) =
     (if \<not> is_known_lifecycle (psu_final_state h) then PersistenceError.kInvalidEnum else validate_history hs)"

definition validate_state :: "PersistentState \<Rightarrow> PersistenceError" where
  "validate_state s =
     (if ps_format_version s \<noteq> PF_PERSISTENCE_VERSION then PersistenceError.kBadVersion
      else if \<not> is_known_lifecycle (ps_lifecycle s) then PersistenceError.kInvalidEnum
      else if is_on_main_path (ps_lifecycle s) \<and> is_release_reached (ps_lifecycle s) \<and> \<not> ps_quiesced s
        then PersistenceError.kReleaseBeforeQuiescence
      else if is_on_main_path (ps_lifecycle s) \<and> is_release_reached (ps_lifecycle s) \<and> \<not> ps_state_durable s
        then PersistenceError.kReleaseBeforeQuiescence
      else if is_on_main_path (ps_lifecycle s) \<and> is_release_reached (ps_lifecycle s) \<and> \<not> ps_resources_released s
        then PersistenceError.kReleaseBeforeQuiescence
      else if is_on_main_path (ps_lifecycle s) \<and> is_resume_reached (ps_lifecycle s) \<and> \<not> ps_preempted s
        then PersistenceError.kResumeBeforePreempted
      else if ps_preempted s \<and> \<not> ps_state_durable s then PersistenceError.kReleaseBeforeQuiescence
      else if ps_state_durable s \<and>
              \<not> (id_is_valid (ps_checkpoint_ref s) \<and> gen_is_valid (ps_checkpoint_generation s))
        then PersistenceError.kBrokenCheckpoint
      else case validate_safe_points [] (ps_safe_points s) of
             PersistenceError.kOk \<Rightarrow>
               (case validate_receipts (ps_release_receipts s) of
                  PersistenceError.kOk \<Rightarrow> validate_history (ps_history s)
                | e \<Rightarrow> e)
           | e \<Rightarrow> e)"

section \<open>Encoding\<close>

definition bool_u8 :: "bool \<Rightarrow> u8" where
  "bool_u8 b = (if b then 1 else 0)"

definition encode_safe_point :: "PersistentSafePoint \<Rightarrow> ByteWriter \<Rightarrow> ByteWriter" where
  "encode_safe_point sp w =
     (let w = bw_u64 (id_value (psp_id sp)) w;
          w = bw_u64 (gen_value (psp_generation sp)) w;
          w = bw_u64 (id_value (psp_execution_id sp)) w;
          w = bw_u64 (id_value (psp_attempt_id sp)) w;
          w = bw_u64 (id_value (psp_worker_id sp)) w;
          w = bw_u64 (id_value (psp_worker_boot_id sp)) w;
          w = bw_u64 (psp_progress_position sp) w;
          w = bw_u8 (bool_u8 (psp_state_capture_required sp)) w;
          w = bw_u8 (bool_u8 (psp_checkpoint_required sp)) w;
          w = bw_u32 (enum_u32 SafePointState_values (psp_state sp)) w;
          w = bw_u64 (psp_order sp) w
      in w)"

definition encode_receipt :: "PersistentReleaseReceipt \<Rightarrow> ByteWriter \<Rightarrow> ByteWriter" where
  "encode_receipt r w =
     (let w = bw_u32 (enum_u32 ResourceClass_values (prr_resource r)) w;
          w = bw_u64 (prr_units r) w;
          w = bw_u64 (id_value (prr_contract_id r)) w;
          w = bw_u64 (gen_value (prr_contract_generation r)) w;
          w = bw_u64 (gen_value (prr_release_generation r)) w;
          w = bw_u64 (id_value (prr_worker_boot_id r)) w
      in w)"

definition encode_superseded :: "PersistentSuperseded \<Rightarrow> ByteWriter \<Rightarrow> ByteWriter" where
  "encode_superseded h w =
     (let w = bw_u64 (id_value (psu_request_id h)) w;
          w = bw_u64 (gen_value (psu_generation h)) w;
          w = bw_u32 (enum_u32 LifecycleState_values (psu_final_state h)) w
      in w)"

definition encode_scalars :: "PersistentState \<Rightarrow> ByteWriter \<Rightarrow> ByteWriter" where
  "encode_scalars s w =
     (let w = bw_u32 PF_PERSISTENCE_VERSION w;
          w = bw_u64 (gen_value (ps_coordinator_epoch s)) w;
          w = bw_u64 (gen_value (ps_policy_generation s)) w;
          w = bw_u64 (id_value (ps_workload_id s)) w;
          w = bw_u64 (gen_value (ps_workload_generation s)) w;
          w = bw_u64 (id_value (ps_execution_id s)) w;
          w = bw_u64 (gen_value (ps_execution_generation s)) w;
          w = bw_u64 (id_value (ps_attempt_id s)) w;
          w = bw_u64 (gen_value (ps_attempt_generation s)) w;
          w = bw_u64 (id_value (ps_worker_id s)) w;
          w = bw_u64 (id_value (ps_worker_boot_id s)) w;
          w = bw_u64 (id_value (ps_fenced_worker_boot s)) w;
          w = bw_u32 (enum_u32 LifecycleState_values (ps_lifecycle s)) w;
          w = bw_u64 (id_value (ps_request_id s)) w;
          w = bw_u64 (gen_value (ps_request_generation s)) w;
          w = bw_u8 (bool_u8 (ps_quiesced s)) w;
          w = bw_u64 (gen_value (ps_quiescence_generation s)) w;
          w = bw_u8 (bool_u8 (ps_state_durable s)) w;
          w = bw_u64 (gen_value (ps_state_capture_generation s)) w;
          w = bw_u64 (id_value (ps_checkpoint_ref s)) w;
          w = bw_u64 (gen_value (ps_checkpoint_generation s)) w;
          w = bw_u8 (bool_u8 (ps_resources_released s)) w;
          w = bw_u64 (gen_value (ps_release_generation s)) w;
          w = bw_u8 (bool_u8 (ps_preempted s)) w;
          w = bw_u64 (gen_value (ps_resume_generation s)) w;
          w = bw_u64 (ps_durable_progress s) w;
          w = bw_u64 (gen_value (ps_progress_generation s)) w
      in w)"

text \<open>The framing of the finished body: magic, version, length and checksum.\<close>

definition seal_image :: "byte list \<Rightarrow> byte list" where
  "seal_image payload =
     (let out = persist_magic;
          out = out @ bw_u32 PF_PERSISTENCE_VERSION [];
          out = out @ bw_u32 (word_of_nat (length payload)) [];
          out = out @ payload;
          crc = crc32 out
      in out @ bw_u32 crc [])"

definition encode :: "PersistentState \<Rightarrow> byte list" where
  "encode s =
     (let body = encode_scalars s [] in
      if \<not> fits_u32 (word_of_nat (length (ps_safe_points s))) then []
      else let body = bw_u32 (word_of_nat (length (ps_safe_points s))) body;
               body = foldl (\<lambda>w sp. encode_safe_point sp w) body (ps_safe_points s) in
      if \<not> fits_u32 (word_of_nat (length (ps_release_receipts s))) then []
      else let body = bw_u32 (word_of_nat (length (ps_release_receipts s))) body;
               body = foldl (\<lambda>w r. encode_receipt r w) body (ps_release_receipts s) in
      if \<not> fits_u32 (word_of_nat (length (ps_history s))) then []
      else let body = bw_u32 (word_of_nat (length (ps_history s))) body;
               body = foldl (\<lambda>w h. encode_superseded h w) body (ps_history s)
      in seal_image body)"

section \<open>Decoding\<close>

type_synonym read_state = "bool \<times> ByteReader"

definition read_u64 :: "read_state \<Rightarrow> u64 \<times> read_state" where
  "read_u64 st = (case br_u64 (snd st) of None \<Rightarrow> (0, (False, snd st)) | Some (v, r) \<Rightarrow> (v, (fst st, r)))"

definition read_u32 :: "read_state \<Rightarrow> u32 \<times> read_state" where
  "read_u32 st = (case br_u32 (snd st) of None \<Rightarrow> (0, (False, snd st)) | Some (v, r) \<Rightarrow> (v, (fst st, r)))"

definition read_u8 :: "read_state \<Rightarrow> u8 \<times> read_state" where
  "read_u8 st = (case br_u8 (snd st) of None \<Rightarrow> (0, (False, snd st)) | Some (v, r) \<Rightarrow> (v, (fst st, r)))"

definition decode_safe_point :: "read_state \<Rightarrow> PersistenceError + (PersistentSafePoint \<times> read_state)" where
  "decode_safe_point st =
     (let (i, st) = read_u64 st;
          (g, st) = read_u64 st;
          (ex, st) = read_u64 st;
          (att, st) = read_u64 st;
          (wk, st) = read_u64 st;
          (boot, st) = read_u64 st;
          (pos, st) = read_u64 st;
          (cap, st) = read_u8 st;
          (chk, st) = read_u8 st;
          (e, st) = read_u32 st
      in case enum_cast SafePointState_values e of
           None \<Rightarrow> Inl PersistenceError.kInvalidEnum
         | Some state \<Rightarrow>
             let (ord, st) = read_u64 st
             in Inr (\<lparr>psp_id = IdV i, psp_generation = GenV g, psp_execution_id = IdV ex,
                      psp_attempt_id = IdV att, psp_worker_id = IdV wk, psp_worker_boot_id = IdV boot,
                      psp_progress_position = pos, psp_state_capture_required = (cap \<noteq> 0),
                      psp_checkpoint_required = (chk \<noteq> 0), psp_state = state, psp_order = ord\<rparr>, st))"

definition decode_receipt :: "read_state \<Rightarrow> PersistenceError + (PersistentReleaseReceipt \<times> read_state)" where
  "decode_receipt st =
     (let (e, st) = read_u32 st
      in case enum_cast ResourceClass_values e of
           None \<Rightarrow> Inl PersistenceError.kInvalidEnum
         | Some resource \<Rightarrow>
             let (units, st) = read_u64 st;
                 (cid, st) = read_u64 st;
                 (cg, st) = read_u64 st;
                 (rg, st) = read_u64 st;
                 (boot, st) = read_u64 st
             in Inr (\<lparr>prr_resource = resource, prr_units = units, prr_contract_id = IdV cid,
                      prr_contract_generation = GenV cg, prr_release_generation = GenV rg,
                      prr_worker_boot_id = IdV boot\<rparr>, st))"

definition decode_superseded :: "read_state \<Rightarrow> PersistenceError + (PersistentSuperseded \<times> read_state)" where
  "decode_superseded st =
     (let (i, st) = read_u64 st;
          (g, st) = read_u64 st;
          (e, st) = read_u32 st
      in case enum_cast LifecycleState_values e of
           None \<Rightarrow> Inl PersistenceError.kInvalidEnum
         | Some fs \<Rightarrow> Inr (\<lparr>psu_request_id = IdV i, psu_generation = GenV g, psu_final_state = fs\<rparr>, st))"

text \<open>The counted loops \<^verbatim>\<open>for (i = 0; ok && i < count; ++i)\<close>.\<close>

fun decode_loop ::
  "(read_state \<Rightarrow> PersistenceError + ('x \<times> read_state)) \<Rightarrow> nat \<Rightarrow> read_state
     \<Rightarrow> PersistenceError + ('x list \<times> read_state)" where
  "decode_loop f 0 st = Inr ([], st)"
| "decode_loop f (Suc n) st =
     (if \<not> fst st then Inr ([], st)
      else case f st of
             Inl e \<Rightarrow> Inl e
           | Inr (x, st) \<Rightarrow>
               (case decode_loop f n st of Inl e \<Rightarrow> Inl e | Inr (xs, st) \<Rightarrow> Inr (x # xs, st)))"

definition decode_scalars :: "read_state \<Rightarrow> PersistenceError + (PersistentState \<times> read_state)" where
  "decode_scalars st =
     (let (ver, st) = read_u32 st;
          (epoch, st) = read_u64 st;
          (pol, st) = read_u64 st;
          (wl, st) = read_u64 st;
          (wlg, st) = read_u64 st;
          (ex, st) = read_u64 st;
          (exg, st) = read_u64 st;
          (att, st) = read_u64 st;
          (attg, st) = read_u64 st;
          (wk, st) = read_u64 st;
          (boot, st) = read_u64 st;
          (fenced, st) = read_u64 st;
          (e, st) = read_u32 st
      in case enum_cast LifecycleState_values e of
           None \<Rightarrow> Inl PersistenceError.kInvalidEnum
         | Some lc \<Rightarrow>
             let (rid, st) = read_u64 st;
                 (rgen, st) = read_u64 st;
                 (q, st) = read_u8 st;
                 (qg, st) = read_u64 st;
                 (d, st) = read_u8 st;
                 (cg, st) = read_u64 st;
                 (cref, st) = read_u64 st;
                 (ckg, st) = read_u64 st;
                 (rel, st) = read_u8 st;
                 (relg, st) = read_u64 st;
                 (pre, st) = read_u8 st;
                 (resg, st) = read_u64 st;
                 (dp, st) = read_u64 st;
                 (pg, st) = read_u64 st
             in Inr (\<lparr>ps_format_version = ver, ps_coordinator_epoch = GenV epoch, ps_policy_generation = GenV pol,
                      ps_workload_id = IdV wl, ps_workload_generation = GenV wlg, ps_execution_id = IdV ex,
                      ps_execution_generation = GenV exg, ps_attempt_id = IdV att, ps_attempt_generation = GenV attg,
                      ps_worker_id = IdV wk, ps_worker_boot_id = IdV boot, ps_fenced_worker_boot = IdV fenced,
                      ps_lifecycle = lc, ps_request_id = IdV rid, ps_request_generation = GenV rgen,
                      ps_quiesced = (q \<noteq> 0), ps_quiescence_generation = GenV qg, ps_state_durable = (d \<noteq> 0),
                      ps_state_capture_generation = GenV cg, ps_checkpoint_ref = IdV cref,
                      ps_checkpoint_generation = GenV ckg, ps_resources_released = (rel \<noteq> 0),
                      ps_release_generation = GenV relg, ps_preempted = (pre \<noteq> 0),
                      ps_resume_generation = GenV resg, ps_durable_progress = dp,
                      ps_progress_generation = GenV pg, ps_safe_points = [], ps_release_receipts = [],
                      ps_history = []\<rparr>, st))"

definition decode_payload :: "byte list \<Rightarrow> PersistenceError + PersistentState" where
  "decode_payload payload =
     (case decode_scalars (True, byte_reader payload) of
        Inl e \<Rightarrow> Inl e
      | Inr (s, st) \<Rightarrow>
          let (sp_count, st) = read_u32 st in
          (case decode_loop decode_safe_point (unat sp_count) st of
             Inl e \<Rightarrow> Inl e
           | Inr (sps, st) \<Rightarrow>
               if \<not> fst st then Inl PersistenceError.kTruncated
               else let (rr_count, st) = read_u32 st in
               (case decode_loop decode_receipt (unat rr_count) st of
                  Inl e \<Rightarrow> Inl e
                | Inr (rrs, st) \<Rightarrow>
                    if \<not> fst st then Inl PersistenceError.kTruncated
                    else let (hist_count, st) = read_u32 st in
                    (case decode_loop decode_superseded (unat hist_count) st of
                       Inl e \<Rightarrow> Inl e
                     | Inr (hs, st) \<Rightarrow>
                         if \<not> fst st then Inl PersistenceError.kTruncated
                         else if \<not> br_at_end (snd st) then Inl PersistenceError.kTrailingGarbage
                         else let s = s\<lparr>ps_safe_points := sps, ps_release_receipts := rrs, ps_history := hs\<rparr>;
                                  verr = validate_state s
                              in if verr \<noteq> PersistenceError.kOk then Inl verr else Inr s))))"

definition read_le32 :: "byte list \<Rightarrow> u32 option" where
  "read_le32 d = map_option fst (br_u32 (byte_reader d))"

definition decode :: "byte list \<Rightarrow> PersistenceError + PersistentState" where
  "decode bytes =
     (if length bytes < persist_header_size + persist_trailer_size then Inl PersistenceError.kTruncated
      else if take 4 bytes \<noteq> persist_magic then Inl PersistenceError.kBadMagic
      else case read_le32 (take 4 (drop 4 bytes)) of
             None \<Rightarrow> Inl PersistenceError.kTruncated
           | Some version \<Rightarrow>
      (case read_le32 (take 4 (drop 8 bytes)) of
             None \<Rightarrow> Inl PersistenceError.kTruncated
           | Some payload_len \<Rightarrow>
      if version \<noteq> PF_PERSISTENCE_VERSION then Inl PersistenceError.kBadVersion
      else let expected_total = persist_header_size + unat payload_len + persist_trailer_size in
      if expected_total \<noteq> length bytes then Inl PersistenceError.kTruncated
      else let payload = take (unat payload_len) (drop persist_header_size bytes) in
      (case read_le32 (take persist_trailer_size (drop (expected_total - persist_trailer_size) bytes)) of
             None \<Rightarrow> Inl PersistenceError.kTruncated
           | Some stored_crc \<Rightarrow>
      let computed = crc32 (take (expected_total - persist_trailer_size) bytes) in
      if computed \<noteq> stored_crc then Inl PersistenceError.kChecksum
      else decode_payload payload)))"

section \<open>Round trip of the fields\<close>

lemma bool_u8_nz [simp]: "bool_u8 b \<noteq> 0 \<longleftrightarrow> b"
  by (simp add: bool_u8_def)

lemma read_u64_enc [simp, codec_rt]:
  "read_u64 (True, reader_at pre (u64_le v @ suf)) = (v, (True, reader_at (pre @ u64_le v) suf))"
  by (simp add: read_u64_def br_u64_enc)

lemma read_u32_enc [simp, codec_rt]:
  "read_u32 (True, reader_at pre (u32_le v @ suf)) = (v, (True, reader_at (pre @ u32_le v) suf))"
  by (simp add: read_u32_def br_u32_enc)

lemma read_u8_enc [simp, codec_rt]:
  "read_u8 (True, reader_at pre (u8_le v @ suf)) = (v, (True, reader_at (pre @ u8_le v) suf))"
  by (simp add: read_u8_def br_u8_enc)

lemmas writer_defs = bw_u8_def bw_u16_def bw_u32_def bw_u64_def Let_def

section \<open>Round trip of the repeated sections\<close>

text \<open>The contract of an element of a counted section, and the loop over it, proved once.\<close>

locale element_codec =
  fixes put :: "'x \<Rightarrow> ByteWriter \<Rightarrow> ByteWriter"
    and get :: "read_state \<Rightarrow> PersistenceError + ('x \<times> read_state)"
  assumes write_append: "put x w = w @ put x []"
    and read_write: "get (True, reader_at pre (put x [] @ suf)) = Inr (x, (True, reader_at (pre @ put x []) suf))"
begin

lemma write_list: "foldl (\<lambda>w x. put x w) w xs = w @ concat (map (\<lambda>x. put x []) xs)"
proof (induction xs arbitrary: w)
  case (Cons x xs)
  then show ?case using write_append [of x w] by simp
qed simp

lemma read_list:
  "decode_loop get (length xs) (True, reader_at pre (concat (map (\<lambda>x. put x []) xs) @ suf))
     = Inr (xs, (True, reader_at (pre @ concat (map (\<lambda>x. put x []) xs)) suf))"
proof (induction xs arbitrary: pre)
  case (Cons x xs)
  then show ?case by (simp add: read_write)
qed simp

end

interpretation sp_codec: element_codec encode_safe_point decode_safe_point
proof
  fix x w show "encode_safe_point x w = w @ encode_safe_point x []"
    by (simp add: encode_safe_point_def writer_defs)
next
  fix pre x suf
  show "decode_safe_point (True, reader_at pre (encode_safe_point x [] @ suf))
          = Inr (x, (True, reader_at (pre @ encode_safe_point x []) suf))"
    by (simp add: encode_safe_point_def decode_safe_point_def writer_defs spstate_wire.cast_u32)
qed

interpretation rr_codec: element_codec encode_receipt decode_receipt
proof
  fix x w show "encode_receipt x w = w @ encode_receipt x []"
    by (simp add: encode_receipt_def writer_defs)
next
  fix pre x suf
  show "decode_receipt (True, reader_at pre (encode_receipt x [] @ suf))
          = Inr (x, (True, reader_at (pre @ encode_receipt x []) suf))"
    by (simp add: encode_receipt_def decode_receipt_def writer_defs resource_wire.cast_u32)
qed

interpretation hist_codec: element_codec encode_superseded decode_superseded
proof
  fix x w show "encode_superseded x w = w @ encode_superseded x []"
    by (simp add: encode_superseded_def writer_defs)
next
  fix pre x suf
  show "decode_superseded (True, reader_at pre (encode_superseded x [] @ suf))
          = Inr (x, (True, reader_at (pre @ encode_superseded x []) suf))"
    by (simp add: encode_superseded_def decode_superseded_def writer_defs lifecycle_wire.cast_u32)
qed

section \<open>Round trip of the payload\<close>

definition stored_scalars :: "PersistentState \<Rightarrow> PersistentState" where
  "stored_scalars s = s\<lparr>ps_format_version := PF_PERSISTENCE_VERSION, ps_safe_points := [],
     ps_release_receipts := [], ps_history := []\<rparr>"

lemma encode_scalars_append: "encode_scalars s w = w @ encode_scalars s []"
  by (simp add: encode_scalars_def writer_defs)

lemma decode_scalars_enc:
  "decode_scalars (True, reader_at pre (encode_scalars s [] @ suf))
     = Inr (stored_scalars s, (True, reader_at (pre @ encode_scalars s []) suf))"
  by (cases s)
    (simp add: encode_scalars_def decode_scalars_def stored_scalars_def writer_defs lifecycle_wire.cast_u32)

definition payload_bytes :: "PersistentState \<Rightarrow> byte list" where
  "payload_bytes s = encode_scalars s []
     @ u32_le (word_of_nat (length (ps_safe_points s))) @ concat (map (\<lambda>x. encode_safe_point x []) (ps_safe_points s))
     @ u32_le (word_of_nat (length (ps_release_receipts s))) @ concat (map (\<lambda>x. encode_receipt x []) (ps_release_receipts s))
     @ u32_le (word_of_nat (length (ps_history s))) @ concat (map (\<lambda>x. encode_superseded x []) (ps_history s))"

definition storable :: "PersistentState \<Rightarrow> bool" where
  "storable s \<longleftrightarrow> length (ps_safe_points s) < 2 ^ 32 \<and> length (ps_release_receipts s) < 2 ^ 32 \<and>
     length (ps_history s) < 2 ^ 32 \<and> length (payload_bytes s) < 2 ^ 32"

lemma encode_eq_seal: "storable s \<Longrightarrow> encode s = seal_image (payload_bytes s)"
  by (simp add: encode_def Let_def storable_def payload_bytes_def fits_u32_of_length bw_u32_def
      sp_codec.write_list rr_codec.write_list hist_codec.write_list)

lemma unat_count: "n < 2 ^ 32 \<Longrightarrow> unat (word_of_nat n :: u32) = n"
  by (simp add: unat_of_nat)

text \<open>What decoding the payload of a state gives: the verdict of the validation, then the state.\<close>

definition verdict :: "PersistentState \<Rightarrow> PersistenceError + PersistentState" where
  "verdict s = (if validate_state s \<noteq> PersistenceError.kOk then Inl (validate_state s) else Inr s)"

lemma decode_payload_enc:
  assumes "storable s"
  shows "decode_payload (payload_bytes s) = verdict (s\<lparr>ps_format_version := PF_PERSISTENCE_VERSION\<rparr>)"
proof -
  have counts: "unat (word_of_nat (length (ps_safe_points s)) :: u32) = length (ps_safe_points s)"
    "unat (word_of_nat (length (ps_release_receipts s)) :: u32) = length (ps_release_receipts s)"
    "unat (word_of_nat (length (ps_history s)) :: u32) = length (ps_history s)"
    using assms by (simp_all add: storable_def unat_count)
  have whole: "(stored_scalars s)\<lparr>ps_safe_points := ps_safe_points s,
      ps_release_receipts := ps_release_receipts s, ps_history := ps_history s\<rparr>
      = s\<lparr>ps_format_version := PF_PERSISTENCE_VERSION\<rparr>"
    by (simp add: stored_scalars_def)
  note hist_end = hist_codec.read_list [where suf = "[]", simplified]
  show ?thesis
    unfolding decode_payload_def payload_bytes_def byte_reader_at
    by (simp add: decode_scalars_enc sp_codec.read_list rr_codec.read_list hist_end counts Let_def whole
        verdict_def del: append_assoc)
qed

section \<open>The sealed image\<close>

lemma seal_image_eq:
  "seal_image p = (let h = persist_magic @ u32_le PF_PERSISTENCE_VERSION @ u32_le (word_of_nat (length p)) @ p
                   in h @ u32_le (crc32 h))"
  by (simp add: seal_image_def bw_u32_def Let_def)

lemma persist_magic_len [simp]: "length persist_magic = 4"
  by (simp add: persist_magic_def)

lemma seal_image_length [simp]: "length (seal_image p) = 16 + length p"
  by (simp add: seal_image_eq Let_def)

lemma read_le32_enc [simp]: "read_le32 (u32_le v) = Some v"
  using u32c.dec_enc_end [of v] by (simp add: read_le32_def)

lemma read_le32_octets: "length d = 4 \<Longrightarrow> \<exists>v. read_le32 d = Some v \<and> u32_le v = d"
  using br_u32_octets [of d] by (auto simp: read_le32_def)

lemma read_le32_inject: "length d = 4 \<Longrightarrow> length d' = 4 \<Longrightarrow> read_le32 d = read_le32 d' \<Longrightarrow> d = d'"
  using read_le32_octets [of d] read_le32_octets [of d'] by auto

lemma seal_image_header:
  assumes "12 \<le> n"
  shows "take 4 (take n (seal_image p @ x)) = persist_magic"
    "take 4 (drop 4 (take n (seal_image p @ x))) = u32_le PF_PERSISTENCE_VERSION"
    "take 4 (drop 8 (take n (seal_image p @ x))) = u32_le (word_of_nat (length p))"
  using assms by (simp_all add: seal_image_eq Let_def take_drop min_def)

lemma seal_image_sections:
  "take (length p) (drop 12 (seal_image p)) = p"
  "take (12 + length p) (seal_image p @ x)
     = persist_magic @ u32_le PF_PERSISTENCE_VERSION @ u32_le (word_of_nat (length p)) @ p"
  "take 4 (drop (12 + length p) (seal_image p))
     = u32_le (crc32 (persist_magic @ u32_le PF_PERSISTENCE_VERSION @ u32_le (word_of_nat (length p)) @ p))"
  by (simp_all add: seal_image_eq Let_def)

lemma decode_seal:
  assumes "length p < 2 ^ 32"
  shows "decode (seal_image p) = decode_payload p"
proof -
  note h = seal_image_header [of "16 + length p" p "[]", simplified]
  note c = seal_image_sections(1,3) [of p] seal_image_sections(2) [of p "[]", simplified]
  show ?thesis using assms
    by (simp add: decode_def h c Let_def persist_header_size_def persist_trailer_size_def unat_count)
qed

text \<open>Cutting an image short or appending to it is noticed before the payload is looked at.\<close>

lemma decode_seal_resized:
  assumes "length p < 2 ^ 32" "n \<le> 16 + length p + length x" "n \<noteq> 16 + length p"
  shows "decode (take n (seal_image p @ x)) = Inl PersistenceError.kTruncated"
proof (cases "n < 16")
  case True
  then show ?thesis by (simp add: decode_def persist_header_size_def persist_trailer_size_def)
next
  case False
  define bs where "bs = take n (seal_image p @ x)"
  have "length bs = n" using assms(2) by (simp add: bs_def)
  moreover have "take 4 bs = persist_magic" "read_le32 (take 4 (drop 4 bs)) = Some PF_PERSISTENCE_VERSION"
    "read_le32 (take 4 (drop 8 bs)) = Some (word_of_nat (length p))"
    using seal_image_header [of n p x] False unfolding bs_def by simp_all
  ultimately have "decode bs = Inl PersistenceError.kTruncated" using assms False
    by (simp add: decode_def Let_def persist_header_size_def persist_trailer_size_def unat_count)
  then show ?thesis by (simp only: bs_def)
qed

text \<open>An accepted image carries the checksum of everything before its last four bytes.\<close>

lemma decode_accepted:
  assumes "decode d = Inr s"
  shows "16 \<le> length d" "read_le32 (drop (length d - 4) d) = Some (crc32 (take (length d - 4) d))"
    "\<exists>p. decode_payload p = Inr s"
  using assms
  by (auto simp: decode_def Let_def persist_header_size_def persist_trailer_size_def split: if_splits option.splits)

lemma accepted_codeword:
  assumes "decode d = Inr s"
  shows "crc32 (take (length d - 4) d) = le_word (drop (length d - 4) d)"
proof -
  note acc = decode_accepted [OF assms]
  have "length (drop (length d - 4) d) = 4" using acc(1) by simp
  then obtain v where "read_le32 (drop (length d - 4) d) = Some v" "u32_le v = drop (length d - 4) d"
    using read_le32_octets by blast
  then show ?thesis using acc(2) le_word_octets [of v] by (simp add: u32_le_def)
qed

lemma decode_burst:
  assumes "decode (pre @ mid @ suf) = Inr s" "length mid' = length mid" "length mid \<le> 4" "mid' \<noteq> mid"
  shows "\<exists>e. decode (pre @ mid' @ suf) = Inl e"
proof (cases "decode (pre @ mid' @ suf)")
  case (Inr s')
  let ?d = "pre @ mid @ suf" and ?d' = "pre @ mid' @ suf"
  have "16 \<le> length ?d" "16 \<le> length ?d'" using decode_accepted(1) [OF assms(1)] decode_accepted(1) [OF Inr] by simp_all
  then have "length (drop (length ?d - 4) ?d) = 4" "length (drop (length ?d' - 4) ?d') = 4" by simp_all
  from crc32_codeword_burst [OF accepted_codeword [OF assms(1)] accepted_codeword [OF Inr] this _ _ assms(2,3)]
  have "mid' = mid" by (metis append_take_drop_id)
  then show ?thesis using assms(4) by simp
qed simp

section \<open>What an accepted image guarantees\<close>

lemma decode_payload_valid: "decode_payload p = Inr s \<Longrightarrow> validate_state s = PersistenceError.kOk"
  by (auto simp: decode_payload_def Let_def split: sum.splits prod.splits if_splits)

lemma decode_valid: "decode d = Inr s \<Longrightarrow> validate_state s = PersistenceError.kOk"
  using decode_accepted(3) decode_payload_valid by blast

lemma validate_safe_points_ok:
  "validate_safe_points seen sps = PersistenceError.kOk \<longleftrightarrow>
     distinct (map (id_value \<circ> psp_id) sps) \<and>
     (\<forall>sp \<in> set sps. id_is_valid (psp_id sp) \<and> id_value (psp_id sp) \<notin> set seen \<and> is_known_safepoint_state (psp_state sp))"
  by (induction seen sps rule: validate_safe_points.induct) (auto simp: image_iff)

lemma validate_receipts_ok:
  "validate_receipts rs = PersistenceError.kOk \<longleftrightarrow>
     (\<forall>r \<in> set rs. is_known_resource (prr_resource r) \<and> gen_is_valid (prr_contract_generation r) \<and>
        gen_is_valid (prr_release_generation r) \<and> prr_units r \<noteq> 0)"
  by (induction rs rule: validate_receipts.induct) auto

lemma validate_history_ok:
  "validate_history hs = PersistenceError.kOk \<longleftrightarrow> (\<forall>h \<in> set hs. is_known_lifecycle (psu_final_state h))"
  by (induction hs rule: validate_history.induct) auto

lemma known_lifecycle [simp]: "is_known_lifecycle s"
  by (auto simp: is_known_lifecycle_def LifecycleState_to_string_def lifecycle_names.unknown_iff)

lemma known_resource [simp]: "is_known_resource r \<longleftrightarrow> r \<noteq> ResourceClass.kInvalid"
  by (simp add: is_known_resource_def ResourceClass_to_string_def resource_names.unknown_iff)

lemma known_safepoint_state [simp]: "is_known_safepoint_state s \<longleftrightarrow> s \<noteq> SafePointState.kUnset"
  by (simp add: is_known_safepoint_state_def SafePointState_to_string_def spstate_names.unknown_iff)

lemma release_reached_main [simp]: "is_release_reached s \<Longrightarrow> is_on_main_path s"
  by (auto simp: is_release_reached_def is_on_main_path_def)

lemma resume_reached_main [simp]: "is_resume_reached s \<Longrightarrow> is_on_main_path s"
  by (auto simp: is_resume_reached_def is_on_main_path_def)

text \<open>The images the validation lets through, as one predicate.\<close>

definition image_ok :: "PersistentState \<Rightarrow> bool" where
  "image_ok s \<longleftrightarrow>
     ps_format_version s = PF_PERSISTENCE_VERSION \<and>
     (is_release_reached (ps_lifecycle s) \<longrightarrow> ps_quiesced s \<and> ps_state_durable s \<and> ps_resources_released s) \<and>
     (is_resume_reached (ps_lifecycle s) \<longrightarrow> ps_preempted s) \<and>
     (ps_preempted s \<longrightarrow> ps_state_durable s) \<and>
     (ps_state_durable s \<longrightarrow> id_is_valid (ps_checkpoint_ref s) \<and> gen_is_valid (ps_checkpoint_generation s)) \<and>
     distinct (map (id_value \<circ> psp_id) (ps_safe_points s)) \<and>
     (\<forall>sp \<in> set (ps_safe_points s). id_is_valid (psp_id sp) \<and> psp_state sp \<noteq> SafePointState.kUnset) \<and>
     (\<forall>r \<in> set (ps_release_receipts s). prr_resource r \<noteq> ResourceClass.kInvalid \<and>
        gen_is_valid (prr_contract_generation r) \<and> gen_is_valid (prr_release_generation r) \<and> prr_units r \<noteq> 0)"

lemma lists_verdict:
  "(case validate_safe_points [] sps of
      PersistenceError.kOk \<Rightarrow> (case validate_receipts rs of PersistenceError.kOk \<Rightarrow> validate_history hs | e \<Rightarrow> e)
    | e \<Rightarrow> e) = PersistenceError.kOk \<longleftrightarrow>
   validate_safe_points [] sps = PersistenceError.kOk \<and> validate_receipts rs = PersistenceError.kOk \<and>
   validate_history hs = PersistenceError.kOk"
  by (auto split: PersistenceError.splits)

lemma validate_state_ok: "validate_state s = PersistenceError.kOk \<longleftrightarrow> image_ok s"
  unfolding validate_state_def image_ok_def
  by (auto simp: lists_verdict validate_safe_points_ok validate_receipts_ok validate_history_ok)

section \<open>The errors a decode can report\<close>

definition list_errors :: "PersistenceError set" where
  "list_errors = {PersistenceError.kOk, PersistenceError.kDuplicateId, PersistenceError.kInvalidEnum,
     PersistenceError.kInvalidResourceObligation}"

lemma validate_lists_range:
  "validate_safe_points seen sps \<in> list_errors" "validate_receipts rs \<in> list_errors" "validate_history hs \<in> list_errors"
proof -
  show "validate_safe_points seen sps \<in> list_errors"
    by (induction seen sps rule: validate_safe_points.induct) (auto simp: list_errors_def)
  show "validate_receipts rs \<in> list_errors"
    by (induction rs rule: validate_receipts.induct) (auto simp: list_errors_def)
  show "validate_history hs \<in> list_errors"
    by (induction hs rule: validate_history.induct) (auto simp: list_errors_def)
qed

definition state_errors :: "PersistenceError set" where
  "state_errors = list_errors \<union> {PersistenceError.kBadVersion, PersistenceError.kReleaseBeforeQuiescence,
     PersistenceError.kResumeBeforePreempted, PersistenceError.kBrokenCheckpoint}"

lemma validate_state_range: "validate_state s \<in> state_errors"
proof -
  have "(case validate_safe_points [] sps of
      PersistenceError.kOk \<Rightarrow> (case validate_receipts rs of PersistenceError.kOk \<Rightarrow> validate_history hs | e \<Rightarrow> e)
    | e \<Rightarrow> e) \<in> list_errors" for sps rs hs
    using validate_lists_range(1) [of "[]" sps] validate_lists_range(2) [of rs] validate_lists_range(3) [of hs]
    by (auto split: PersistenceError.splits)
  then show ?thesis unfolding validate_state_def state_errors_def by auto
qed

lemma decode_loop_error:
  assumes "\<And>st e. f st = Inl e \<Longrightarrow> e = PersistenceError.kInvalidEnum"
  shows "decode_loop f n st = Inl e \<Longrightarrow> e = PersistenceError.kInvalidEnum"
proof (induction n arbitrary: st)
  case (Suc n)
  then show ?case using assms by (auto split: if_splits sum.splits prod.splits)
qed simp

lemma decode_field_error:
  "decode_scalars st = Inl e \<Longrightarrow> e = PersistenceError.kInvalidEnum"
  "decode_safe_point st = Inl e \<Longrightarrow> e = PersistenceError.kInvalidEnum"
  "decode_receipt st = Inl e \<Longrightarrow> e = PersistenceError.kInvalidEnum"
  "decode_superseded st = Inl e \<Longrightarrow> e = PersistenceError.kInvalidEnum"
  by (auto simp: decode_scalars_def decode_safe_point_def decode_receipt_def decode_superseded_def Let_def
      split: prod.splits option.splits)

lemma decode_payload_error:
  assumes "decode_payload p = Inl e"
  shows "e \<in> {PersistenceError.kTruncated, PersistenceError.kTrailingGarbage} \<union> (state_errors - {PersistenceError.kOk})"
proof -
  have enum: "PersistenceError.kInvalidEnum \<in> state_errors" by (simp add: state_errors_def list_errors_def)
  have loops: "decode_loop decode_safe_point n st = Inl e \<Longrightarrow> e = PersistenceError.kInvalidEnum"
    "decode_loop decode_receipt n st = Inl e \<Longrightarrow> e = PersistenceError.kInvalidEnum"
    "decode_loop decode_superseded n st = Inl e \<Longrightarrow> e = PersistenceError.kInvalidEnum" for n st e
    by (erule decode_loop_error [rotated]; simp add: decode_field_error)+
  have "e = PersistenceError.kInvalidEnum \<or> e \<in> {PersistenceError.kTruncated, PersistenceError.kTrailingGarbage}
      \<or> (\<exists>s. e = validate_state s \<and> e \<noteq> PersistenceError.kOk)"
    using assms by (auto simp: decode_payload_def Let_def dest: decode_field_error(1) loops
        split: sum.splits prod.splits if_splits)
  then show ?thesis using enum validate_state_range by auto
qed

lemma decode_error:
  assumes "decode d = Inl e"
  shows "e \<in> {PersistenceError.kTruncated, PersistenceError.kTrailingGarbage, PersistenceError.kBadMagic,
      PersistenceError.kBadVersion, PersistenceError.kChecksum} \<union> (state_errors - {PersistenceError.kOk})"
  using assms decode_payload_error
  by (fastforce simp: decode_def Let_def split: option.splits if_splits)

section \<open>Sizes\<close>

lemma element_len:
  "length (encode_safe_point sp []) = 70" "length (encode_receipt r []) = 44" "length (encode_superseded h []) = 20"
  "length (encode_scalars s []) = 180"
  by (simp_all add: encode_safe_point_def encode_receipt_def encode_superseded_def encode_scalars_def writer_defs)

definition image_size :: "PersistentState \<Rightarrow> nat" where
  "image_size s = 208 + 70 * length (ps_safe_points s) + 44 * length (ps_release_receipts s) + 20 * length (ps_history s)"

lemma payload_length: "length (payload_bytes s) + 16 = image_size s"
  by (simp add: payload_bytes_def image_size_def length_concat o_def element_len sum_list_triv)

lemma storable_iff: "storable s \<longleftrightarrow> image_size s < 2 ^ 32 + 16"
  using payload_length [of s] by (auto simp: storable_def image_size_def)

section \<open>Properties\<close>

text \<open>
  C21: decoding the bytes that \<^verbatim>\<open>encode\<close> writes for a state whose image fits the 32-bit
  length field gives back exactly that state, stamped with the current format version, when the
  state satisfies the image invariant, and the error of the semantic validation otherwise.
\<close>
theorem decode_encode:
  assumes "image_size s < 2 ^ 32 + 16"
  shows "decode (encode s) =
     (let s' = s\<lparr>ps_format_version := PF_PERSISTENCE_VERSION\<rparr>
      in if image_ok s' then Inr s' else Inl (validate_state s'))"
  using assms payload_length [of s] decode_payload_enc [of s] encode_eq_seal [of s] decode_seal [of "payload_bytes s"]
  by (simp add: storable_iff verdict_def validate_state_ok Let_def)

definition sample_image :: PersistentState where
  "sample_image = default_PersistentState\<lparr>ps_lifecycle := LifecycleState.kPreempted, ps_quiesced := True,
     ps_state_durable := True, ps_checkpoint_ref := IdV 7, ps_checkpoint_generation := GenV 1,
     ps_resources_released := True, ps_preempted := True,
     ps_release_receipts := [\<lparr>prr_resource = ResourceClass.kDeviceMemory, prr_units = 4, prr_contract_id = IdV 1,
       prr_contract_generation = GenV 1, prr_release_generation = GenV 2, prr_worker_boot_id = IdV 9\<rparr>]\<rparr>"

lemma sample_image_ok: "image_ok (sample_image\<lparr>ps_format_version := PF_PERSISTENCE_VERSION\<rparr>)"
  by (simp add: sample_image_def default_PersistentState_def image_ok_def id_valid_simps gen_valid_simps)

lemma sample_image_size: "image_size sample_image = 252"
  by (simp add: sample_image_def default_PersistentState_def image_size_def)

theorem decode_encode_witness:
  "decode (encode sample_image) = Inr (sample_image\<lparr>ps_format_version := PF_PERSISTENCE_VERSION\<rparr>)"
  using decode_encode [of sample_image] sample_image_ok by (simp add: sample_image_size Let_def)

lemma sample_image_storable: "storable sample_image" "length (payload_bytes sample_image) = 236"
  using payload_length [of sample_image] by (simp_all add: storable_iff sample_image_size)

lemma sample_image_accepted:
  "decode (encode sample_image) = Inr (sample_image\<lparr>ps_format_version := PF_PERSISTENCE_VERSION\<rparr>)"
  using decode_payload_enc [OF sample_image_storable(1)] encode_eq_seal [OF sample_image_storable(1)]
    decode_seal [of "payload_bytes sample_image"] sample_image_ok
  by (simp add: sample_image_storable verdict_def validate_state_ok)

text \<open>
  Every truncation of an encoded image, and every image followed by extra bytes, is
  rejected, and both are reported as \<^verbatim>\<open>kTruncated\<close>.
\<close>
theorem decode_resized:
  assumes "image_size s < 2 ^ 32 + 16" "n \<le> image_size s + length x" "n \<noteq> image_size s"
  shows "decode (take n (encode s @ x)) = Inl PersistenceError.kTruncated"
  using assms payload_length [of s] encode_eq_seal [of s] decode_seal_resized [of "payload_bytes s" n x]
  by (simp add: storable_iff)

theorem decode_resized_witness:
  "decode (take 251 (encode sample_image @ [])) = Inl PersistenceError.kTruncated \<and>
   decode (take 253 (encode sample_image @ [0])) = Inl PersistenceError.kTruncated"
  using decode_resized [of sample_image 251 "[]"] decode_resized [of sample_image 253 "[0]"]
  by (simp add: sample_image_size)

text \<open>
  C22: an accepted image in which any run of at most four consecutive bytes has been changed is rejected,
  wherever the run lies: in the header, in the payload, in the stored checksum or across a boundary
  between them.
\<close>
theorem decode_detects_burst:
  assumes "decode (pre @ mid @ suf) = Inr s"
    and "length mid' = length mid" "length mid \<le> 4" "mid' \<noteq> mid"
  shows "\<exists>e. decode (pre @ mid' @ suf) = Inl e"
  using assms by (rule decode_burst)

lemma sample_image_split:
  "encode sample_image = [] @ [0x50, 0x46, 0x53, 0x42] @ drop 4 (encode sample_image)"
  "length (encode sample_image) = 252"
proof -
  have e: "encode sample_image = seal_image (payload_bytes sample_image)"
    by (rule encode_eq_seal [OF sample_image_storable(1)])
  show "encode sample_image = [] @ [0x50, 0x46, 0x53, 0x42] @ drop 4 (encode sample_image)"
    by (simp add: e seal_image_eq Let_def) (simp add: persist_magic_def)
  show "length (encode sample_image) = 252" by (simp add: e sample_image_storable)
qed

theorem decode_detects_burst_witness:
  "\<exists>e. decode ([] @ [0x50, 0x46, 0x53, 0x43] @ drop 4 (encode sample_image)) = Inl e"
proof (rule decode_detects_burst)
  show "decode ([] @ [0x50, 0x46, 0x53, 0x42] @ drop 4 (encode sample_image))
      = Inr (sample_image\<lparr>ps_format_version := PF_PERSISTENCE_VERSION\<rparr>)"
    using sample_image_split(1) sample_image_accepted by metis
qed (simp_all add: sample_image_split(2))

text \<open>
  Whatever bytes are decoded, an accepted image is one whose recorded lifecycle is backed by
  the recorded facts: a release or anything after it requires quiescence, durable state and the
  release itself, a resume requires the preemption, durable state comes with a valid checkpoint,
  safe points have distinct valid ids and every release receipt a positive amount.
\<close>
theorem decode_accepts_only_consistent:
  assumes "decode d = Inr s"
  shows "image_ok s"
  using decode_valid [OF assms] by (simp add: validate_state_ok)

theorem decode_accepts_only_consistent_witness:
  "image_ok (sample_image\<lparr>ps_format_version := PF_PERSISTENCE_VERSION\<rparr>)"
  by (rule decode_accepts_only_consistent [OF sample_image_accepted])

text \<open>
  The error categories a decode can report. Of the documented categories, malformed length,
  generation regression, multiple authoritative workers, illegal lifecycle, malformed progress
  and integer overflow are never produced, whatever the bytes.
\<close>
theorem decode_error_range:
  "decode d \<notin> Inl ` {PersistenceError.kOk, PersistenceError.kMalformedLength,
     PersistenceError.kGenerationRegression, PersistenceError.kMultipleAuthoritative,
     PersistenceError.kIllegalLifecycle, PersistenceError.kMalformedProgress, PersistenceError.kIntegerOverflow}"
  using decode_error [of d] by (auto simp: state_errors_def list_errors_def)

end
