(* ===== verification/PF_Priority.thy ===== *)
theory PF_Priority
  imports PF_Domains
begin

text \<open>
  The priority-inversion evidence of \<^verbatim>\<open>include/preemption_fabric/priority/inversion.hpp\<close> and
  the three preemptibility predicates of \<^verbatim>\<open>src/runtime.cpp\<close>. The assessment itself takes the
  two generations of the runtime that it reads; the runtime's method passes its own.
\<close>

section \<open>inversion.hpp\<close>

datatype PriorityInversionResolution =
    kInvalid | kSafePreemptionResolves | kSafePreemptionDoesNotResolve | kUnknown

record PriorityInversionInput =
  pii_holder_workload :: WorkloadId
  pii_holder_execution :: ExecutionId
  pii_holder_attempt :: AttemptId
  pii_holder_worker_boot :: WorkerBootId
  pii_blocked_workload :: WorkloadId
  pii_blocked_execution :: ExecutionId
  pii_resource :: ResourceClass
  pii_priority_generation :: PriorityGeneration
  pii_policy_generation :: PolicyGeneration
  pii_holder_authoritative :: bool
  pii_holder_preemptibility :: PreemptibilityClass
  pii_next_safe_point_cost :: u64
  pii_preservation_cost :: u64
  pii_release_cost :: u64
  pii_resume_recompute_cost :: u64
  pii_blocking_duration_ns :: u64
  pii_blocking_duration_measured :: bool
  pii_reason :: string
  pii_provenance :: EvidenceKind

record PriorityInversionEvidence =
  pie_ok :: bool
  pie_stale :: bool
  pie_resource :: ResourceClass
  pie_holder_workload :: WorkloadId
  pie_blocked_workload :: WorkloadId
  pie_holder_preemptible :: bool
  pie_next_safe_point_cost :: u64
  pie_preservation_cost :: u64
  pie_release_cost :: u64
  pie_resume_recompute_cost :: u64
  pie_blocking_duration_ns :: u64
  pie_blocking_duration_measured :: bool
  pie_resolution :: PriorityInversionResolution
  pie_reason :: string
  pie_provenance :: EvidenceKind

definition default_PriorityInversionEvidence :: PriorityInversionEvidence where
  "default_PriorityInversionEvidence = \<lparr>
     pie_ok = False, pie_stale = False, pie_resource = ResourceClass.kInvalid,
     pie_holder_workload = id_default, pie_blocked_workload = id_default, pie_holder_preemptible = False,
     pie_next_safe_point_cost = 0, pie_preservation_cost = 0, pie_release_cost = 0,
     pie_resume_recompute_cost = 0, pie_blocking_duration_ns = 0, pie_blocking_duration_measured = False,
     pie_resolution = PriorityInversionResolution.kUnknown, pie_reason = [],
     pie_provenance = EvidenceKind.kUnknown\<rparr>"

definition positive_recommendation :: "PriorityInversionEvidence \<Rightarrow> bool" where
  "positive_recommendation ev \<longleftrightarrow> pie_ok ev \<and> \<not> pie_stale ev \<and>
     pie_resolution ev = PriorityInversionResolution.kSafePreemptionResolves \<and>
     pie_provenance ev \<noteq> EvidenceKind.kUnknown"

section \<open>runtime.cpp\<close>

definition known_preemptibility :: "PreemptibilityClass \<Rightarrow> bool" where
  "known_preemptibility c \<longleftrightarrow> c \<noteq> PreemptibilityClass.kInvalid \<and> c \<noteq> PreemptibilityClass.kUnknown"

definition is_concretely_preemptible :: "PreemptibilityClass \<Rightarrow> bool" where
  "is_concretely_preemptible c \<longleftrightarrow>
     c = PreemptibilityClass.kPreemptibleNow \<or> c = PreemptibilityClass.kPreemptibleAtSafePoint \<or>
     c = PreemptibilityClass.kPreemptibleAfterStateCapture \<or>
     c = PreemptibilityClass.kPreemptibleAfterCommitBoundary \<or>
     c = PreemptibilityClass.kRecomputableFromDurableProgress"

definition is_unknown_preemptibility :: "PreemptibilityClass \<Rightarrow> bool" where
  "is_unknown_preemptibility c \<longleftrightarrow> c = PreemptibilityClass.kUnknown \<or> c = PreemptibilityClass.kInvalid"

definition assess_inversion ::
  "PolicyGeneration \<Rightarrow> PriorityGeneration \<Rightarrow> PriorityInversionInput \<Rightarrow> PriorityInversionEvidence" where
  "assess_inversion policy_generation priority_generation i =
     (let ev = default_PriorityInversionEvidence\<lparr>
            pie_resource := pii_resource i, pie_holder_workload := pii_holder_workload i,
            pie_blocked_workload := pii_blocked_workload i, pie_reason := pii_reason i,
            pie_provenance := pii_provenance i\<rparr>
      in if pii_resource i = ResourceClass.kInvalid \<or> \<not> id_is_valid (pii_holder_workload i) \<or>
            \<not> id_is_valid (pii_blocked_workload i)
         then ev
         else if pii_policy_generation i \<noteq> policy_generation then ev\<lparr>pie_stale := False\<rparr>
         else if \<not> gen_is_valid (pii_priority_generation i) \<or> pii_priority_generation i \<noteq> priority_generation
         then ev\<lparr>pie_stale := True\<rparr>
         else let ev = ev\<lparr>pie_ok := True,
                    pie_next_safe_point_cost := pii_next_safe_point_cost i,
                    pie_preservation_cost := pii_preservation_cost i,
                    pie_release_cost := pii_release_cost i,
                    pie_resume_recompute_cost := pii_resume_recompute_cost i,
                    pie_blocking_duration_ns := pii_blocking_duration_ns i,
                    pie_blocking_duration_measured := pii_blocking_duration_measured i,
                    pie_holder_preemptible := is_concretely_preemptible (pii_holder_preemptibility i)\<rparr>
              in if \<not> pii_holder_authoritative i
                 then ev\<lparr>pie_resolution := PriorityInversionResolution.kSafePreemptionDoesNotResolve\<rparr>
                 else if is_unknown_preemptibility (pii_holder_preemptibility i)
                 then ev\<lparr>pie_resolution := PriorityInversionResolution.kUnknown\<rparr>
                 else if pie_holder_preemptible ev
                 then ev\<lparr>pie_resolution := PriorityInversionResolution.kSafePreemptionResolves\<rparr>
                 else ev\<lparr>pie_resolution := PriorityInversionResolution.kSafePreemptionDoesNotResolve\<rparr>)"

section \<open>When the evidence recommends a preemption\<close>

lemma unknown_iff_not_known: "is_unknown_preemptibility c \<longleftrightarrow> \<not> known_preemptibility c"
  by (auto simp: is_unknown_preemptibility_def known_preemptibility_def)

lemma concretely_preemptible_known: "is_concretely_preemptible c \<Longrightarrow> known_preemptibility c"
  by (auto simp: is_concretely_preemptible_def known_preemptibility_def)

lemma assess_inversion_stale:
  "pie_stale (assess_inversion pol prio i) \<Longrightarrow> \<not> pie_ok (assess_inversion pol prio i)"
  by (auto simp: assess_inversion_def default_PriorityInversionEvidence_def Let_def split: if_splits)

lemma positive_iff:
  "positive_recommendation (assess_inversion pol prio i) \<longleftrightarrow>
     pii_resource i \<noteq> ResourceClass.kInvalid \<and> id_is_valid (pii_holder_workload i) \<and>
     id_is_valid (pii_blocked_workload i) \<and> pii_policy_generation i = pol \<and>
     gen_is_valid (pii_priority_generation i) \<and> pii_priority_generation i = prio \<and>
     pii_holder_authoritative i \<and> is_concretely_preemptible (pii_holder_preemptibility i) \<and>
     pii_provenance i \<noteq> EvidenceKind.kUnknown"
proof -
  have "\<not> is_unknown_preemptibility c" if "is_concretely_preemptible c" for c
    using that concretely_preemptible_known unknown_iff_not_known by blast
  then show ?thesis
    by (auto simp: positive_recommendation_def assess_inversion_def default_PriorityInversionEvidence_def Let_def)
qed

text \<open>
  A safe preemption is recommended exactly on complete and current evidence: a named
  resource, both workloads, the policy and priority generations in force, an authoritative holder
  with a concrete preemptibility class, and known provenance. Any missing or stale piece withdraws
  the recommendation.
\<close>
theorem recommendation_needs_current_evidence:
  "positive_recommendation (assess_inversion pol prio i) \<longleftrightarrow>
     pii_resource i \<noteq> ResourceClass.kInvalid \<and> id_is_valid (pii_holder_workload i) \<and>
     id_is_valid (pii_blocked_workload i) \<and> pii_policy_generation i = pol \<and>
     gen_is_valid (pii_priority_generation i) \<and> pii_priority_generation i = prio \<and>
     pii_holder_authoritative i \<and> is_concretely_preemptible (pii_holder_preemptibility i) \<and>
     pii_provenance i \<noteq> EvidenceKind.kUnknown"
  by (rule positive_iff)

end
