(* ===== verification/PF_Runtime.thy ===== *)
theory PF_Runtime
  imports PF_Adapters PF_Persistence PF_Priority
begin

text \<open>
  The production runtime \<^verbatim>\<open>PreemptionRuntime\<close> (\<^verbatim>\<open>runtime.hpp\<close>, \<^verbatim>\<open>src/runtime.cpp\<close>). The class is
  a record with one field per member; the adapters it refers to are the field \<open>rt_adapters\<close>.
  Each method is one definition under the method's name. A method that drives the guarded
  lifecycle machine returns \<open>Inl\<close> with the thrown error or \<open>Inr\<close> with its result, beside the
  runtime it leaves behind; the other mutators return the runtime, with the method's result
  where it has one. Every public method takes the runtime's mutex for its whole body, so a
  method is one atomic step.
\<close>

section \<open>runtime.hpp\<close>

datatype RequestAdmissionCode =
    kInvalid | kAccepted | kIdempotentDuplicate | kConflictingDuplicate | kRejectedStale | kRejectedInvalid

record RequestAdmission =
  adm_code :: RequestAdmissionCode
  adm_request_id :: PreemptionRequestId
  adm_generation :: PreemptionRequestGeneration

definition default_RequestAdmission :: RequestAdmission where
  "default_RequestAdmission =
     \<lparr>adm_code = RequestAdmissionCode.kInvalid, adm_request_id = id_default, adm_generation = gen_default\<rparr>"

record ExplainEntry =
  ex_message :: string
  ex_detail :: string
  ex_provenance :: EvidenceKind

definition explain :: "string \<Rightarrow> string \<Rightarrow> EvidenceKind \<Rightarrow> ExplainEntry" where
  "explain message detail kind = \<lparr>ex_message = message, ex_detail = detail, ex_provenance = kind\<rparr>"

record PreemptionAssessment =
  as_preemptibility :: PreemptibilityClass
  as_plan :: PreemptionPlan
  as_why :: "ExplainEntry list"

record PreemptionResult =
  res_outcome :: PreemptionOutcome
  res_lifecycle :: LifecycleState
  res_evidence :: "ExplainEntry list"

record ResumeEligibility =
  el_outcome :: ResumeOutcome
  el_resume_generation :: ResumeGeneration
  el_why :: "ExplainEntry list"

record PreemptionRuntime =
  rt_epoch :: CoordinatorEpoch
  rt_policy_generation :: PolicyGeneration
  rt_workload_id :: WorkloadId
  rt_workload_generation :: WorkloadGeneration
  rt_execution_id :: ExecutionId
  rt_execution_generation :: ExecutionGeneration
  rt_attempt_id :: AttemptId
  rt_attempt_generation :: AttemptGeneration
  rt_worker_id :: WorkerId
  rt_worker_boot :: WorkerBootId
  rt_fenced_worker_boot :: WorkerBootId
  rt_machine :: LifecycleState
  rt_active_request :: "PreemptionRequest option"
  rt_authoritative_request_generation :: PreemptionRequestGeneration
  rt_safe_points :: "(SafePointId, SafePoint) std_map"
  rt_current_safe_point :: "SafePoint option"
  rt_current_position :: u64
  rt_durable_position :: u64
  rt_progress_generation :: ProgressGeneration
  rt_durable_progress_generation :: ProgressGeneration
  rt_progress_order :: u64
  rt_quiesced :: bool
  rt_quiescence_generation :: QuiescenceGeneration
  rt_state_durable :: bool
  rt_state_capture_generation :: StateCaptureGeneration
  rt_checkpoint_ref :: CheckpointRef
  rt_checkpoint_generation :: CheckpointGeneration
  rt_resources_released :: bool
  rt_release_generation :: ReleaseGeneration
  rt_resume_generation :: ResumeGeneration
  rt_resumed :: bool
  rt_history :: "PersistentSuperseded list"
  rt_priority_generation :: PriorityGeneration
  rt_adapters :: ReferenceAdapters

text \<open>The constructor.\<close>

definition preemption_runtime :: "CoordinatorEpoch \<Rightarrow> PolicyGeneration \<Rightarrow> ReferenceAdapters \<Rightarrow> PreemptionRuntime" where
  "preemption_runtime epoch policy adapters = \<lparr>
     rt_epoch = epoch, rt_policy_generation = policy,
     rt_workload_id = id_default, rt_workload_generation = gen_default,
     rt_execution_id = id_default, rt_execution_generation = gen_default,
     rt_attempt_id = id_default, rt_attempt_generation = gen_default,
     rt_worker_id = id_default, rt_worker_boot = id_default, rt_fenced_worker_boot = id_default,
     rt_machine = LifecycleState.kInvalid, rt_active_request = None,
     rt_authoritative_request_generation = gen_default,
     rt_safe_points = [], rt_current_safe_point = None,
     rt_current_position = 0, rt_durable_position = 0,
     rt_progress_generation = gen_default, rt_durable_progress_generation = gen_default,
     rt_progress_order = 0,
     rt_quiesced = False, rt_quiescence_generation = gen_default,
     rt_state_durable = False, rt_state_capture_generation = gen_default,
     rt_checkpoint_ref = id_default, rt_checkpoint_generation = gen_default,
     rt_resources_released = False, rt_release_generation = gen_default,
     rt_resume_generation = gen_default, rt_resumed = False,
     rt_history = [], rt_priority_generation = gen_default,
     rt_adapters = adapters\<rparr>"

section \<open>Shape of the methods\<close>

type_synonym 'a rt_outcome = "(PreemptionError + 'a) \<times> PreemptionRuntime"

text \<open>\<^verbatim>\<open>machine_.transition(target)\<close> followed by the rest of the method.\<close>

definition with_transition ::
  "LifecycleState \<Rightarrow> PreemptionRuntime \<Rightarrow> (PreemptionRuntime \<Rightarrow> 'a rt_outcome) \<Rightarrow> 'a rt_outcome" where
  "with_transition target r k =
     (case transition (rt_machine r) target of
        Inl err \<Rightarrow> (Inl err, r)
      | Inr s \<Rightarrow> k (r\<lparr>rt_machine := s\<rparr>))"

text \<open>
  The way every step returns its result: an outcome, the machine's state (or the state on entry,
  where a failing path does not refresh it) and the collected evidence.
\<close>

definition returns ::
  "PreemptionOutcome \<Rightarrow> LifecycleState \<Rightarrow> ExplainEntry list \<Rightarrow> PreemptionRuntime \<Rightarrow> PreemptionResult rt_outcome" where
  "returns outcome lifecycle evidence r =
     (Inr \<lparr>res_outcome = outcome, res_lifecycle = lifecycle, res_evidence = evidence\<rparr>, r)"

section \<open>Execution and authority\<close>

definition start_execution ::
  "WorkloadId \<Rightarrow> WorkloadGeneration \<Rightarrow> ExecutionId \<Rightarrow> ExecutionGeneration \<Rightarrow> AttemptId \<Rightarrow> AttemptGeneration
     \<Rightarrow> WorkerId \<Rightarrow> WorkerBootId \<Rightarrow> PreemptionRuntime \<Rightarrow> PreemptionRuntime" where
  "start_execution w wg e eg a ag worker boot r =
     r\<lparr>rt_workload_id := w, rt_workload_generation := wg, rt_execution_id := e,
       rt_execution_generation := eg, rt_attempt_id := a, rt_attempt_generation := ag,
       rt_worker_id := worker, rt_worker_boot := boot, rt_machine := LifecycleState.kInvalid,
       rt_active_request := None,
       rt_adapters := ad_set_authoritative e a eg ag (rt_epoch r) boot (rt_adapters r)\<rparr>"

section \<open>Safe points and progress\<close>

definition declare_safe_point :: "SafePoint \<Rightarrow> PreemptionRuntime \<Rightarrow> SafePointId \<times> PreemptionRuntime" where
  "declare_safe_point sp r =
     (let copy = sp\<lparr>sp_state := SafePointState.kDeclared\<rparr>
      in (sp_id copy, r\<lparr>rt_safe_points := map_assign (sp_id copy) copy (rt_safe_points r)\<rparr>))"

definition reach_safe_point :: "SafePointId \<Rightarrow> u64 \<Rightarrow> bool \<Rightarrow> PreemptionRuntime \<Rightarrow> unit rt_outcome" where
  "reach_safe_point i pos capture_required r =
     (case map_of (rt_safe_points r) i of
        None \<Rightarrow> (Inl \<lparr>err_code = ''unknown_safe_point'', err_message = ''unknown safe point''\<rparr>, r)
      | Some sp \<Rightarrow>
          let sp = sp\<lparr>sp_state := SafePointState.kValid, sp_progress_position := pos,
                     sp_state_capture_required := capture_required\<rparr>;
              r = r\<lparr>rt_safe_points := map_assign i sp (rt_safe_points r),
                    rt_current_safe_point := Some sp,
                    rt_current_position := max (rt_current_position r) pos\<rparr>
          in if rt_machine r = LifecycleState.kWaitingForSafePoint
             then with_transition LifecycleState.kSafePointReached r (\<lambda>r. (Inr (), r))
             else (Inr (), r))"

definition publish_progress :: "u64 \<Rightarrow> ProgressKind \<Rightarrow> PreemptionRuntime \<Rightarrow> bool \<times> PreemptionRuntime" where
  "publish_progress pos kind r =
     (let auth = ad_current_attempt_authority (rt_execution_id r) (rt_attempt_id r) (rt_adapters r)
      in if \<not> av_authoritative auth \<or> av_worker_boot_id auth \<noteq> rt_worker_boot r then (False, r)
         else if pos < rt_durable_position r then (False, r)
         else let r = r\<lparr>rt_current_position := max (rt_current_position r) pos,
                        rt_progress_generation := gen_next (rt_progress_generation r)\<rparr>
              in if kind = ProgressKind.kDurable
                 then if pos \<ge> rt_durable_position r
                      then (True, r\<lparr>rt_durable_position := pos,
                                    rt_durable_progress_generation := rt_progress_generation r\<rparr>)
                      else (True, r)
                 else (True, r))"

section \<open>Admission of requests\<close>

definition validate_attempt :: "ExecutionId \<Rightarrow> AttemptId \<Rightarrow> PreemptionRuntime \<Rightarrow> PreemptionError + unit" where
  "validate_attempt exec attempt r =
     (if exec \<noteq> rt_execution_id r \<or> attempt \<noteq> rt_attempt_id r
      then Inl \<lparr>err_code = ''wrong_scope'', err_message = ''attempt does not belong to this execution scope''\<rparr>
      else Inr ())"

definition validate_authority :: "PreemptionRequest \<Rightarrow> PreemptionRuntime \<Rightarrow> bool" where
  "validate_authority req r =
     (if req_coordinator_epoch req \<noteq> rt_epoch r then False
      else if req_execution_id req \<noteq> rt_execution_id r \<or> req_attempt_id req \<noteq> rt_attempt_id r then False
      else if req_execution_generation req \<noteq> rt_execution_generation r then False
      else if req_attempt_generation req \<noteq> rt_attempt_generation r then False
      else if id_is_valid (req_worker_boot_id req) \<and> req_worker_boot_id req \<noteq> rt_worker_boot r then False
      else True)"

definition request_matches_current :: "PreemptionRequest \<Rightarrow> PreemptionRuntime \<Rightarrow> bool" where
  "request_matches_current req r =
     (case rt_active_request r of
        None \<Rightarrow> False
      | Some active \<Rightarrow> req_id active = req_id req \<and> req_generation active = req_generation req)"

definition request_preemption :: "PreemptionRequest \<Rightarrow> PreemptionRuntime \<Rightarrow> RequestAdmission rt_outcome" where
  "request_preemption req r =
     (let out = default_RequestAdmission
      in if \<not> id_is_valid (req_id req) \<or> \<not> gen_is_valid (req_generation req)
         then (Inr (out\<lparr>adm_code := RequestAdmissionCode.kRejectedInvalid\<rparr>), r)
         else if \<not> validate_authority req r
         then (Inr (out\<lparr>adm_code := RequestAdmissionCode.kRejectedStale\<rparr>), r)
         else if rt_active_request r \<noteq> None
         then if request_matches_current req r
              then (Inr (out\<lparr>adm_code := RequestAdmissionCode.kIdempotentDuplicate,
                             adm_request_id := req_id req, adm_generation := req_generation req\<rparr>), r)
              else (Inr (out\<lparr>adm_code := RequestAdmissionCode.kConflictingDuplicate\<rparr>), r)
         else let r = r\<lparr>rt_active_request := Some req,
                        rt_authoritative_request_generation := req_generation req,
                        rt_machine := LifecycleState.kRequested\<rparr>
              in with_transition LifecycleState.kValidatingAuthority r (\<lambda>r.
                 with_transition LifecycleState.kAssessing r (\<lambda>r.
                   (Inr (out\<lparr>adm_code := RequestAdmissionCode.kAccepted,
                             adm_request_id := req_id req, adm_generation := req_generation req\<rparr>), r))))"

text \<open>\<^verbatim>\<open>current_safe_point_ && current_safe_point_->state == SafePointState::kValid\<close>\<close>

definition at_valid_safe_point :: "PreemptionRuntime \<Rightarrow> bool" where
  "at_valid_safe_point r =
     (case rt_current_safe_point r of None \<Rightarrow> False | Some sp \<Rightarrow> sp_state sp = SafePointState.kValid)"

definition assess_boundary ::
  "PreemptionPlan \<Rightarrow> PreemptionRuntime \<Rightarrow> PreemptibilityClass \<times> PreemptionPlan \<times> ExplainEntry list" where
  "assess_boundary plan r =
     (if at_valid_safe_point r then
        let sp = the (rt_current_safe_point r);
            plan = plan\<lparr>plan_next_safe_point := sp_id sp, plan_cost_to_next_safe_point := 0\<rparr>
        in if sp_state_capture_required sp
           then (PreemptibilityClass.kPreemptibleAfterStateCapture,
                 plan\<lparr>plan_preservation_mode := PreservationMode.kCapture, plan_state_to_preserve_bytes := 1024\<rparr>, [])
           else (PreemptibilityClass.kPreemptibleNow,
                 plan\<lparr>plan_preservation_mode := PreservationMode.kAlreadyDurable\<rparr>, [])
      else if rt_safe_points r \<noteq> [] then
        (PreemptibilityClass.kPreemptibleAtSafePoint,
         plan\<lparr>plan_preservation_mode := PreservationMode.kCapture,
              plan_next_safe_point := fst (hd (rt_safe_points r)), plan_cost_to_next_safe_point := 1\<rparr>,
         [explain ''DEFER_TO_SAFE_POINT'' ''work is between safe point boundaries'' EvidenceKind.kDerived])
      else if rt_machine r = LifecycleState.kQuiesced \<or> rt_machine r = LifecycleState.kStateDurable \<or>
              rt_machine r = LifecycleState.kReleasePending then
        (PreemptibilityClass.kPreemptibleNow, plan\<lparr>plan_preservation_mode := PreservationMode.kCapture\<rparr>, [])
      else
        (PreemptibilityClass.kUnknown, plan\<lparr>plan_preservation_mode := PreservationMode.kUnknown\<rparr>,
         [explain ''UNKNOWN'' ''no valid safe point or durable boundary evidence'' EvidenceKind.kDerived]))"

definition assess :: "PreemptionRuntime \<Rightarrow> PreemptionAssessment" where
  "assess r =
     (let plan = default_PreemptionPlan\<lparr>
            plan_execution_id := rt_execution_id r, plan_attempt_id := rt_attempt_id r,
            plan_workload_id := rt_workload_id r, plan_workload_generation := rt_workload_generation r,
            plan_last_durable_progress := rt_durable_position r,
            plan_current_position := rt_current_position r,
            plan_max_rollback := (if rt_current_position r > rt_durable_position r
                                  then rt_current_position r - rt_durable_position r else 0)\<rparr>;
          (preemptibility, plan, why) = assess_boundary plan r;
          contract = ad_current_contract (rt_execution_id r) (rt_adapters r);
          plan = plan\<lparr>plan_resources_to_release := map lease_resource (rc_leases contract)\<rparr>;
          plan = (if plan_resources_to_release plan \<noteq> [] then plan\<lparr>plan_release_before_preempted := True\<rparr> else plan)
      in \<lparr>as_preemptibility = preemptibility, as_plan = plan, as_why = why\<rparr>)"

section \<open>Preemption\<close>

definition begin_quiesce :: "PreemptionRuntime \<Rightarrow> PreemptionResult rt_outcome" where
  "begin_quiesce r =
     (let s = rt_machine r;
          started = (\<lambda>r. returns PreemptionOutcome.kSafePreemptionCompleted (rt_machine r) [] r)
      in if s = LifecycleState.kSafePointReached
         then with_transition LifecycleState.kQuiescing r started
         else if s = LifecycleState.kAssessing \<or> s = LifecycleState.kDeferred
         then if at_valid_safe_point r
              then with_transition LifecycleState.kQuiescing r started
              else with_transition LifecycleState.kWaitingForSafePoint r (\<lambda>r.
                     returns PreemptionOutcome.kDeferToSafePoint (rt_machine r)
                       [explain ''defer_to_safe_point'' ''work is between safe point boundaries'' EvidenceKind.kDerived] r)
         else if s = LifecycleState.kWaitingForSafePoint
         then returns PreemptionOutcome.kDeferToSafePoint (rt_machine r)
                [explain ''defer_to_safe_point'' ''waiting for the next valid safe point'' EvidenceKind.kDerived] r
         else if s = LifecycleState.kQuiescing
         then returns PreemptionOutcome.kSafePreemptionCompleted (rt_machine r) [] r
         else returns PreemptionOutcome.kCannotPreemptSafely (rt_machine r)
                [explain ''cannot_preempt'' ''no safe boundary reached'' EvidenceKind.kDerived] r)"

definition is_quiesced_all :: "PreemptionRuntime \<Rightarrow> bool" where
  "is_quiesced_all r = list_all (\<lambda>cat. ad_is_quiesced cat (rt_adapters r)) ad_categories"

definition report_quiesced :: "QuiescenceReport \<Rightarrow> PreemptionRuntime \<Rightarrow> PreemptionResult rt_outcome" where
  "report_quiesced report r =
     (if qr_worker_boot_id report \<noteq> rt_worker_boot r
      then returns PreemptionOutcome.kPreemptionFailed (rt_machine r)
             [explain ''stale_quiescence'' ''quiescence evidence from stale worker boot'' EvidenceKind.kDerived] r
      else if rt_machine r \<noteq> LifecycleState.kQuiescing
      then returns PreemptionOutcome.kCannotPreemptSafely (rt_machine r)
             [explain ''not_quiescing'' ''quiescence reported outside QUIESCING'' EvidenceKind.kDerived] r
      else if \<not> qr_fully_quiesced report \<or> \<not> is_quiesced_all r
      then returns PreemptionOutcome.kCannotPreemptSafely (rt_machine r)
             [explain ''not_quiesced'' ''required activity is not quiesced'' EvidenceKind.kDerived] r
      else with_transition LifecycleState.kQuiesced r (\<lambda>r.
             returns PreemptionOutcome.kSafePreemptionCompleted (rt_machine r) []
               (r\<lparr>rt_quiesced := True, rt_quiescence_generation := qr_generation report\<rparr>)))"

text \<open>The result of the capture request is not used: the capture is reported separately.\<close>

definition request_state_capture :: "PreemptionRuntime \<Rightarrow> PreemptionResult rt_outcome" where
  "request_state_capture r =
     (if rt_machine r \<noteq> LifecycleState.kQuiesced
      then returns PreemptionOutcome.kCannotPreemptSafely (rt_machine r)
             [explain ''not_quiesced'' ''state capture requires quiescence'' EvidenceKind.kDerived] r
      else let capture_required =
                 (case rt_current_safe_point r of None \<Rightarrow> False | Some sp \<Rightarrow> sp_state_capture_required sp)
           in if \<not> capture_required
              then with_transition LifecycleState.kReleasePending r (\<lambda>r.
                     returns PreemptionOutcome.kStateCaptureRequired (rt_machine r) [] (r\<lparr>rt_state_durable := True\<rparr>))
              else with_transition LifecycleState.kCaptureRequired r (\<lambda>r.
                   with_transition LifecycleState.kCapturingState r (\<lambda>r.
                     let expected = gen_next (rt_checkpoint_generation r);
                         req = \<lparr>scr_required = True, scr_expected_generation = expected,
                                scr_capture_generation = GenV (gen_value expected),
                                scr_execution_generation = rt_execution_generation r,
                                scr_attempt_generation = rt_attempt_generation r\<rparr>;
                         (result, adapters) = ad_request_capture req (rt_adapters r)
                     in returns PreemptionOutcome.kStateCaptureRequired (rt_machine r) [] (r\<lparr>rt_adapters := adapters\<rparr>))))"

definition report_state_captured :: "CaptureResult \<Rightarrow> PreemptionRuntime \<Rightarrow> PreemptionResult rt_outcome" where
  "report_state_captured result r =
     (if rt_machine r \<noteq> LifecycleState.kCapturingState
      then returns PreemptionOutcome.kCannotPreemptSafely (rt_machine r)
             [explain ''not_capturing'' ''state capture reported outside CAPTURING_STATE'' EvidenceKind.kDerived] r
      else if \<not> cr_success result \<or> \<not> cr_completed result
      then with_transition LifecycleState.kFailed r (\<lambda>r.
             returns PreemptionOutcome.kPreemptionFailed (rt_machine r)
               [explain ''capture_failed'' ''state capture did not complete'' EvidenceKind.kReal] r)
      else if \<not> ad_validate_checkpoint (cr_checkpoint_ref result) (cr_checkpoint_generation result) (rt_adapters r)
      then with_transition LifecycleState.kFailed r (\<lambda>r.
             returns PreemptionOutcome.kPreemptionFailed (rt_machine r)
               [explain ''stale_checkpoint'' ''capture generation is not authoritative'' EvidenceKind.kReal] r)
      else with_transition LifecycleState.kStateDurable r (\<lambda>r.
             returns PreemptionOutcome.kSafePreemptionCompleted (rt_machine r) []
               (r\<lparr>rt_state_durable := True, rt_state_capture_generation := cr_capture_generation result,
                  rt_checkpoint_ref := cr_checkpoint_ref result,
                  rt_checkpoint_generation := cr_checkpoint_generation result\<rparr>)))"

text \<open>The loop over the leases of the contract read before it.\<close>

definition release_leases :: "ExecutionId \<Rightarrow> ResourceContract \<Rightarrow> ReferenceAdapters \<Rightarrow> ReferenceAdapters" where
  "release_leases e contract a =
     foldl (\<lambda>a l. snd (ad_request_release e (lease_resource l) (lease_units l) (rc_generation contract) a))
       a (rc_leases contract)"

definition request_release :: "PreemptionRuntime \<Rightarrow> PreemptionResult rt_outcome" where
  "request_release r =
     (let releasing = (\<lambda>r. with_transition LifecycleState.kReleasing r (\<lambda>r.
            let contract = ad_current_contract (rt_execution_id r) (rt_adapters r);
                r = r\<lparr>rt_adapters := release_leases (rt_execution_id r) contract (rt_adapters r)\<rparr>
            in returns PreemptionOutcome.kSafePreemptionCompleted (rt_machine r) [] r))
      in if rt_machine r \<noteq> LifecycleState.kStateDurable \<and> rt_machine r \<noteq> LifecycleState.kReleasePending
         then returns PreemptionOutcome.kCannotPreemptSafely (rt_machine r)
                [explain ''release_requires_durable_state'' ''release requires durable state'' EvidenceKind.kDerived] r
         else if \<not> rt_state_durable r
         then returns PreemptionOutcome.kPreemptionFailed (rt_machine r)
                [explain ''not_durable'' ''cannot release before durable state'' EvidenceKind.kDerived] r
         else if rt_machine r = LifecycleState.kStateDurable
         then with_transition LifecycleState.kReleasePending r releasing
         else releasing r)"

definition report_released :: "PreemptionRuntime \<Rightarrow> PreemptionResult rt_outcome" where
  "report_released r =
     (if rt_machine r \<noteq> LifecycleState.kReleasing
      then returns PreemptionOutcome.kCannotPreemptSafely (rt_machine r)
             [explain ''not_releasing'' ''release report outside RELEASING'' EvidenceKind.kDerived] r
      else let contract = ad_current_contract (rt_execution_id r) (rt_adapters r)
           in if list_ex (\<lambda>l. ad_reserved (lease_resource l) (rt_adapters r) \<noteq> 0) (rc_leases contract)
              then returns PreemptionOutcome.kPreemptionFailed (rt_machine r)
                     [explain ''resources_not_released'' ''release obligations not fully satisfied'' EvidenceKind.kDerived] r
              else with_transition LifecycleState.kResourcesReleased r (\<lambda>r.
                     returns PreemptionOutcome.kSafePreemptionCompleted (rt_machine r) []
                       (r\<lparr>rt_resources_released := True\<rparr>)))"

definition commit_preempted :: "PreemptionRuntime \<Rightarrow> PreemptionResult rt_outcome" where
  "commit_preempted r =
     (if rt_machine r \<noteq> LifecycleState.kResourcesReleased
      then returns PreemptionOutcome.kCannotPreemptSafely (rt_machine r)
             [explain ''not_released'' ''PREEMPTED requires resources released'' EvidenceKind.kDerived] r
      else if \<not> rt_quiesced r \<or> \<not> rt_state_durable r \<or> \<not> rt_resources_released r
      then returns PreemptionOutcome.kPreemptionFailed (rt_machine r)
             [explain ''missing_boundary'' ''quiescence/durability/release not all satisfied'' EvidenceKind.kDerived] r
      else with_transition LifecycleState.kPreempted r (\<lambda>r.
             let (ok, adapters) = ad_fence_attempt (rt_execution_id r) (rt_attempt_id r)
                                    (rt_execution_generation r) (rt_adapters r)
             in returns PreemptionOutcome.kSafePreemptionCompleted (rt_machine r)
                  [explain ''preempted'' ''execution stopped at a valid boundary with durable state and released resources''
                     EvidenceKind.kReal]
                  (r\<lparr>rt_fenced_worker_boot := rt_worker_boot r, rt_adapters := adapters\<rparr>)))"

section \<open>Resume\<close>

definition request_resume :: "PreemptionRuntime \<Rightarrow> ResumeEligibility rt_outcome" where
  "request_resume r =
     (if rt_machine r \<noteq> LifecycleState.kPreempted
      then (Inr \<lparr>el_outcome = ResumeOutcome.kResumeNotAllowed, el_resume_generation = rt_resume_generation r,
                 el_why = [explain ''not_preempted'' ''resume requires a durable PREEMPTED state'' EvidenceKind.kDerived]\<rparr>, r)
      else with_transition LifecycleState.kResumePending r (\<lambda>r.
             let r = r\<lparr>rt_resume_generation := gen_next (rt_resume_generation r)\<rparr>
             in (Inr \<lparr>el_outcome = ResumeOutcome.kResumeRevalidationRequired, el_resume_generation = rt_resume_generation r,
                      el_why = [explain ''revalidation_required''
                                  ''resume eligibility must be recomputed under current authority'' EvidenceKind.kDerived]\<rparr>, r)))"

definition dependency_blocked :: "DependencyView \<Rightarrow> bool" where
  "dependency_blocked dep \<longleftrightarrow> dv_status dep = DependencyStatus.kStale \<or> dv_status dep = DependencyStatus.kMissing"

definition revalidate :: "PreemptionRuntime \<Rightarrow> PreemptionResult rt_outcome" where
  "revalidate r =
     (let entry = rt_machine r;
          checks = (\<lambda>r.
            if id_is_valid (rt_checkpoint_ref r) \<and>
               \<not> ad_validate_checkpoint (rt_checkpoint_ref r) (rt_checkpoint_generation r) (rt_adapters r)
            then with_transition LifecycleState.kFailed r (\<lambda>r.
                   returns PreemptionOutcome.kPreemptionFailed entry
                     [explain ''stale_checkpoint'' ''checkpoint generation is no longer current'' EvidenceKind.kReal] r)
            else if dependency_blocked (ad_resume_dependencies (rt_execution_id r) (rt_adapters r))
            then returns PreemptionOutcome.kCannotPreemptSafely (rt_machine r)
                   [explain ''resume_blocked_dependency'' ''resume dependency is stale or missing'' EvidenceKind.kDerived] r
            else with_transition LifecycleState.kRestoring r (\<lambda>r.
                   returns PreemptionOutcome.kSafePreemptionCompleted (rt_machine r) [] r))
      in if rt_machine r \<noteq> LifecycleState.kResumePending \<and> rt_machine r \<noteq> LifecycleState.kRevalidating
         then returns PreemptionOutcome.kCannotPreemptSafely (rt_machine r)
                [explain ''not_revalidating'' ''revalidation requires RESUME_PENDING'' EvidenceKind.kDerived] r
         else if rt_machine r = LifecycleState.kResumePending
         then with_transition LifecycleState.kRevalidating r checks
         else checks r)"

definition restore :: "PreemptionRuntime \<Rightarrow> PreemptionResult rt_outcome" where
  "restore r =
     (if rt_machine r \<noteq> LifecycleState.kRestoring
      then returns PreemptionOutcome.kCannotPreemptSafely (rt_machine r)
             [explain ''not_restoring'' ''restore requires RESTORING'' EvidenceKind.kDerived] r
      else if id_is_valid (rt_checkpoint_ref r) \<and>
              \<not> ad_restore (rt_checkpoint_ref r) (rt_checkpoint_generation r) (rt_adapters r)
      then with_transition LifecycleState.kFailed r (\<lambda>r'.
             returns PreemptionOutcome.kPreemptionFailed (rt_machine r)
               [explain ''restore_failed'' ''restore did not complete'' EvidenceKind.kReal] r')
      else with_transition LifecycleState.kResumeReady r (\<lambda>r.
             returns PreemptionOutcome.kSafePreemptionCompleted (rt_machine r) [] r))"

definition confirm_resumed :: "PreemptionRuntime \<Rightarrow> PreemptionResult rt_outcome" where
  "confirm_resumed r =
     (let entry = rt_machine r;
          resumed = (\<lambda>r. with_transition LifecycleState.kResumed r (\<lambda>r.
            returns PreemptionOutcome.kSafePreemptionCompleted (rt_machine r) [] (r\<lparr>rt_resumed := True\<rparr>)))
      in if rt_machine r \<noteq> LifecycleState.kResumeReady \<and> rt_machine r \<noteq> LifecycleState.kResuming
         then returns PreemptionOutcome.kCannotPreemptSafely (rt_machine r)
                [explain ''not_resume_ready'' ''resume confirmation requires RESUME_READY'' EvidenceKind.kDerived] r
         else let (fresh, adapters) =
                    ad_grant_fresh_attempt_authority (rt_execution_id r) (rt_attempt_id r)
                      (rt_execution_generation r) (rt_worker_boot r) (rt_adapters r);
                  r = r\<lparr>rt_adapters := adapters\<rparr>
              in if \<not> av_authoritative fresh
                 then returns PreemptionOutcome.kPreemptionFailed entry
                        [explain ''no_fresh_authority'' ''could not obtain fresh attempt authority'' EvidenceKind.kDerived] r
                 else if rt_machine r = LifecycleState.kResumeReady
                 then with_transition LifecycleState.kResuming r resumed
                 else resumed r)"

section \<open>Cancellation and completion\<close>

definition cancel :: "PreemptionRuntime \<Rightarrow> PreemptionRuntime" where
  "cancel r =
     (let s = rt_machine r
      in if s = LifecycleState.kResumed then r
         else if is_terminal (rt_machine r) \<and> s \<noteq> LifecycleState.kCancelled then r
         else if \<not> is_terminal (rt_machine r)
         then let r = r\<lparr>rt_machine := LifecycleState.kCancelled\<rparr>
              in case rt_active_request r of
                   None \<Rightarrow> r
                 | Some active \<Rightarrow>
                     r\<lparr>rt_history := rt_history r @
                         [\<lparr>psu_request_id = req_id active, psu_generation = req_generation active,
                           psu_final_state = LifecycleState.kCancelled\<rparr>]\<rparr>
         else r)"

definition complete :: "PreemptionRuntime \<Rightarrow> PreemptionRuntime" where
  "complete r =
     (if rt_machine r = LifecycleState.kResumed \<or> rt_machine r = LifecycleState.kCancelled \<or>
         rt_machine r = LifecycleState.kResumePending \<or> rt_machine r = LifecycleState.kRevalidating \<or>
         rt_machine r = LifecycleState.kRestoring \<or> rt_machine r = LifecycleState.kResumeReady \<or>
         rt_machine r = LifecycleState.kResuming
      then r
      else if \<not> is_terminal (rt_machine r) then r\<lparr>rt_machine := LifecycleState.kAborted\<rparr> else r)"

section \<open>Explanations and evidence\<close>

fun nat_to_string :: "nat \<Rightarrow> string" where
  "nat_to_string n = (if n < 10 then [char_of (48 + n)] else nat_to_string (n div 10) @ [char_of (48 + n mod 10)])"

declare nat_to_string.simps [simp del]

definition bool_to_string :: "bool \<Rightarrow> string" where
  "bool_to_string b = (if b then ''true'' else ''false'')"

definition explain_why_not_preemptible :: "PreemptionRuntime \<Rightarrow> ExplainEntry list" where
  "explain_why_not_preemptible r = as_why (assess r)"

definition explain_resume_blockers :: "PreemptionRuntime \<Rightarrow> ExplainEntry list" where
  "explain_resume_blockers r =
     (if rt_machine r \<noteq> LifecycleState.kPreempted \<and> \<not> is_preempted_durable (rt_machine r)
      then [explain ''resume_not_allowed'' ''execution is not in a durable PREEMPTED state'' EvidenceKind.kDerived]
      else
        let out = (if \<not> rt_state_durable r
                   then [explain ''resume_blocked_state'' ''no durable state boundary'' EvidenceKind.kDerived] else []);
            out = out @ (if \<not> rt_resources_released r
                   then [explain ''resume_blocked_resource'' ''resources not released'' EvidenceKind.kDerived] else []);
            out = out @ (if \<not> id_is_valid (rt_checkpoint_ref r)
                   then [explain ''resume_blocked_state_missing'' ''no checkpoint reference'' EvidenceKind.kDerived] else []);
            out = out @ (if id_is_valid (rt_checkpoint_ref r) \<and>
                            \<not> ad_validate_checkpoint (rt_checkpoint_ref r) (rt_checkpoint_generation r) (rt_adapters r)
                   then [explain ''resume_blocked_state_stale'' ''checkpoint generation is stale'' EvidenceKind.kReal] else []);
            dep = ad_resume_dependencies (rt_execution_id r) (rt_adapters r);
            out = out @ (if dv_status dep = DependencyStatus.kStale
                         then [explain ''resume_blocked_dependency'' ''dependency is stale'' EvidenceKind.kDerived]
                         else if dv_status dep = DependencyStatus.kMissing
                         then [explain ''resume_blocked_dependency'' ''dependency is missing'' EvidenceKind.kDerived] else [])
        in if out = [] then [explain ''resume_eligible'' ''resume is eligible'' EvidenceKind.kDerived] else out)"

definition explain_state :: "PreemptionRuntime \<Rightarrow> ExplainEntry list" where
  "explain_state r =
     [explain ''lifecycle'' (LifecycleState_to_string (rt_machine r)) EvidenceKind.kDerived,
      explain ''durable_progress'' (nat_to_string (unat (rt_durable_position r))) EvidenceKind.kDerived,
      explain ''current_position'' (nat_to_string (unat (rt_current_position r))) EvidenceKind.kDerived,
      explain ''quiesced'' (bool_to_string (rt_quiesced r)) EvidenceKind.kDerived,
      explain ''state_durable'' (bool_to_string (rt_state_durable r)) EvidenceKind.kDerived,
      explain ''resources_released'' (bool_to_string (rt_resources_released r)) EvidenceKind.kDerived]"

definition set_priority_generation :: "PriorityGeneration \<Rightarrow> PreemptionRuntime \<Rightarrow> PreemptionRuntime" where
  "set_priority_generation g r = r\<lparr>rt_priority_generation := g\<rparr>"

definition priority_inversion_assessment ::
  "PriorityInversionInput \<Rightarrow> PreemptionRuntime \<Rightarrow> PriorityInversionEvidence" where
  "priority_inversion_assessment input r =
     assess_inversion (rt_policy_generation r) (rt_priority_generation r) input"

definition evaluate_migration_destination ::
  "DeviceCapability \<Rightarrow> PreemptionRuntime \<Rightarrow> MigrationCompatibility" where
  "evaluate_migration_destination dst r =
     (if \<not> is_preempted_durable (rt_machine r) \<or> \<not> rt_state_durable r
      then \<lparr>mc_outcome = MigrationCompatibilityOutcome.kStateNotDurable,
            mc_detail = ''execution is not in a durable PREEMPTED state'', mc_reasons = [''state not durable'']\<rparr>
      else if \<not> id_is_valid (rt_checkpoint_ref r) \<or> \<not> gen_is_valid (rt_checkpoint_generation r)
      then \<lparr>mc_outcome = MigrationCompatibilityOutcome.kIncompatibleCapability,
            mc_detail = ''preserved state is not bound to a valid checkpoint generation'',
            mc_reasons = [''no checkpoint generation'']\<rparr>
      else if \<not> ad_capability_generation_current dst (rt_adapters r)
      then \<lparr>mc_outcome = MigrationCompatibilityOutcome.kStaleCapabilityGeneration,
            mc_detail = ''destination capability generation is stale'', mc_reasons = [''stale capability generation'']\<rparr>
      else if \<not> ad_capability_is_compatible dst (rt_adapters r)
      then \<lparr>mc_outcome = MigrationCompatibilityOutcome.kIncompatibleCapability,
            mc_detail = ''destination capability is incompatible with the preserved state'',
            mc_reasons = [''incompatible destination'']\<rparr>
      else if dependency_blocked (ad_resume_dependencies (rt_execution_id r) (rt_adapters r))
      then \<lparr>mc_outcome = MigrationCompatibilityOutcome.kBlockedDependency,
            mc_detail = ''resume dependency is stale or missing'', mc_reasons = [''stale dependency'']\<rparr>
      else if \<not> gen_is_valid (rc_generation (ad_current_contract (rt_execution_id r) (rt_adapters r)))
      then \<lparr>mc_outcome = MigrationCompatibilityOutcome.kBlockedResource,
            mc_detail = ''resource contract generation is not current'', mc_reasons = [''stale resource contract'']\<rparr>
      else \<lparr>mc_outcome = MigrationCompatibilityOutcome.kCompatible,
            mc_detail = ''destination is compatible with the preserved state and current generations'',
            mc_reasons = [''compatible'']\<rparr>)"

section \<open>Queries and the worker incarnation\<close>

definition set_worker_incarnation :: "WorkerId \<Rightarrow> WorkerBootId \<Rightarrow> PreemptionRuntime \<Rightarrow> PreemptionRuntime" where
  "set_worker_incarnation worker boot r =
     r\<lparr>rt_worker_id := worker, rt_worker_boot := boot, rt_fenced_worker_boot := id_default\<rparr>"

definition current_preemptibility :: "PreemptionRuntime \<Rightarrow> PreemptibilityClass" where
  "current_preemptibility r = as_preemptibility (assess r)"

definition is_attempt_authoritative :: "PreemptionRuntime \<Rightarrow> bool" where
  "is_attempt_authoritative r =
     av_authoritative (ad_current_attempt_authority (rt_execution_id r) (rt_attempt_id r) (rt_adapters r))"

section \<open>Persistence\<close>

definition snapshot_safe_point :: "SafePoint \<Rightarrow> PersistentSafePoint" where
  "snapshot_safe_point sp =
     \<lparr>psp_id = sp_id sp, psp_generation = sp_generation sp, psp_execution_id = sp_execution_id sp,
      psp_attempt_id = sp_attempt_id sp, psp_worker_id = sp_worker_id sp,
      psp_worker_boot_id = sp_worker_boot_id sp, psp_progress_position = sp_progress_position sp,
      psp_state_capture_required = sp_state_capture_required sp,
      psp_checkpoint_required = sp_checkpoint_required sp, psp_state = sp_state sp, psp_order = sp_order sp\<rparr>"

definition snapshot :: "PreemptionRuntime \<Rightarrow> PersistentState" where
  "snapshot r =
     \<lparr>ps_format_version = PF_PERSISTENCE_VERSION,
      ps_coordinator_epoch = rt_epoch r, ps_policy_generation = rt_policy_generation r,
      ps_workload_id = rt_workload_id r, ps_workload_generation = rt_workload_generation r,
      ps_execution_id = rt_execution_id r, ps_execution_generation = rt_execution_generation r,
      ps_attempt_id = rt_attempt_id r, ps_attempt_generation = rt_attempt_generation r,
      ps_worker_id = rt_worker_id r, ps_worker_boot_id = rt_worker_boot r,
      ps_fenced_worker_boot = rt_fenced_worker_boot r, ps_lifecycle = rt_machine r,
      ps_request_id = (case rt_active_request r of None \<Rightarrow> id_default | Some q \<Rightarrow> req_id q),
      ps_request_generation = (case rt_active_request r of None \<Rightarrow> gen_default | Some q \<Rightarrow> req_generation q),
      ps_quiesced = rt_quiesced r, ps_quiescence_generation = rt_quiescence_generation r,
      ps_state_durable = rt_state_durable r, ps_state_capture_generation = rt_state_capture_generation r,
      ps_checkpoint_ref = rt_checkpoint_ref r, ps_checkpoint_generation = rt_checkpoint_generation r,
      ps_resources_released = rt_resources_released r, ps_release_generation = rt_release_generation r,
      ps_preempted = is_preempted_durable (rt_machine r), ps_resume_generation = rt_resume_generation r,
      ps_durable_progress = rt_durable_position r,
      ps_progress_generation = rt_durable_progress_generation r,
      ps_safe_points = map (snapshot_safe_point \<circ> snd) (rt_safe_points r),
      ps_release_receipts = [], ps_history = rt_history r\<rparr>"

definition restored_safe_point :: "PersistentSafePoint \<Rightarrow> SafePoint" where
  "restored_safe_point psp = default_SafePoint\<lparr>
     sp_id := psp_id psp, sp_generation := psp_generation psp, sp_execution_id := psp_execution_id psp,
     sp_attempt_id := psp_attempt_id psp, sp_worker_id := psp_worker_id psp,
     sp_worker_boot_id := psp_worker_boot_id psp, sp_progress_position := psp_progress_position psp,
     sp_state_capture_required := psp_state_capture_required psp,
     sp_checkpoint_required := psp_checkpoint_required psp, sp_state := psp_state psp, sp_order := psp_order psp\<rparr>"

definition restored_request :: "PersistentState \<Rightarrow> CoordinatorEpoch \<Rightarrow> PreemptionRequest" where
  "restored_request st epoch = default_PreemptionRequest\<lparr>
     req_id := ps_request_id st, req_generation := ps_request_generation st,
     req_workload_id := ps_workload_id st, req_workload_generation := ps_workload_generation st,
     req_execution_id := ps_execution_id st, req_execution_generation := ps_execution_generation st,
     req_attempt_id := ps_attempt_id st, req_attempt_generation := ps_attempt_generation st,
     req_coordinator_epoch := epoch\<rparr>"

text \<open>The overload \<^verbatim>\<open>restore(const PersistentState&)\<close>, in the four groups of assignments of its body.\<close>

definition restore_scalars :: "PersistentState \<Rightarrow> PreemptionRuntime \<Rightarrow> PreemptionRuntime" where
  "restore_scalars st r =
     r\<lparr>rt_workload_id := ps_workload_id st, rt_workload_generation := ps_workload_generation st,
       rt_execution_id := ps_execution_id st, rt_execution_generation := ps_execution_generation st,
       rt_attempt_id := ps_attempt_id st, rt_attempt_generation := ps_attempt_generation st,
       rt_worker_id := ps_worker_id st, rt_worker_boot := ps_worker_boot_id st,
       rt_fenced_worker_boot := ps_fenced_worker_boot st, rt_machine := ps_lifecycle st,
       rt_quiesced := ps_quiesced st, rt_quiescence_generation := ps_quiescence_generation st,
       rt_state_durable := ps_state_durable st, rt_state_capture_generation := ps_state_capture_generation st,
       rt_checkpoint_ref := ps_checkpoint_ref st, rt_checkpoint_generation := ps_checkpoint_generation st,
       rt_resources_released := ps_resources_released st, rt_release_generation := ps_release_generation st,
       rt_resume_generation := ps_resume_generation st, rt_durable_position := ps_durable_progress st,
       rt_durable_progress_generation := ps_progress_generation st, rt_current_position := ps_durable_progress st\<rparr>"

definition restore_request :: "PersistentState \<Rightarrow> PreemptionRuntime \<Rightarrow> PreemptionRuntime" where
  "restore_request st r =
     (if id_is_valid (ps_request_id st)
      then r\<lparr>rt_active_request := Some (restored_request st (rt_epoch r)),
             rt_authoritative_request_generation := ps_request_generation st\<rparr>
      else r)"

definition restore_lists :: "PersistentState \<Rightarrow> PreemptionRuntime \<Rightarrow> PreemptionRuntime" where
  "restore_lists st r =
     r\<lparr>rt_safe_points := foldl (\<lambda>m psp. map_assign (psp_id psp) (restored_safe_point psp) m) [] (ps_safe_points st),
       rt_history := ps_history st\<rparr>"

definition restore_authority :: "PreemptionRuntime \<Rightarrow> PreemptionRuntime" where
  "restore_authority r =
     r\<lparr>rt_adapters := ad_set_authoritative (rt_execution_id r) (rt_attempt_id r) (rt_execution_generation r)
                        (rt_attempt_generation r) (rt_epoch r) (rt_worker_boot r) (rt_adapters r)\<rparr>"

definition restore_state :: "PersistentState \<Rightarrow> PreemptionRuntime \<Rightarrow> PreemptionRuntime" where
  "restore_state st r = restore_authority (restore_lists st (restore_request st (restore_scalars st r)))"

definition persist_bytes :: "PreemptionRuntime \<Rightarrow> byte list" where
  "persist_bytes r = encode (snapshot r)"

definition restore_bytes :: "byte list \<Rightarrow> PreemptionRuntime \<Rightarrow> bool \<times> PreemptionRuntime" where
  "restore_bytes bytes r =
     (case decode bytes of Inl e \<Rightarrow> (False, r) | Inr state \<Rightarrow> (True, restore_state state r))"

text \<open>
  The file operations, over the outcome of the stream calls: \<open>opened\<close> and \<open>good\<close> for the
  output stream (the bytes offered to it are the second result), and the file's contents for
  the input stream, \<open>None\<close> when it cannot be opened.
\<close>

definition save :: "bool \<Rightarrow> bool \<Rightarrow> PreemptionRuntime \<Rightarrow> bool \<times> byte list option" where
  "save opened good r =
     (let bytes = persist_bytes r in if \<not> opened then (False, None) else (good, Some bytes))"

definition load :: "byte list option \<Rightarrow> PreemptionRuntime \<Rightarrow> bool \<times> PreemptionRuntime" where
  "load contents r = (case contents of None \<Rightarrow> (False, r) | Some chars \<Rightarrow> restore_bytes chars r)"

end
