(* ===== verification/PF_Runtime_Steps.thy ===== *)
theory PF_Runtime_Steps
  imports PF_Runtime
begin

text \<open>
  The runtime as a transition system. Each mutating method gets an effect lemma: the runtime it
  leaves behind, with the guarded machine calls resolved, and the fact that it does not throw
  (or exactly when it does). \<open>runtime_op\<close> lists all mutating methods, with an extra operation for other
  holders of the shared adapters object, and \<open>perform\<close> runs one. \<open>reachable\<close> is the set of
  runtimes that sequences of calls can produce in which every image handed to
  \<^verbatim>\<open>restore(const PersistentState&)\<close> passes \<^verbatim>\<open>validate_state\<close>, which that method does not check itself.
\<close>

section \<open>The operations\<close>

datatype runtime_op =
    OpStart WorkloadId WorkloadGeneration ExecutionId ExecutionGeneration AttemptId AttemptGeneration WorkerId WorkerBootId
  | OpDeclare SafePoint
  | OpReach SafePointId u64 bool
  | OpPublish u64 ProgressKind
  | OpRequest PreemptionRequest
  | OpBeginQuiesce
  | OpReportQuiesced QuiescenceReport
  | OpRequestCapture
  | OpReportCaptured CaptureResult
  | OpRequestRelease
  | OpReportReleased
  | OpCommit
  | OpRequestResume
  | OpRevalidate
  | OpRestore
  | OpConfirm
  | OpCancel
  | OpComplete
  | OpSetPriority PriorityGeneration
  | OpSetIncarnation WorkerId WorkerBootId
  | OpRestoreBytes "byte list"
  | OpAdapters ReferenceAdapters
  | OpRestoreState PersistentState

definition error_of :: "PreemptionError + 'a \<Rightarrow> PreemptionError option" where
  "error_of x = (case x of Inl e \<Rightarrow> Some e | Inr _ \<Rightarrow> None)"

fun perform :: "runtime_op \<Rightarrow> PreemptionRuntime \<Rightarrow> PreemptionError option \<times> PreemptionRuntime" where
  "perform (OpStart w wg e eg a ag worker boot) r = (None, start_execution w wg e eg a ag worker boot r)"
| "perform (OpDeclare sp) r = (None, snd (declare_safe_point sp r))"
| "perform (OpReach i pos cap) r = apfst error_of (reach_safe_point i pos cap r)"
| "perform (OpPublish pos kind) r = (None, snd (publish_progress pos kind r))"
| "perform (OpRequest req) r = apfst error_of (request_preemption req r)"
| "perform OpBeginQuiesce r = apfst error_of (begin_quiesce r)"
| "perform (OpReportQuiesced rep) r = apfst error_of (report_quiesced rep r)"
| "perform OpRequestCapture r = apfst error_of (request_state_capture r)"
| "perform (OpReportCaptured c) r = apfst error_of (report_state_captured c r)"
| "perform OpRequestRelease r = apfst error_of (request_release r)"
| "perform OpReportReleased r = apfst error_of (report_released r)"
| "perform OpCommit r = apfst error_of (commit_preempted r)"
| "perform OpRequestResume r = apfst error_of (request_resume r)"
| "perform OpRevalidate r = apfst error_of (revalidate r)"
| "perform OpRestore r = apfst error_of (restore r)"
| "perform OpConfirm r = apfst error_of (confirm_resumed r)"
| "perform OpCancel r = (None, cancel r)"
| "perform OpComplete r = (None, complete r)"
| "perform (OpSetPriority g) r = (None, set_priority_generation g r)"
| "perform (OpSetIncarnation w b) r = (None, set_worker_incarnation w b r)"
| "perform (OpRestoreBytes bs) r = (None, snd (restore_bytes bs r))"
| "perform (OpAdapters a) r = (None, r\<lparr>rt_adapters := a\<rparr>)"
| "perform (OpRestoreState st) r = (None, restore_state st r)"

definition apply_op :: "runtime_op \<Rightarrow> PreemptionRuntime \<Rightarrow> PreemptionRuntime" where
  "apply_op op r = snd (perform op r)"

definition run_ops :: "runtime_op list \<Rightarrow> PreemptionRuntime \<Rightarrow> PreemptionRuntime" where
  "run_ops ops r = foldl (\<lambda>r op. apply_op op r) r ops"

text \<open>
  \<^verbatim>\<open>restore(const PersistentState&)\<close> is public and checks nothing. A call of it is validated when its
  image passes \<^verbatim>\<open>validate_state\<close>, the check that \<^verbatim>\<open>decode\<close> makes for \<^verbatim>\<open>restore_bytes\<close> and \<^verbatim>\<open>load\<close>; the
  calls of all other methods are validated.
\<close>

fun validated_op :: "runtime_op \<Rightarrow> bool" where
  "validated_op (OpRestoreState st) = (validate_state st = PersistenceError.kOk)"
| "validated_op _ = True"

inductive reachable :: "PreemptionRuntime \<Rightarrow> bool" where
  fresh: "reachable (preemption_runtime epoch policy adapters)"
| op: "reachable r \<Longrightarrow> validated_op op \<Longrightarrow> reachable (apply_op op r)"

lemma reachable_run: "reachable r \<Longrightarrow> \<forall>op \<in> set ops. validated_op op \<Longrightarrow> reachable (run_ops ops r)"
  by (induction ops arbitrary: r) (auto simp: run_ops_def intro: reachable.op)

section \<open>Effects\<close>

named_theorems rt_effect "the runtime left behind by a method, with the machine calls resolved"

lemma with_transition_eq:
  "with_transition t r k =
     (if is_allowed (rt_machine r) t then k (r\<lparr>rt_machine := t\<rparr>)
      else (Inl (throw_invalid_transition (LifecycleState_to_string (rt_machine r)) (LifecycleState_to_string t)), r))"
  by (simp add: with_transition_def transition_def)

lemmas op_unfold = with_transition_eq is_allowed_iff returns_def error_of_def Let_def

lemma reach_safe_point_effect [rt_effect]:
  "perform (OpReach i pos cap) r =
     (case map_of (rt_safe_points r) i of
        None \<Rightarrow> (Some \<lparr>err_code = ''unknown_safe_point'', err_message = ''unknown safe point''\<rparr>, r)
      | Some sp \<Rightarrow>
          let sp' = sp\<lparr>sp_state := SafePointState.kValid, sp_progress_position := pos, sp_state_capture_required := cap\<rparr>
          in (None, r\<lparr>rt_safe_points := map_assign i sp' (rt_safe_points r), rt_current_safe_point := Some sp',
                rt_current_position := max (rt_current_position r) pos,
                rt_machine := (if rt_machine r = LifecycleState.kWaitingForSafePoint
                               then LifecycleState.kSafePointReached else rt_machine r)\<rparr>))"
  by (simp add: reach_safe_point_def op_unfold split: option.splits)

lemma publish_progress_effect [rt_effect]:
  "perform (OpPublish pos kind) r =
     (None, if is_attempt_authoritative r \<and> ad_attempt_boot (rt_adapters r) = rt_worker_boot r \<and>
               rt_durable_position r \<le> pos
            then let g = gen_next (rt_progress_generation r)
                 in r\<lparr>rt_current_position := max (rt_current_position r) pos, rt_progress_generation := g,
                      rt_durable_position := (if kind = ProgressKind.kDurable then pos else rt_durable_position r),
                      rt_durable_progress_generation :=
                        (if kind = ProgressKind.kDurable then g else rt_durable_progress_generation r)\<rparr>
            else r)"
  by (auto simp: publish_progress_def is_attempt_authoritative_def ad_current_attempt_authority_def Let_def)

lemma request_preemption_effect [rt_effect]:
  "perform (OpRequest req) r =
     (None, if id_is_valid (req_id req) \<and> gen_is_valid (req_generation req) \<and> validate_authority req r \<and>
               rt_active_request r = None
            then r\<lparr>rt_active_request := Some req, rt_authoritative_request_generation := req_generation req,
                   rt_machine := LifecycleState.kAssessing\<rparr>
            else r)"
  by (auto simp: request_preemption_def op_unfold)

lemma begin_quiesce_effect [rt_effect]:
  "snd (perform OpBeginQuiesce r) =
     (if rt_machine r = LifecycleState.kSafePointReached \<or>
         rt_machine r = LifecycleState.kAssessing \<and> at_valid_safe_point r
      then r\<lparr>rt_machine := LifecycleState.kQuiescing\<rparr>
      else if rt_machine r \<in> {LifecycleState.kAssessing, LifecycleState.kDeferred} \<and> \<not> at_valid_safe_point r
      then r\<lparr>rt_machine := LifecycleState.kWaitingForSafePoint\<rparr>
      else r)"
  by (auto simp: begin_quiesce_def op_unfold)

lemma report_quiesced_effect [rt_effect]:
  "perform (OpReportQuiesced rep) r =
     (None, if qr_worker_boot_id rep = rt_worker_boot r \<and> rt_machine r = LifecycleState.kQuiescing \<and>
               qr_fully_quiesced rep \<and> is_quiesced_all r
            then r\<lparr>rt_machine := LifecycleState.kQuiesced, rt_quiesced := True,
                   rt_quiescence_generation := qr_generation rep\<rparr>
            else r)"
  by (auto simp: report_quiesced_def op_unfold)

definition capture_is_required :: "PreemptionRuntime \<Rightarrow> bool" where
  "capture_is_required r =
     (case rt_current_safe_point r of None \<Rightarrow> False | Some sp \<Rightarrow> sp_state_capture_required sp)"

definition capture_request :: "PreemptionRuntime \<Rightarrow> StateCaptureRequest" where
  "capture_request r =
     \<lparr>scr_required = True, scr_expected_generation = gen_next (rt_checkpoint_generation r),
      scr_capture_generation = GenV (gen_value (gen_next (rt_checkpoint_generation r))),
      scr_execution_generation = rt_execution_generation r, scr_attempt_generation = rt_attempt_generation r\<rparr>"

lemma request_state_capture_effect [rt_effect]:
  "perform OpRequestCapture r =
     (None, if rt_machine r = LifecycleState.kQuiesced
            then if capture_is_required r
                 then r\<lparr>rt_machine := LifecycleState.kCapturingState,
                        rt_adapters := snd (ad_request_capture (capture_request r) (rt_adapters r))\<rparr>
                 else r\<lparr>rt_machine := LifecycleState.kReleasePending, rt_state_durable := True\<rparr>
            else r)"
  by (auto simp: request_state_capture_def capture_is_required_def capture_request_def op_unfold split: prod.splits)

lemma report_state_captured_effect [rt_effect]:
  "perform (OpReportCaptured c) r =
     (None, if rt_machine r = LifecycleState.kCapturingState
            then if cr_success c \<and> cr_completed c \<and>
                    ad_validate_checkpoint (cr_checkpoint_ref c) (cr_checkpoint_generation c) (rt_adapters r)
                 then r\<lparr>rt_machine := LifecycleState.kStateDurable, rt_state_durable := True,
                        rt_state_capture_generation := cr_capture_generation c,
                        rt_checkpoint_ref := cr_checkpoint_ref c,
                        rt_checkpoint_generation := cr_checkpoint_generation c\<rparr>
                 else r\<lparr>rt_machine := LifecycleState.kFailed\<rparr>
            else r)"
  by (auto simp: report_state_captured_def op_unfold)

lemma request_release_effect [rt_effect]:
  "perform OpRequestRelease r =
     (None, if rt_machine r \<in> {LifecycleState.kStateDurable, LifecycleState.kReleasePending} \<and> rt_state_durable r
            then r\<lparr>rt_machine := LifecycleState.kReleasing,
                   rt_adapters := release_leases (rt_execution_id r)
                     (ad_current_contract (rt_execution_id r) (rt_adapters r)) (rt_adapters r)\<rparr>
            else r)"
  by (auto simp: request_release_def op_unfold)

definition all_released :: "PreemptionRuntime \<Rightarrow> bool" where
  "all_released r \<longleftrightarrow> (\<forall>rc \<in> set (map fst (ad_reserved_map (rt_adapters r))). ad_reserved rc (rt_adapters r) = 0)"

lemma report_released_effect [rt_effect]:
  "perform OpReportReleased r =
     (None, if rt_machine r = LifecycleState.kReleasing \<and> all_released r
            then r\<lparr>rt_machine := LifecycleState.kResourcesReleased, rt_resources_released := True\<rparr>
            else r)"
  by (auto simp: report_released_def all_released_def ad_current_contract_def list_ex_iff op_unfold)

lemma commit_preempted_effect [rt_effect]:
  "perform OpCommit r =
     (None, if rt_machine r = LifecycleState.kResourcesReleased \<and> rt_quiesced r \<and> rt_state_durable r \<and>
               rt_resources_released r
            then r\<lparr>rt_machine := LifecycleState.kPreempted, rt_fenced_worker_boot := rt_worker_boot r,
                   rt_adapters := ad_revoke_authority (rt_adapters r)\<rparr>
            else r)"
  by (auto simp: commit_preempted_def ad_fence_attempt_def ad_revoke_authority_def op_unfold)

lemma request_resume_effect [rt_effect]:
  "perform OpRequestResume r =
     (None, if rt_machine r = LifecycleState.kPreempted
            then r\<lparr>rt_machine := LifecycleState.kResumePending, rt_resume_generation := gen_next (rt_resume_generation r)\<rparr>
            else r)"
  by (auto simp: request_resume_def op_unfold)

definition checkpoint_stale :: "PreemptionRuntime \<Rightarrow> bool" where
  "checkpoint_stale r \<longleftrightarrow> id_is_valid (rt_checkpoint_ref r) \<and>
     \<not> ad_validate_checkpoint (rt_checkpoint_ref r) (rt_checkpoint_generation r) (rt_adapters r)"

lemma revalidate_effect [rt_effect]:
  "perform OpRevalidate r =
     (None, if rt_machine r \<in> {LifecycleState.kResumePending, LifecycleState.kRevalidating}
            then if checkpoint_stale r then r\<lparr>rt_machine := LifecycleState.kFailed\<rparr>
                 else if dependency_blocked (ad_resume_dep (rt_adapters r))
                 then r\<lparr>rt_machine := LifecycleState.kRevalidating\<rparr>
                 else r\<lparr>rt_machine := LifecycleState.kRestoring\<rparr>
            else r)"
  by (auto simp: revalidate_def checkpoint_stale_def ad_resume_dependencies_def op_unfold)

lemma restore_effect [rt_effect]:
  "perform OpRestore r =
     (None, if rt_machine r = LifecycleState.kRestoring
            then if checkpoint_stale r then r\<lparr>rt_machine := LifecycleState.kFailed\<rparr>
                 else r\<lparr>rt_machine := LifecycleState.kResumeReady\<rparr>
            else r)"
  by (auto simp: restore_def checkpoint_stale_def ckpt.restore_needs_validate op_unfold)

lemma confirm_resumed_effect [rt_effect]:
  "perform OpConfirm r =
     (None, if rt_machine r \<in> {LifecycleState.kResumeReady, LifecycleState.kResuming}
            then r\<lparr>rt_machine := LifecycleState.kResumed, rt_resumed := True,
                   rt_adapters := snd (ad_grant_fresh_attempt_authority (rt_execution_id r) (rt_attempt_id r)
                     (rt_execution_generation r) (rt_worker_boot r) (rt_adapters r))\<rparr>
            else r)"
  by (auto simp: confirm_resumed_def ad_grant_fresh_attempt_authority_def op_unfold)

lemma cancel_effect [rt_effect]:
  "perform OpCancel r =
     (None, if is_terminal (rt_machine r) then r
            else r\<lparr>rt_machine := LifecycleState.kCancelled,
                   rt_history := rt_history r @ (case rt_active_request r of None \<Rightarrow> [] | Some q \<Rightarrow>
                     [\<lparr>psu_request_id = req_id q, psu_generation = req_generation q,
                       psu_final_state = LifecycleState.kCancelled\<rparr>])\<rparr>)"
  by (auto simp: cancel_def is_terminal_def Let_def split: option.splits)

lemma complete_effect [rt_effect]:
  "perform OpComplete r =
     (None, if is_terminal (rt_machine r) \<or> is_preempted_durable (rt_machine r) \<and> rt_machine r \<noteq> LifecycleState.kPreempted
            then r else r\<lparr>rt_machine := LifecycleState.kAborted\<rparr>)"
  by (auto simp: complete_def is_terminal_def is_preempted_durable_def)

end
