(* ===== verification/PF_Runtime_Safety.thy ===== *)
theory PF_Runtime_Safety
  imports PF_Runtime_Steps
begin

text \<open>
  Safety of the runtime over all its executions: which calls can throw, the invariant of the
  reachable runtimes, monotone durable progress, the simulation by the guarded lifecycle machine,
  the order of the preemption stages and the fencing of a preempted attempt.
\<close>

section \<open>Which calls throw\<close>

lemma begin_quiesce_error:
  "fst (perform OpBeginQuiesce r) \<noteq> None \<longleftrightarrow> rt_machine r = LifecycleState.kDeferred \<and> at_valid_safe_point r"
  by (auto simp: begin_quiesce_def op_unfold)

lemma perform_error:
  "fst (perform op r) \<noteq> None \<longleftrightarrow>
     op = OpBeginQuiesce \<and> rt_machine r = LifecycleState.kDeferred \<and> at_valid_safe_point r \<or>
     (\<exists>i pos cap. op = OpReach i pos cap \<and> map_of (rt_safe_points r) i = None)"
proof (cases op)
  case OpBeginQuiesce
  then show ?thesis using begin_quiesce_error [of r] by simp
next
  case (OpReach i pos cap)
  then show ?thesis by (simp add: rt_effect Let_def del: perform.simps split: option.splits)
qed (simp_all add: rt_effect del: perform.simps(3-16,17-18) split: if_splits)

lemma perform_error_frame: "fst (perform op r) \<noteq> None \<Longrightarrow> snd (perform op r) = r"
  unfolding perform_error by (auto simp: rt_effect simp del: perform.simps)

section \<open>The invariant\<close>

definition flags_ok :: "PreemptionRuntime \<Rightarrow> bool" where
  "flags_ok r \<longleftrightarrow>
     (is_preempted_durable (rt_machine r) \<longrightarrow> rt_quiesced r \<and> rt_state_durable r \<and> rt_resources_released r)"

definition progress_ok :: "PreemptionRuntime \<Rightarrow> bool" where
  "progress_ok r \<longleftrightarrow> rt_durable_position r \<le> rt_current_position r"

definition points_ok :: "(SafePointId, SafePoint) std_map \<Rightarrow> bool" where
  "points_ok m \<longleftrightarrow> map_wf m \<and> (\<forall>(i, sp) \<in> set m. sp_id sp = i \<and> sp_state sp \<noteq> SafePointState.kUnset)"

definition safe_points_ok :: "PreemptionRuntime \<Rightarrow> bool" where
  "safe_points_ok r \<longleftrightarrow> points_ok (rt_safe_points r) \<and>
     (case rt_current_safe_point r of None \<Rightarrow> True | Some sp \<Rightarrow> sp_state sp = SafePointState.kValid)"

definition request_ok :: "PreemptionRuntime \<Rightarrow> bool" where
  "request_ok r = (case rt_active_request r of None \<Rightarrow> True | Some q \<Rightarrow> id_is_valid (req_id q))"

definition runtime_inv :: "PreemptionRuntime \<Rightarrow> bool" where
  "runtime_inv r \<longleftrightarrow> flags_ok r \<and> progress_ok r \<and> safe_points_ok r \<and> request_ok r"

lemma points_ok_Nil [simp]: "points_ok []"
  by (simp add: points_ok_def map_wf_def)

lemma fresh_inv: "runtime_inv (preemption_runtime epoch policy adapters)"
  by (simp add: runtime_inv_def flags_ok_def progress_ok_def safe_points_ok_def request_ok_def
      preemption_runtime_def)

lemma points_ok_assign:
  assumes "points_ok m" "sp_id sp = i" "sp_state sp \<noteq> SafePointState.kUnset"
  shows "points_ok (map_assign i sp m)"
  using assms map_assign_subset [of i sp m] by (auto simp: points_ok_def map_assign_wf)

lemma points_ok_lookup: "points_ok m \<Longrightarrow> map_of m i = Some sp \<Longrightarrow> sp_id sp = i \<and> sp_state sp \<noteq> SafePointState.kUnset"
  by (auto simp: points_ok_def dest!: map_of_SomeD)

lemma restored_points:
  assumes "\<forall>p \<in> set ps. psp_state p \<noteq> SafePointState.kUnset" "points_ok m"
  shows "points_ok (foldl (\<lambda>m p. map_assign (psp_id p) (restored_safe_point p) m) m ps)"
  using assms
proof (induction ps arbitrary: m)
  case (Cons p ps)
  have "points_ok (map_assign (psp_id p) (restored_safe_point p) m)"
    using Cons.prems by (intro points_ok_assign) (simp_all add: restored_safe_point_def)
  then show ?case using Cons.IH Cons.prems(1) by simp
qed simp

lemma restore_state_fields:
  "rt_machine (restore_state st r) = ps_lifecycle st" "rt_quiesced (restore_state st r) = ps_quiesced st"
  "rt_state_durable (restore_state st r) = ps_state_durable st"
  "rt_resources_released (restore_state st r) = ps_resources_released st"
  "rt_durable_position (restore_state st r) = ps_durable_progress st"
  "rt_current_position (restore_state st r) = ps_durable_progress st"
  "rt_current_safe_point (restore_state st r) = rt_current_safe_point r"
  "rt_safe_points (restore_state st r) =
     foldl (\<lambda>m p. map_assign (psp_id p) (restored_safe_point p) m) [] (ps_safe_points st)"
  "rt_active_request (restore_state st r) =
     (if id_is_valid (ps_request_id st) then Some (restored_request st (rt_epoch r)) else rt_active_request r)"
  by (simp_all add: restore_state_def restore_authority_def restore_lists_def restore_request_def restore_scalars_def)

lemma preempted_durable_release_reached: "is_preempted_durable s \<Longrightarrow> is_release_reached s"
  by (auto simp: is_preempted_durable_def is_release_reached_def)

lemma restore_state_inv:
  assumes "image_ok st" "runtime_inv r"
  shows "runtime_inv (restore_state st r)"
proof -
  have "flags_ok (restore_state st r)"
    using assms(1) preempted_durable_release_reached by (auto simp: flags_ok_def restore_state_fields image_ok_def)
  moreover have "safe_points_ok (restore_state st r)"
    using restored_points [of "ps_safe_points st" "[]"] assms
    by (simp add: safe_points_ok_def restore_state_fields image_ok_def runtime_inv_def)
  moreover have "request_ok (restore_state st r)"
    using assms(2) by (simp add: request_ok_def restore_state_fields restored_request_def runtime_inv_def)
  ultimately show ?thesis by (simp add: runtime_inv_def progress_ok_def restore_state_fields)
qed

text \<open>One preservation lemma per part of the invariant, for the operations other than a load.\<close>

lemmas op_frame = start_execution_def declare_safe_point_def set_priority_generation_def
  set_worker_incarnation_def Let_def

definition not_load :: "runtime_op \<Rightarrow> bool" where
  "not_load op = (case op of OpRestoreBytes bs \<Rightarrow> False | OpRestoreState st \<Rightarrow> False | _ \<Rightarrow> True)"

lemma flags_ok_apply:
  assumes "flags_ok r" "not_load op"
  shows "flags_ok (apply_op op r)"
  using assms
  by (cases op)
    (auto simp: apply_op_def rt_effect flags_ok_def op_frame not_load_def
      simp del: perform.simps(3-18) split: option.splits if_splits)

lemma progress_ok_apply:
  assumes "progress_ok r" "not_load op"
  shows "progress_ok (apply_op op r)"
  using assms
  by (cases op)
    (auto simp: apply_op_def rt_effect progress_ok_def op_frame not_load_def max_def
      simp del: perform.simps(3-18) split: option.splits if_splits)

lemma safe_points_ok_apply:
  assumes "safe_points_ok r" "not_load op"
  shows "safe_points_ok (apply_op op r)"
proof (cases op)
  case (OpDeclare sp)
  then show ?thesis using assms(1)
    by (simp add: apply_op_def declare_safe_point_def safe_points_ok_def points_ok_assign)
next
  case (OpReach i pos cap)
  then show ?thesis using assms(1)
    by (auto simp: apply_op_def rt_effect safe_points_ok_def Let_def simp del: perform.simps
        intro!: points_ok_assign dest: points_ok_lookup split: option.splits)
qed (use assms in \<open>simp_all add: apply_op_def rt_effect safe_points_ok_def op_frame not_load_def
      del: perform.simps(3-18)\<close>)

lemma request_ok_apply:
  assumes "request_ok r" "not_load op"
  shows "request_ok (apply_op op r)"
  using assms
  by (cases op)
    (auto simp: apply_op_def rt_effect request_ok_def op_frame not_load_def
      simp del: perform.simps(3-18) split: option.splits if_splits)

lemma runtime_inv_apply:
  assumes "runtime_inv r" "validated_op op"
  shows "runtime_inv (apply_op op r)"
proof (cases "not_load op")
  case True
  then show ?thesis
    using assms by (simp add: runtime_inv_def flags_ok_apply progress_ok_apply safe_points_ok_apply request_ok_apply)
next
  case False
  then consider bs where "op = OpRestoreBytes bs" | st where "op = OpRestoreState st"
    by (cases op) (simp_all add: not_load_def)
  then show ?thesis
  proof cases
    case 1
    show ?thesis
    proof (cases "decode bs")
      case (Inl e)
      then show ?thesis using assms 1 by (simp add: apply_op_def restore_bytes_def)
    next
      case (Inr st)
      then have "image_ok st" using decode_valid validate_state_ok by blast
      then show ?thesis using assms 1 Inr by (simp add: apply_op_def restore_bytes_def restore_state_inv)
    qed
  next
    case 2
    then have "image_ok st" using assms(2) by (simp add: validate_state_ok)
    then show ?thesis using assms(1) 2 by (simp add: apply_op_def restore_state_inv)
  qed
qed

lemma reachable_inv: "reachable r \<Longrightarrow> runtime_inv r"
  by (induction rule: reachable.induct) (auto simp: fresh_inv runtime_inv_apply)

section \<open>Progress is monotone\<close>

lemma durable_position_mono:
  assumes "not_load op"
  shows "rt_durable_position r \<le> rt_durable_position (apply_op op r)"
  using assms
  by (cases op)
    (auto simp: apply_op_def rt_effect op_frame not_load_def
      simp del: perform.simps(3-18) split: option.splits if_splits)

lemma progress_generation_mono:
  "rt_progress_generation r \<le> rt_progress_generation (apply_op op r)"
  by (cases op)
    (auto simp: apply_op_def rt_effect op_frame gen.nxt_le restore_bytes_def restore_state_def
      restore_authority_def restore_lists_def restore_request_def restore_scalars_def
      simp del: perform.simps(3-18) split: option.splits sum.splits if_splits)

lemma durable_position_run:
  assumes "\<forall>op \<in> set ops. not_load op"
  shows "rt_durable_position r \<le> rt_durable_position (run_ops ops r)"
  using assms
proof (induction ops arbitrary: r)
  case (Cons op ops)
  have "rt_durable_position r \<le> rt_durable_position (apply_op op r)"
    using Cons.prems by (simp add: durable_position_mono)
  also have "\<dots> \<le> rt_durable_position (run_ops ops (apply_op op r))" using Cons by simp
  finally show ?case by (simp add: run_ops_def)
qed (simp add: run_ops_def)

section \<open>The lifecycle machine is followed\<close>

text \<open>The operations that set the machine's state directly instead of taking an edge.\<close>

definition resets_machine :: "runtime_op \<Rightarrow> bool" where
  "resets_machine op = (case op of OpStart _ _ _ _ _ _ _ _ \<Rightarrow> True | OpRequest _ \<Rightarrow> True | OpCancel \<Rightarrow> True
     | OpComplete \<Rightarrow> True | OpRestoreBytes _ \<Rightarrow> True | OpRestoreState _ \<Rightarrow> True | _ \<Rightarrow> False)"

lemma edge_path: "is_allowed s t \<Longrightarrow> is_allowed\<^sup>*\<^sup>* s t"
  by blast

lemma two_edge_path: "is_allowed s m \<Longrightarrow> is_allowed m t \<Longrightarrow> is_allowed\<^sup>*\<^sup>* s t"
  by (meson converse_rtranclp_into_rtranclp r_into_rtranclp)

lemma method_paths:
  "is_allowed\<^sup>*\<^sup>* LifecycleState.kQuiesced LifecycleState.kCapturingState"
  "is_allowed\<^sup>*\<^sup>* LifecycleState.kStateDurable LifecycleState.kReleasing"
  "is_allowed\<^sup>*\<^sup>* LifecycleState.kResumePending LifecycleState.kRestoring"
  "is_allowed\<^sup>*\<^sup>* LifecycleState.kResumePending LifecycleState.kFailed"
  "is_allowed\<^sup>*\<^sup>* LifecycleState.kResumeReady LifecycleState.kResumed"
  using two_edge_path [of LifecycleState.kQuiesced LifecycleState.kCaptureRequired LifecycleState.kCapturingState]
    two_edge_path [of LifecycleState.kStateDurable LifecycleState.kReleasePending LifecycleState.kReleasing]
    two_edge_path [of LifecycleState.kResumePending LifecycleState.kRevalidating LifecycleState.kRestoring]
    two_edge_path [of LifecycleState.kResumePending LifecycleState.kRevalidating LifecycleState.kFailed]
    two_edge_path [of LifecycleState.kResumeReady LifecycleState.kResuming LifecycleState.kResumed]
  by (simp_all add: is_allowed_iff)

lemma machine_follows_edges:
  assumes "\<not> resets_machine op"
  shows "is_allowed\<^sup>*\<^sup>* (rt_machine r) (rt_machine (apply_op op r))"
  using assms
  by (cases op)
    (auto simp: apply_op_def rt_effect op_frame resets_machine_def method_paths is_allowed_iff
      simp del: perform.simps(3-18) intro: edge_path split: option.splits)

section \<open>The order of the stages\<close>

text \<open>
  A step of an execution: any method, where a load (\<^verbatim>\<open>restore_bytes\<close>, \<^verbatim>\<open>load\<close> or \<^verbatim>\<open>restore\<close> of an
  unchecked image) must leave a runtime that satisfies \<open>P\<close>.
\<close>

definition step_loading :: "(PreemptionRuntime \<Rightarrow> bool) \<Rightarrow> PreemptionRuntime \<Rightarrow> PreemptionRuntime \<Rightarrow> bool" where
  "step_loading P r r' \<longleftrightarrow> (\<exists>op. r' = apply_op op r \<and> (not_load op \<or> P r'))"

definition idle_states :: "LifecycleState set" where
  "idle_states = {LifecycleState.kInvalid, LifecycleState.kRequested, LifecycleState.kValidatingAuthority,
     LifecycleState.kAssessing, LifecycleState.kDeferred, LifecycleState.kWaitingForSafePoint,
     LifecycleState.kSafePointReached, LifecycleState.kQuiescing, LifecycleState.kCancelled,
     LifecycleState.kAborted, LifecycleState.kFailed, LifecycleState.kSuperseded}"

definition not_quiesced_yet :: "PreemptionRuntime \<Rightarrow> bool" where
  "not_quiesced_yet r \<longleftrightarrow> rt_machine r \<in> idle_states"

definition not_durable_yet :: "PreemptionRuntime \<Rightarrow> bool" where
  "not_durable_yet r \<longleftrightarrow> rt_machine r \<in> idle_states \<union> {LifecycleState.kQuiesced, LifecycleState.kCaptureRequired,
     LifecycleState.kCapturingState}"

definition not_releasing_yet :: "PreemptionRuntime \<Rightarrow> bool" where
  "not_releasing_yet r \<longleftrightarrow> not_durable_yet r \<or> rt_machine r \<in> {LifecycleState.kStateDurable, LifecycleState.kReleasePending}"

definition not_released_yet :: "PreemptionRuntime \<Rightarrow> bool" where
  "not_released_yet r \<longleftrightarrow> not_releasing_yet r \<or> rt_machine r = LifecycleState.kReleasing"

lemmas stage_defs = not_quiesced_yet_def not_durable_yet_def not_releasing_yet_def not_released_yet_def idle_states_def

interpretation quiesced_stage: gated_region "step_loading not_quiesced_yet" not_quiesced_yet "\<lambda>r. rt_machine r = LifecycleState.kQuiesced"
proof
  fix r r' assume "step_loading not_quiesced_yet r r'" "not_quiesced_yet r"
  then obtain op where "r' = apply_op op r" "not_load op \<or> not_quiesced_yet r'" by (auto simp: step_loading_def)
  then show "not_quiesced_yet r' \<or> (\<lambda>r. rt_machine r = LifecycleState.kQuiesced) r'"
    using \<open>not_quiesced_yet r\<close>
    by (cases op) (auto simp: apply_op_def rt_effect op_frame not_load_def stage_defs
        simp del: perform.simps(3-18) split: option.splits)
qed

interpretation durable_stage: gated_region "step_loading not_quiesced_yet" not_durable_yet "\<lambda>r. rt_machine r = LifecycleState.kStateDurable \<or> rt_machine r = LifecycleState.kReleasePending"
proof
  fix r r' assume "step_loading not_quiesced_yet r r'" "not_durable_yet r"
  then obtain op where "r' = apply_op op r" "not_load op \<or> not_quiesced_yet r'" by (auto simp: step_loading_def)
  then show "not_durable_yet r' \<or> (\<lambda>r. rt_machine r = LifecycleState.kStateDurable \<or> rt_machine r = LifecycleState.kReleasePending) r'"
    using \<open>not_durable_yet r\<close>
    by (cases op) (auto simp: apply_op_def rt_effect op_frame not_load_def stage_defs
        simp del: perform.simps(3-18) split: option.splits)
qed

interpretation releasing_stage: gated_region "step_loading not_quiesced_yet" not_releasing_yet "\<lambda>r. rt_machine r = LifecycleState.kReleasing"
proof
  fix r r' assume "step_loading not_quiesced_yet r r'" "not_releasing_yet r"
  then obtain op where "r' = apply_op op r" "not_load op \<or> not_quiesced_yet r'" by (auto simp: step_loading_def)
  then show "not_releasing_yet r' \<or> (\<lambda>r. rt_machine r = LifecycleState.kReleasing) r'"
    using \<open>not_releasing_yet r\<close>
    by (cases op) (auto simp: apply_op_def rt_effect op_frame not_load_def stage_defs
        simp del: perform.simps(3-18) split: option.splits)
qed

interpretation released_stage: gated_region "step_loading not_quiesced_yet" not_released_yet "\<lambda>r. rt_machine r = LifecycleState.kResourcesReleased"
proof
  fix r r' assume "step_loading not_quiesced_yet r r'" "not_released_yet r"
  then obtain op where "r' = apply_op op r" "not_load op \<or> not_quiesced_yet r'" by (auto simp: step_loading_def)
  then show "not_released_yet r' \<or> (\<lambda>r. rt_machine r = LifecycleState.kResourcesReleased) r'"
    using \<open>not_released_yet r\<close>
    by (cases op) (auto simp: apply_op_def rt_effect op_frame not_load_def stage_defs
        simp del: perform.simps(3-18) split: option.splits)
qed

text \<open>
  Every execution that gets past the release went, in this order and without falling back in
  between, through quiescence, a durable boundary, the release and its confirmation.
\<close>

lemma stages_in_order:
  assumes "steps (step_loading not_quiesced_yet) r rs u" "not_quiesced_yet r" "\<not> not_released_yet u"
  shows "\<exists>a q b d c x e y f. rs = a @ q # b @ d # c @ x # e @ y # f \<and>
     rt_machine q = LifecycleState.kQuiesced \<and>
     rt_machine d \<in> {LifecycleState.kStateDurable, LifecycleState.kReleasePending} \<and>
     rt_machine x = LifecycleState.kReleasing \<and> rt_machine y = LifecycleState.kResourcesReleased \<and>
     (\<forall>s \<in> set (q # b @ d # c @ x # e @ y # f). \<not> not_quiesced_yet s)"
proof -
  have "\<not> not_quiesced_yet u" using assms(3) by (auto simp: stage_defs)
  then obtain a q t1 where q: "rs = a @ q # t1" "rt_machine q = LifecycleState.kQuiesced" "steps (step_loading not_quiesced_yet) q t1 u"
    "\<forall>s \<in> set (q # t1). \<not> not_quiesced_yet s"
    using quiesced_stage.last_gate [OF assms(1,2)] by blast
  have "not_durable_yet q" "\<not> not_durable_yet u" using q(2) assms(3) by (auto simp: stage_defs)
  then obtain b d t2 where d: "t1 = b @ d # t2" "steps (step_loading not_quiesced_yet) d t2 u"
    "rt_machine d = LifecycleState.kStateDurable \<or> rt_machine d = LifecycleState.kReleasePending"
    using durable_stage.last_gate [OF q(3)] by blast
  have "not_releasing_yet d" "\<not> not_releasing_yet u" using d(3) assms(3) by (auto simp: stage_defs)
  then obtain c x t3 where x: "t2 = c @ x # t3" "steps (step_loading not_quiesced_yet) x t3 u" "rt_machine x = LifecycleState.kReleasing"
    using releasing_stage.last_gate [OF d(2)] by blast
  have "not_released_yet x" using x(3) by (simp add: not_released_yet_def)
  then obtain e y f where y: "t3 = e @ y # f" "rt_machine y = LifecycleState.kResourcesReleased"
    using released_stage.last_gate [OF x(2) _ assms(3)] by blast
  have "rs = a @ q # b @ d # c @ x # e @ y # f" using q(1) d(1) x(1) y(1) by simp
  moreover have "\<forall>s \<in> set (q # b @ d # c @ x # e @ y # f). \<not> not_quiesced_yet s" using q(4) d(1) x(1) y(1) by simp
  ultimately show ?thesis using q(2) d(3) x(3) y(2) by blast
qed

text \<open>
  The way to RESUMED has one gate too: the revalidation that found the checkpoint current and no
  dependency blocked.
\<close>

definition not_revalidated_yet :: "PreemptionRuntime \<Rightarrow> bool" where
  "not_revalidated_yet r \<longleftrightarrow> rt_machine r \<notin> {LifecycleState.kRestoring, LifecycleState.kResumeReady,
     LifecycleState.kResuming, LifecycleState.kResumed}"

definition revalidated :: "PreemptionRuntime \<Rightarrow> bool" where
  "revalidated r \<longleftrightarrow> rt_machine r = LifecycleState.kRestoring \<and> \<not> checkpoint_stale r \<and>
     \<not> dependency_blocked (ad_resume_dep (rt_adapters r))"

interpretation resume_stage: gated_region "step_loading not_revalidated_yet" not_revalidated_yet revalidated
proof
  fix r r' assume "step_loading not_revalidated_yet r r'" "not_revalidated_yet r"
  then obtain op where "r' = apply_op op r" "not_load op \<or> not_revalidated_yet r'" by (auto simp: step_loading_def)
  then show "not_revalidated_yet r' \<or> revalidated r'"
    using \<open>not_revalidated_yet r\<close>
    by (cases op) (auto simp: apply_op_def rt_effect op_frame not_load_def not_revalidated_yet_def revalidated_def
        checkpoint_stale_def
        simp del: perform.simps(3-18) split: option.splits)
qed

section \<open>Fencing\<close>

text \<open>The operations that can make an attempt authoritative again.\<close>

definition grants_authority :: "runtime_op \<Rightarrow> bool" where
  "grants_authority op = (case op of OpStart _ _ _ _ _ _ _ _ \<Rightarrow> True | OpConfirm \<Rightarrow> True
     | OpRestoreBytes _ \<Rightarrow> True | OpRestoreState _ \<Rightarrow> True | OpAdapters _ \<Rightarrow> True | _ \<Rightarrow> False)"

definition fenced :: "PreemptionRuntime \<Rightarrow> bool" where
  "fenced r \<longleftrightarrow> \<not> ad_attempt_authoritative (rt_adapters r)"

text \<open>Releasing touches nothing of the adapters but the accounting.\<close>

lemma release_leases_accounting:
  "\<exists>m n. release_leases e contract a = a\<lparr>ad_reserved_map := m, ad_released_map := n\<rparr>"
proof -
  have one: "\<exists>m n. snd (ad_request_release e rc u g a) = a\<lparr>ad_reserved_map := m, ad_released_map := n\<rparr>" for rc u g a
    by (cases a) (auto simp: ad_request_release_def Let_def split: option.splits)
  have "\<exists>m n. foldl (\<lambda>a l. snd (ad_request_release e (lease_resource l) (lease_units l) g a)) a ls
      = a\<lparr>ad_reserved_map := m, ad_released_map := n\<rparr>" for g ls
  proof (induction ls arbitrary: a)
    case Nil
    show ?case by (cases a) auto
  next
    case (Cons l ls)
    obtain m n where "snd (ad_request_release e (lease_resource l) (lease_units l) g a)
        = a\<lparr>ad_reserved_map := m, ad_released_map := n\<rparr>"
      using one by blast
    moreover obtain m' n' where "foldl (\<lambda>a l. snd (ad_request_release e (lease_resource l) (lease_units l) g a))
        (a\<lparr>ad_reserved_map := m, ad_released_map := n\<rparr>) ls = a\<lparr>ad_reserved_map := m', ad_released_map := n'\<rparr>"
      using Cons.IH [of "a\<lparr>ad_reserved_map := m, ad_released_map := n\<rparr>"] by auto
    ultimately show ?case by (intro exI [of _ m'] exI [of _ n']) simp
  qed
  then show ?thesis by (simp add: release_leases_def)
qed

lemma release_leases_authority:
  "ad_attempt_authoritative (release_leases e contract a) = ad_attempt_authoritative a"
  using release_leases_accounting [of e contract a] by auto

lemma fenced_apply:
  assumes "fenced r" "\<not> grants_authority op"
  shows "fenced (apply_op op r)"
  using assms
  by (cases op)
    (auto simp: apply_op_def rt_effect op_frame fenced_def grants_authority_def release_leases_authority
      ad_revoke_authority_def ad_request_capture_def simp del: perform.simps(3-18) split: option.splits)

lemma fenced_frozen:
  assumes "fenced r" "\<not> grants_authority op"
  shows "rt_durable_position (apply_op op r) = rt_durable_position r \<and>
         rt_progress_generation (apply_op op r) = rt_progress_generation r"
  using assms
  by (cases op)
    (auto simp: apply_op_def rt_effect op_frame fenced_def grants_authority_def is_attempt_authoritative_def
      ad_current_attempt_authority_def simp del: perform.simps(3-18) split: option.splits)

lemma fenced_run:
  assumes "fenced r" "\<forall>op \<in> set ops. \<not> grants_authority op"
  shows "fenced (run_ops ops r) \<and> rt_durable_position (run_ops ops r) = rt_durable_position r \<and>
         rt_progress_generation (run_ops ops r) = rt_progress_generation r"
  using assms
proof (induction ops arbitrary: r)
  case (Cons op ops)
  then show ?case using fenced_apply [of r op] fenced_frozen [of r op] by (simp add: run_ops_def)
qed (simp add: run_ops_def)

lemma fenced_publish: "fenced r \<Longrightarrow> publish_progress pos kind r = (False, r)"
  by (simp add: publish_progress_def fenced_def ad_current_attempt_authority_def)

end
