(* ===== verification/PF_Runtime_Flows.thy ===== *)
theory PF_Runtime_Flows
  imports PF_Runtime_Safety
begin

text \<open>
  What the operations of the runtime achieve: exactly one admitted request, the release loop
  that empties the contract, a preemption that runs to completion when its evidence is in order,
  a resume that runs under a fresh attempt generation, and the answers of the assessment and of
  the migration check.
\<close>

section \<open>Admission\<close>

lemma request_preemption_result:
  "fst (request_preemption req r) = Inr
     (if \<not> id_is_valid (req_id req) \<or> \<not> gen_is_valid (req_generation req)
      then default_RequestAdmission\<lparr>adm_code := RequestAdmissionCode.kRejectedInvalid\<rparr>
      else if \<not> validate_authority req r
      then default_RequestAdmission\<lparr>adm_code := RequestAdmissionCode.kRejectedStale\<rparr>
      else if rt_active_request r \<noteq> None \<and> \<not> request_matches_current req r
      then default_RequestAdmission\<lparr>adm_code := RequestAdmissionCode.kConflictingDuplicate\<rparr>
      else \<lparr>adm_code = (if rt_active_request r = None then RequestAdmissionCode.kAccepted
                         else RequestAdmissionCode.kIdempotentDuplicate),
            adm_request_id = req_id req, adm_generation = req_generation req\<rparr>)"
  by (auto simp: request_preemption_def op_unfold default_RequestAdmission_def)

lemma validate_authority_iff:
  "validate_authority req r \<longleftrightarrow>
     req_coordinator_epoch req = rt_epoch r \<and> req_execution_id req = rt_execution_id r \<and>
     req_attempt_id req = rt_attempt_id r \<and> req_execution_generation req = rt_execution_generation r \<and>
     req_attempt_generation req = rt_attempt_generation r \<and>
     (req_worker_boot_id req = rt_worker_boot r \<or> \<not> id_is_valid (req_worker_boot_id req))"
  by (auto simp: validate_authority_def)

definition admission_code :: "PreemptionRequest \<Rightarrow> PreemptionRuntime \<Rightarrow> RequestAdmissionCode" where
  "admission_code req r =
     (case fst (request_preemption req r) of Inl _ \<Rightarrow> RequestAdmissionCode.kInvalid | Inr adm \<Rightarrow> adm_code adm)"

lemma admission_codes:
  "admission_code req r = RequestAdmissionCode.kAccepted \<longleftrightarrow>
     id_is_valid (req_id req) \<and> gen_is_valid (req_generation req) \<and> validate_authority req r \<and> rt_active_request r = None"
  by (auto simp: admission_code_def request_preemption_result default_RequestAdmission_def)

lemma not_accepted_frame:
  "admission_code req r \<noteq> RequestAdmissionCode.kAccepted \<Longrightarrow> apply_op (OpRequest req) r = r"
  unfolding admission_codes by (auto simp: apply_op_def rt_effect simp del: perform.simps)

text \<open>Only a restart of the execution clears the active request; cancelling or completing keeps it.\<close>

definition starts_execution :: "runtime_op \<Rightarrow> bool" where
  "starts_execution op = (case op of OpStart _ _ _ _ _ _ _ _ \<Rightarrow> True | _ \<Rightarrow> False)"

lemma active_request_stays:
  assumes "rt_active_request r = Some q" "\<not> starts_execution op" "not_load op"
  shows "rt_active_request (apply_op op r) = Some q"
  using assms
  by (cases op)
    (auto simp: apply_op_def rt_effect op_frame starts_execution_def not_load_def
      simp del: perform.simps(3-18) split: option.splits)

lemma active_request_remains:
  assumes "rt_active_request r \<noteq> None" "\<not> starts_execution op"
  shows "rt_active_request (apply_op op r) \<noteq> None"
proof (cases "not_load op")
  case True
  then show ?thesis using assms active_request_stays by (metis option.exhaust option.distinct(1))
next
  case False
  then have "(\<exists>bs. op = OpRestoreBytes bs) \<or> (\<exists>st. op = OpRestoreState st)" by (cases op) (simp_all add: not_load_def)
  then show ?thesis using assms(1)
    by (auto simp: apply_op_def restore_bytes_def restore_state_fields split: sum.splits)
qed

lemma active_request_run:
  assumes "rt_active_request r \<noteq> None" "\<forall>op \<in> set ops. \<not> starts_execution op"
  shows "rt_active_request (run_ops ops r) \<noteq> None"
  using assms
proof (induction ops arbitrary: r)
  case (Cons op ops)
  then show ?case using active_request_remains [of r op] by (simp add: run_ops_def)
qed (simp add: run_ops_def)

section \<open>Release\<close>

lemma release_leases_all:
  "release_leases e (ad_current_contract e a) a = broker.release_all e (ad_contract_gen a) (ad_reserved_map a) a"
proof -
  have "foldl (\<lambda>a l. snd (ad_request_release e (lease_resource l) (lease_units l) g a)) a
          (map (\<lambda>(rc, n). \<lparr>lease_resource = rc, lease_units = n\<rparr>) ls)
      = foldl (\<lambda>a (rc, u). snd (ad_request_release e rc u g a)) a ls" for g and ls :: "(ResourceClass \<times> u64) list"
    by (induction ls arbitrary: a) auto
  then show ?thesis by (simp add: release_leases_def ad_current_contract_def broker.release_all_def)
qed

lemma release_leases_exact:
  assumes "map_wf (ad_reserved_map a)" "ad_contract_execution a = e"
  shows "ad_reserved c (release_leases e (ad_current_contract e a) a) = 0"
    and "ad_released c (release_leases e (ad_current_contract e a) a) = ad_released c a + ad_reserved c a"
proof -
  have dist: "distinct (map fst (ad_reserved_map a))" using assms(1) by (rule smap.entries_distinct)
  have cur: "ad_current e (ad_contract_gen a) a" using assms(2) by (simp add: ad_current_def)
  have bound: "ad_bound rc a \<and> ad_reserved rc a = u" if "(rc, u) \<in> set (ad_reserved_map a)" for rc u
    using that dist by (simp add: ad_bound_def ad_reserved_def ad_lookup_def)
  have out: "ad_reserved c a = 0" if "c \<notin> fst ` set (ad_reserved_map a)"
    using that by (simp add: ad_reserved_def ad_lookup_def map_of_eq_None_iff [THEN iffD2])
  note exact = broker.release_all_exact [OF dist cur bound, of c]
  show "ad_reserved c (release_leases e (ad_current_contract e a) a) = 0"
    "ad_released c (release_leases e (ad_current_contract e a) a) = ad_released c a + ad_reserved c a"
    using exact out by (auto simp: release_leases_all split: if_splits)
qed

lemma release_completes:
  assumes "rt_machine r \<in> {LifecycleState.kStateDurable, LifecycleState.kReleasePending}" "rt_state_durable r"
    and "map_wf (ad_reserved_map (rt_adapters r))" "ad_contract_execution (rt_adapters r) = rt_execution_id r"
  shows "run_ops [OpRequestRelease, OpReportReleased] r =
     r\<lparr>rt_machine := LifecycleState.kResourcesReleased, rt_resources_released := True,
       rt_adapters := release_leases (rt_execution_id r)
         (ad_current_contract (rt_execution_id r) (rt_adapters r)) (rt_adapters r)\<rparr>"
proof -
  have "apply_op OpRequestRelease r = r\<lparr>rt_machine := LifecycleState.kReleasing,
       rt_adapters := release_leases (rt_execution_id r)
         (ad_current_contract (rt_execution_id r) (rt_adapters r)) (rt_adapters r)\<rparr>"
    using assms(1,2) by (simp add: apply_op_def rt_effect del: perform.simps)
  moreover have "all_released \<dots>"
    using release_leases_exact(1) [OF assms(3,4)] by (simp add: all_released_def)
  ultimately show ?thesis by (simp add: run_ops_def) (simp add: apply_op_def rt_effect del: perform.simps)
qed

section \<open>A preemption that completes\<close>

text \<open>
  The calls a coordinator makes, in order, once a request is admitted at a valid boundary; the
  first of them changes nothing when the quiescing has already begun.
\<close>

definition capture_outcome :: "PreemptionRuntime \<Rightarrow> CaptureResult" where
  "capture_outcome r = fst (ad_request_capture (capture_request r) (rt_adapters r))"

definition preemption_calls :: "QuiescenceReport \<Rightarrow> PreemptionRuntime \<Rightarrow> runtime_op list" where
  "preemption_calls rep r =
     [OpBeginQuiesce, OpReportQuiesced rep, OpRequestCapture, OpReportCaptured (capture_outcome r),
      OpRequestRelease, OpReportReleased, OpCommit]"

definition ready_to_preempt :: "QuiescenceReport \<Rightarrow> PreemptionRuntime \<Rightarrow> bool" where
  "ready_to_preempt rep r \<longleftrightarrow>
     rt_machine r \<in> {LifecycleState.kAssessing, LifecycleState.kSafePointReached, LifecycleState.kQuiescing} \<and>
     at_valid_safe_point r \<and> capture_is_required r \<and>
     qr_worker_boot_id rep = rt_worker_boot r \<and> qr_fully_quiesced rep \<and> is_quiesced_all r"

definition capture_will_validate :: "PreemptionRuntime \<Rightarrow> bool" where
  "capture_will_validate r \<longleftrightarrow>
     ad_capture_default (rt_adapters r) \<and> ad_checkpoint_valid (rt_adapters r) \<and>
     ad_capture_count (rt_adapters r) + 1 \<noteq> 0 \<and>
     ad_current_checkpoint_gen (rt_adapters r) = gen_next (rt_checkpoint_generation r)"

definition contract_is_ours :: "PreemptionRuntime \<Rightarrow> bool" where
  "contract_is_ours r \<longleftrightarrow> map_wf (ad_reserved_map (rt_adapters r)) \<and>
     ad_contract_execution (rt_adapters r) = rt_execution_id r"

lemma quiesce_and_request:
  assumes "ready_to_preempt rep r"
  shows "run_ops [OpBeginQuiesce, OpReportQuiesced rep, OpRequestCapture] r =
     r\<lparr>rt_machine := LifecycleState.kCapturingState, rt_quiesced := True,
       rt_quiescence_generation := qr_generation rep,
       rt_adapters := snd (ad_request_capture (capture_request r) (rt_adapters r))\<rparr>"
proof -
  let ?r1 = "r\<lparr>rt_machine := LifecycleState.kQuiescing\<rparr>"
  let ?r2 = "?r1\<lparr>rt_machine := LifecycleState.kQuiesced, rt_quiesced := True, rt_quiescence_generation := qr_generation rep\<rparr>"
  have same: "?r1 = r" if "rt_machine r = LifecycleState.kQuiescing"
    by (subst that [symmetric]) simp
  have r1: "apply_op OpBeginQuiesce r = ?r1"
    using assms same by (cases "rt_machine r") (simp_all add: apply_op_def begin_quiesce_effect ready_to_preempt_def del: perform.simps)
  have r2: "apply_op (OpReportQuiesced rep) ?r1 = ?r2"
    using assms by (simp add: apply_op_def rt_effect ready_to_preempt_def is_quiesced_all_def del: perform.simps)
  have r3: "apply_op OpRequestCapture ?r2 = ?r2\<lparr>rt_machine := LifecycleState.kCapturingState,
     rt_adapters := snd (ad_request_capture (capture_request r) (rt_adapters r))\<rparr>"
    using assms
    by (simp add: apply_op_def rt_effect ready_to_preempt_def capture_is_required_def capture_request_def del: perform.simps)
  show ?thesis by (simp only: run_ops_def foldl.simps r1 r2 r3) simp
qed

lemma run_ops_append: "run_ops (xs @ ys) r = run_ops ys (run_ops xs r)"
  by (simp add: run_ops_def)

lemma run_ops_single: "run_ops [op] r = apply_op op r"
  by (simp add: run_ops_def)

text \<open>The capture that the adapters report last is the one just requested.\<close>

lemma last_capture_requested: "ad_last_capture (snd (ad_request_capture q a)) = Some (fst (ad_request_capture q a))"
  by (simp add: ad_request_capture_def Let_def)

lemma quiesce_and_capture:
  assumes "ready_to_preempt rep r" "capture_will_validate r"
  shows "run_ops [OpBeginQuiesce, OpReportQuiesced rep, OpRequestCapture, OpReportCaptured (capture_outcome r)] r =
     r\<lparr>rt_machine := LifecycleState.kStateDurable, rt_quiesced := True,
       rt_quiescence_generation := qr_generation rep, rt_state_durable := True,
       rt_state_capture_generation := GenV (gen_value (gen_next (rt_checkpoint_generation r))),
       rt_checkpoint_ref := IdV (ad_capture_count (rt_adapters r) + 1),
       rt_checkpoint_generation := gen_next (rt_checkpoint_generation r),
       rt_adapters := snd (ad_request_capture (capture_request r) (rt_adapters r))\<rparr>"
proof -
  have split: "[OpBeginQuiesce, OpReportQuiesced rep, OpRequestCapture, OpReportCaptured (capture_outcome r)]
      = [OpBeginQuiesce, OpReportQuiesced rep, OpRequestCapture] @ [OpReportCaptured (capture_outcome r)]"
    by simp
  show ?thesis
    using assms(2) unfolding split run_ops_append quiesce_and_request [OF assms(1)] run_ops_single
    by (simp add: apply_op_def rt_effect capture_outcome_def ad_request_capture_def capture_request_def Let_def
        ad_validate_checkpoint_def capture_will_validate_def id_valid_simps del: perform.simps)
qed

text \<open>The runtime when everything but the commit has been done.\<close>

definition released_runtime :: "QuiescenceReport \<Rightarrow> PreemptionRuntime \<Rightarrow> PreemptionRuntime" where
  "released_runtime rep r =
     (let a = snd (ad_request_capture (capture_request r) (rt_adapters r))
      in r\<lparr>rt_machine := LifecycleState.kResourcesReleased, rt_quiesced := True,
           rt_quiescence_generation := qr_generation rep, rt_state_durable := True,
           rt_state_capture_generation := GenV (gen_value (gen_next (rt_checkpoint_generation r))),
           rt_checkpoint_ref := IdV (ad_capture_count (rt_adapters r) + 1),
           rt_checkpoint_generation := gen_next (rt_checkpoint_generation r),
           rt_resources_released := True,
           rt_adapters := release_leases (rt_execution_id r) (ad_current_contract (rt_execution_id r) a) a\<rparr>)"

lemma preemption_releases:
  assumes "ready_to_preempt rep r" "capture_will_validate r" "contract_is_ours r"
  shows "run_ops ([OpBeginQuiesce, OpReportQuiesced rep, OpRequestCapture, OpReportCaptured (capture_outcome r)]
      @ [OpRequestRelease, OpReportReleased]) r = released_runtime rep r"
proof -
  let ?a = "snd (ad_request_capture (capture_request r) (rt_adapters r))"
  have contract: "map_wf (ad_reserved_map ?a)" "ad_contract_execution ?a = rt_execution_id r"
    using assms(3) by (simp_all add: contract_is_ours_def ad_request_capture_def Let_def)
  show ?thesis
    unfolding run_ops_append quiesce_and_capture [OF assms(1,2)]
    by (subst release_completes) (simp_all add: contract released_runtime_def Let_def)
qed

lemma preemption_completes:
  assumes "ready_to_preempt rep r" "capture_will_validate r" "contract_is_ours r"
  shows "run_ops (preemption_calls rep r) r =
     (released_runtime rep r)\<lparr>rt_machine := LifecycleState.kPreempted, rt_fenced_worker_boot := rt_worker_boot r,
       rt_adapters := ad_revoke_authority (rt_adapters (released_runtime rep r))\<rparr>"
proof -
  have split: "preemption_calls rep r =
      ([OpBeginQuiesce, OpReportQuiesced rep, OpRequestCapture, OpReportCaptured (capture_outcome r)]
      @ [OpRequestRelease, OpReportReleased]) @ [OpCommit]"
    by (simp add: preemption_calls_def)
  show ?thesis
    unfolding split run_ops_append [of _ "[OpCommit]"] preemption_releases [OF assms] run_ops_single
    by (simp add: apply_op_def rt_effect released_runtime_def Let_def del: perform.simps)
qed

section \<open>A resume that completes\<close>

definition resume_calls :: "runtime_op list" where
  "resume_calls = [OpRequestResume, OpRevalidate, OpRestore, OpConfirm]"

lemma checkpoint_stale_frame [simp]:
  "checkpoint_stale (r\<lparr>rt_machine := m\<rparr>) = checkpoint_stale r"
  "checkpoint_stale (r\<lparr>rt_resume_generation := g\<rparr>) = checkpoint_stale r"
  by (simp_all add: checkpoint_stale_def)

lemma resume_completes:
  assumes "rt_machine r = LifecycleState.kPreempted" "\<not> checkpoint_stale r"
    and "\<not> dependency_blocked (ad_resume_dep (rt_adapters r))"
  shows "run_ops resume_calls r =
     r\<lparr>rt_machine := LifecycleState.kResumed, rt_resume_generation := gen_next (rt_resume_generation r),
       rt_resumed := True,
       rt_adapters := snd (ad_grant_fresh_attempt_authority (rt_execution_id r) (rt_attempt_id r)
         (rt_execution_generation r) (rt_worker_boot r) (rt_adapters r))\<rparr>"
  using assms by (simp add: resume_calls_def run_ops_def apply_op_def rt_effect del: perform.simps)

text \<open>A blocked resume keeps the preempted state: nothing but the lifecycle stage moves.\<close>

lemma blocked_resume_waits:
  assumes "rt_machine r \<in> {LifecycleState.kResumePending, LifecycleState.kRevalidating}"
    and "\<not> checkpoint_stale r" "dependency_blocked (ad_resume_dep (rt_adapters r))"
  shows "apply_op OpRevalidate r = r\<lparr>rt_machine := LifecycleState.kRevalidating\<rparr>"
  using assms by (simp add: apply_op_def rt_effect del: perform.simps)

section \<open>The preempted runtime\<close>

definition preempted_runtime :: "QuiescenceReport \<Rightarrow> PreemptionRuntime \<Rightarrow> PreemptionRuntime" where
  "preempted_runtime rep r = run_ops (preemption_calls rep r) r"

lemma preempted_runtime_facts:
  assumes "ready_to_preempt rep r" "capture_will_validate r" "contract_is_ours r"
  shows "rt_machine (preempted_runtime rep r) = LifecycleState.kPreempted" "fenced (preempted_runtime rep r)"
    "\<not> checkpoint_stale (preempted_runtime rep r)"
    "ad_resume_dep (rt_adapters (preempted_runtime rep r)) = ad_resume_dep (rt_adapters r)"
    "ad_attempt_attempt_gen (rt_adapters (preempted_runtime rep r)) = ad_attempt_attempt_gen (rt_adapters r)"
    "ad_reserved c (rt_adapters (preempted_runtime rep r)) = 0"
    "rt_durable_position (preempted_runtime rep r) = rt_durable_position r"
    "rt_fenced_worker_boot (preempted_runtime rep r) = rt_worker_boot r"
    "rt_resume_generation (preempted_runtime rep r) = rt_resume_generation r"
proof -
  define a where "a = snd (ad_request_capture (capture_request r) (rt_adapters r))"
  define b where "b = release_leases (rt_execution_id r) (ad_current_contract (rt_execution_id r) a) a"
  have p: "preempted_runtime rep r = (released_runtime rep r)\<lparr>rt_machine := LifecycleState.kPreempted,
      rt_fenced_worker_boot := rt_worker_boot r, rt_adapters := ad_revoke_authority b\<rparr>"
    using preemption_completes [OF assms] by (simp add: preempted_runtime_def released_runtime_def a_def b_def Let_def)
  obtain m n where b: "b = a\<lparr>ad_reserved_map := m, ad_released_map := n\<rparr>"
    using release_leases_accounting b_def by blast
  have a: "ad_resume_dep a = ad_resume_dep (rt_adapters r)" "ad_attempt_attempt_gen a = ad_attempt_attempt_gen (rt_adapters r)"
    "ad_checkpoint_valid a = ad_checkpoint_valid (rt_adapters r)"
    "ad_current_checkpoint_gen a = ad_current_checkpoint_gen (rt_adapters r)"
    "map_wf (ad_reserved_map a)" "ad_contract_execution a = rt_execution_id r"
    using assms(3) by (simp_all add: a_def ad_request_capture_def contract_is_ours_def Let_def)
  show "rt_machine (preempted_runtime rep r) = LifecycleState.kPreempted" "fenced (preempted_runtime rep r)"
    "rt_fenced_worker_boot (preempted_runtime rep r) = rt_worker_boot r"
    "rt_durable_position (preempted_runtime rep r) = rt_durable_position r"
    "rt_resume_generation (preempted_runtime rep r) = rt_resume_generation r"
    by (simp_all add: p fenced_def ad_revoke_authority_def released_runtime_def Let_def)
  show "ad_resume_dep (rt_adapters (preempted_runtime rep r)) = ad_resume_dep (rt_adapters r)"
    "ad_attempt_attempt_gen (rt_adapters (preempted_runtime rep r)) = ad_attempt_attempt_gen (rt_adapters r)"
    by (simp_all add: p b a ad_revoke_authority_def)
  show "\<not> checkpoint_stale (preempted_runtime rep r)"
    using assms(2) by (simp add: p b a checkpoint_stale_def ad_validate_checkpoint_def ad_revoke_authority_def
        capture_will_validate_def released_runtime_def Let_def)
  show "ad_reserved c (rt_adapters (preempted_runtime rep r)) = 0"
    using release_leases_exact(1) [OF a(5,6), of c] by (simp add: p b_def ad_revoke_authority_def ad_reserved_def)
qed

section \<open>The assessment\<close>

lemma assess_preemptibility:
  "as_preemptibility (assess r) =
     (if at_valid_safe_point r
      then if capture_is_required r then PreemptibilityClass.kPreemptibleAfterStateCapture
           else PreemptibilityClass.kPreemptibleNow
      else if rt_safe_points r \<noteq> [] then PreemptibilityClass.kPreemptibleAtSafePoint
      else if rt_machine r \<in> {LifecycleState.kQuiesced, LifecycleState.kStateDurable, LifecycleState.kReleasePending}
      then PreemptibilityClass.kPreemptibleNow
      else PreemptibilityClass.kUnknown)"
  by (auto simp: assess_def assess_boundary_def at_valid_safe_point_def capture_is_required_def Let_def
      split: option.splits)

lemma assess_mode:
  "plan_preservation_mode (as_plan (assess r)) =
     (if at_valid_safe_point r
      then if capture_is_required r then PreservationMode.kCapture else PreservationMode.kAlreadyDurable
      else if rt_safe_points r \<noteq> [] \<or>
        rt_machine r \<in> {LifecycleState.kQuiesced, LifecycleState.kStateDurable, LifecycleState.kReleasePending}
      then PreservationMode.kCapture else PreservationMode.kUnknown)"
  by (auto simp: assess_def assess_boundary_def at_valid_safe_point_def capture_is_required_def Let_def
      split: option.splits)

lemma assess_rollback:
  assumes "progress_ok r"
  shows "unat (plan_max_rollback (as_plan (assess r))) = unat (rt_current_position r) - unat (rt_durable_position r)"
proof -
  have "plan_max_rollback (as_plan (assess r)) = rt_current_position r - rt_durable_position r"
    using assms by (auto simp: assess_def assess_boundary_def Let_def progress_ok_def not_less)
  then show ?thesis using assms unat_sub [of "rt_durable_position r" "rt_current_position r"]
    by (simp add: progress_ok_def)
qed

section \<open>Migration\<close>

lemma migration_compatible_iff:
  "mc_outcome (evaluate_migration_destination dst r) = MigrationCompatibilityOutcome.kCompatible \<longleftrightarrow>
     is_preempted_durable (rt_machine r) \<and> rt_state_durable r \<and>
     id_is_valid (rt_checkpoint_ref r) \<and> gen_is_valid (rt_checkpoint_generation r) \<and>
     ad_capability_generation_current dst (rt_adapters r) \<and> ad_capability_is_compatible dst (rt_adapters r) \<and>
     \<not> dependency_blocked (ad_resume_dep (rt_adapters r)) \<and> gen_is_valid (ad_contract_gen (rt_adapters r))"
  by (auto simp: evaluate_migration_destination_def ad_resume_dependencies_def ad_current_contract_def)

end
