(* ===== verification/PF_Runtime_Persist.thy ===== *)
theory PF_Runtime_Persist
  imports PF_Runtime_Flows
begin

text \<open>
  Stopping and restarting the runtime: the snapshot survives the trip through the stored bytes,
  the exact condition under which the image of a reachable runtime can be loaded again, and what
  a restart does to the authority of the attempt.
\<close>

section \<open>The snapshot of a restored runtime\<close>

lemma snapshot_restored_point [simp]: "snapshot_safe_point (restored_safe_point p) = p"
  by (simp add: snapshot_safe_point_def restored_safe_point_def)

lemma restored_points_of_snapshot:
  assumes "points_ok m"
  shows "foldl (\<lambda>m p. map_assign (psp_id p) (restored_safe_point p) m) [] (map (snapshot_safe_point \<circ> snd) m)
     = map (\<lambda>x. (fst x, restored_safe_point (snapshot_safe_point (snd x)))) m"
proof -
  have keys: "map psp_id (map (snapshot_safe_point \<circ> snd) m) = map fst m"
    using assms by (auto simp: points_ok_def snapshot_safe_point_def)
  have "sorted_wrt (<) (map psp_id (map (snapshot_safe_point \<circ> snd) m))"
    using assms unfolding keys by (simp add: points_ok_def map_wf_def)
  then have "foldl (\<lambda>m p. map_assign (psp_id p) (restored_safe_point p) m) [] (map (snapshot_safe_point \<circ> snd) m)
      = map (\<lambda>p. (psp_id p, restored_safe_point p)) (map (snapshot_safe_point \<circ> snd) m)"
    by (subst foldl_assign_sorted) simp_all
  also have "\<dots> = map (\<lambda>x. (fst x, restored_safe_point (snapshot_safe_point (snd x)))) m"
    using assms by (auto simp: points_ok_def snapshot_safe_point_def)
  finally show ?thesis .
qed

lemma snapshot_points_restored:
  "map (snapshot_safe_point \<circ> snd \<circ> (\<lambda>x. (fst x, restored_safe_point (snapshot_safe_point (snd x))))) m
     = map (snapshot_safe_point \<circ> snd) m"
  by simp

lemma snapshot_restore_state:
  assumes "runtime_inv r" "rt_epoch r0 = rt_epoch r" "rt_policy_generation r0 = rt_policy_generation r"
    and "rt_active_request r = None \<Longrightarrow> rt_active_request r0 = None"
  shows "snapshot (restore_state (snapshot r) r0) = snapshot r"
proof -
  have points: "points_ok (rt_safe_points r)" and req: "request_ok r"
    using assms(1) by (simp_all add: runtime_inv_def safe_points_ok_def)
  show ?thesis
  proof (cases "rt_active_request r")
    case None
    then show ?thesis using assms(2,3,4) restored_points_of_snapshot [OF points]
      by (simp add: snapshot_def restore_state_def restore_authority_def restore_lists_def restore_request_def
          restore_scalars_def id_valid_simps snapshot_points_restored)
  next
    case (Some q)
    then have "id_is_valid (req_id q)" using req by (simp add: request_ok_def)
    then show ?thesis using Some assms(2,3) restored_points_of_snapshot [OF points]
      by (simp add: snapshot_def restore_state_def restore_authority_def restore_lists_def restore_request_def
          restore_scalars_def restored_request_def snapshot_points_restored)
  qed
qed

section \<open>Which snapshots can be loaded\<close>

definition release_stage :: "LifecycleState \<Rightarrow> bool" where
  "release_stage s \<longleftrightarrow> s \<in> {LifecycleState.kReleasePending, LifecycleState.kReleasing, LifecycleState.kResourcesReleased}"

definition loadable :: "PreemptionRuntime \<Rightarrow> bool" where
  "loadable r \<longleftrightarrow>
     (release_stage (rt_machine r) \<longrightarrow> rt_quiesced r \<and> rt_state_durable r \<and> rt_resources_released r) \<and>
     (rt_state_durable r \<longrightarrow> id_is_valid (rt_checkpoint_ref r) \<and> gen_is_valid (rt_checkpoint_generation r)) \<and>
     (\<forall>i \<in> fst ` set (rt_safe_points r). id_is_valid i)"

lemma release_reached_split: "is_release_reached s \<longleftrightarrow> release_stage s \<or> is_preempted_durable s"
  by (auto simp: is_release_reached_def release_stage_def is_preempted_durable_def)

lemma resume_reached_preempted: "is_resume_reached s \<Longrightarrow> is_preempted_durable s"
  by (auto simp: is_resume_reached_def is_preempted_durable_def)

lemma snapshot_fields [simp]:
  "ps_format_version (snapshot r) = PF_PERSISTENCE_VERSION" "ps_lifecycle (snapshot r) = rt_machine r"
  "ps_quiesced (snapshot r) = rt_quiesced r" "ps_state_durable (snapshot r) = rt_state_durable r"
  "ps_resources_released (snapshot r) = rt_resources_released r"
  "ps_preempted (snapshot r) = is_preempted_durable (rt_machine r)"
  "ps_checkpoint_ref (snapshot r) = rt_checkpoint_ref r"
  "ps_checkpoint_generation (snapshot r) = rt_checkpoint_generation r"
  "ps_safe_points (snapshot r) = map (snapshot_safe_point \<circ> snd) (rt_safe_points r)"
  "ps_release_receipts (snapshot r) = []" "ps_history (snapshot r) = rt_history r"
  by (simp_all add: snapshot_def)

lemma snapshot_points_ok:
  assumes "points_ok m"
  shows "distinct (map (id_value \<circ> psp_id) (map (snapshot_safe_point \<circ> snd) m))"
    and "(\<forall>p \<in> set (map (snapshot_safe_point \<circ> snd) m). id_is_valid (psp_id p) \<and> psp_state p \<noteq> SafePointState.kUnset)
      \<longleftrightarrow> (\<forall>i \<in> fst ` set m. id_is_valid i)"
proof -
  have "map (id_value \<circ> psp_id) (map (snapshot_safe_point \<circ> snd) m) = map id_value (map fst m)"
    using assms by (auto simp: points_ok_def snapshot_safe_point_def)
  moreover have "distinct (map fst m)" using assms smap.entries_distinct [of m] by (simp add: points_ok_def)
  then have "distinct (map id_value (map fst m))"
    by (rule distinct_map [THEN iffD2, OF conjI]) (simp add: inj_on_def Id.expand)
  ultimately show "distinct (map (id_value \<circ> psp_id) (map (snapshot_safe_point \<circ> snd) m))" by (simp only:)
  show "(\<forall>p \<in> set (map (snapshot_safe_point \<circ> snd) m). id_is_valid (psp_id p) \<and> psp_state p \<noteq> SafePointState.kUnset)
      \<longleftrightarrow> (\<forall>i \<in> fst ` set m. id_is_valid i)"
    using assms by (fastforce simp: points_ok_def snapshot_safe_point_def)
qed

lemma snapshot_image_ok:
  assumes "runtime_inv r"
  shows "image_ok (snapshot r) \<longleftrightarrow> loadable r"
proof -
  have points: "points_ok (rt_safe_points r)" and flags: "flags_ok r"
    using assms by (simp_all add: runtime_inv_def safe_points_ok_def)
  show ?thesis
    using flags resume_reached_preempted [of "rt_machine r"] snapshot_points_ok [OF points]
    unfolding image_ok_def loadable_def release_reached_split flags_ok_def snapshot_fields by auto
qed

definition stored_size :: "PreemptionRuntime \<Rightarrow> nat" where
  "stored_size r = 208 + 70 * length (rt_safe_points r) + 20 * length (rt_history r)"

lemma snapshot_size: "image_size (snapshot r) = stored_size r"
  by (simp add: image_size_def stored_size_def)

lemma decode_persist_bytes:
  assumes "stored_size r < 2 ^ 32 + 16" "runtime_inv r"
  shows "decode (persist_bytes r) = (if loadable r then Inr (snapshot r) else Inl (validate_state (snapshot r)))"
proof -
  have "storable (snapshot r)" using assms(1) by (simp add: storable_iff snapshot_size)
  then have "decode (persist_bytes r) = verdict (snapshot r)"
    using decode_payload_enc [of "snapshot r"] encode_eq_seal [of "snapshot r"] decode_seal [of "payload_bytes (snapshot r)"]
    by (simp add: persist_bytes_def storable_def snapshot_def)
  then show ?thesis using snapshot_image_ok [OF assms(2)] by (simp add: verdict_def validate_state_ok)
qed

lemma restore_persist_bytes:
  assumes "stored_size r < 2 ^ 32 + 16" "runtime_inv r"
  shows "restore_bytes (persist_bytes r) r0 = (if loadable r then (True, restore_state (snapshot r) r0) else (False, r0))"
  using decode_persist_bytes [OF assms] by (simp add: restore_bytes_def)

section \<open>Authority after a restart\<close>

lemma restore_state_authoritative: "is_attempt_authoritative (restore_state st r)"
  by (simp add: restore_state_def restore_authority_def is_attempt_authoritative_def ad_set_authoritative_def
      ad_current_attempt_authority_def restore_lists_def restore_request_def restore_scalars_def)

lemma restore_state_boot: "ad_attempt_boot (rt_adapters (restore_state st r)) = rt_worker_boot (restore_state st r)"
  by (simp add: restore_state_def restore_authority_def ad_set_authoritative_def)

lemma restore_state_publish:
  "fst (publish_progress pos kind (restore_state st r)) \<longleftrightarrow> ps_durable_progress st \<le> pos"
  using restore_state_authoritative [of st r] restore_state_boot [of st r]
  by (auto simp: publish_progress_def is_attempt_authoritative_def ad_current_attempt_authority_def
      restore_state_fields Let_def)

end
