(* ===== verification/PF_Runtime_Props.thy ===== *)
theory PF_Runtime_Props
  imports PF_Runtime_Persist
begin

text \<open>
  The properties of the runtime, each over every execution or every state it can be called in,
  with a concrete execution that meets their hypotheses: an execution is started, publishes
  progress, reaches its safe point and is asked to stop (\<open>sample_assessing\<close>), and is preempted
  (\<open>sample_preempted\<close>).
\<close>

section \<open>A concrete execution\<close>

definition sample_adapters :: ReferenceAdapters where
  "sample_adapters = default_ReferenceAdapters\<lparr>ad_quiesced := map (\<lambda>c. (c, True)) ad_categories,
     ad_contract_execution := IdV 20, ad_contract_gen := GenV 1,
     ad_reserved_map := [(ResourceClass.kDeviceMemory, 100)],
     ad_resume_dep := default_DependencyView\<lparr>dv_status := DependencyStatus.kCurrent\<rparr>\<rparr>"

definition sample_request :: PreemptionRequest where
  "sample_request = default_PreemptionRequest\<lparr>req_id := IdV 1000, req_generation := GenV 1,
     req_execution_id := IdV 20, req_execution_generation := GenV 1, req_attempt_id := IdV 30,
     req_attempt_generation := GenV 1, req_coordinator_epoch := GenV 100\<rparr>"

definition sample_fresh :: PreemptionRuntime where
  "sample_fresh = preemption_runtime (GenV 100) (GenV 1) sample_adapters"

definition sample_point :: SafePoint where
  "sample_point = default_SafePoint\<lparr>sp_id := IdV 80\<rparr>"

definition sample_prefix :: "runtime_op list" where
  "sample_prefix = [OpStart (IdV 10) (GenV 1) (IdV 20) (GenV 1) (IdV 30) (GenV 1) (IdV 40) (IdV 50),
     OpDeclare sample_point, OpPublish 100 ProgressKind.kDurable, OpReach (IdV 80) 120 True, OpRequest sample_request]"

text \<open>The runtime after these calls, as one value.\<close>

definition sample_assessing :: PreemptionRuntime where
  "sample_assessing = (let sp = sample_point\<lparr>sp_state := SafePointState.kValid, sp_progress_position := 120,
       sp_state_capture_required := True\<rparr>
     in sample_fresh\<lparr>rt_workload_id := IdV 10, rt_workload_generation := GenV 1, rt_execution_id := IdV 20,
       rt_execution_generation := GenV 1, rt_attempt_id := IdV 30, rt_attempt_generation := GenV 1,
       rt_worker_id := IdV 40, rt_worker_boot := IdV 50, rt_machine := LifecycleState.kAssessing,
       rt_active_request := Some sample_request, rt_authoritative_request_generation := GenV 1,
       rt_safe_points := [(IdV 80, sp)], rt_current_safe_point := Some sp,
       rt_current_position := 120, rt_durable_position := 100,
       rt_progress_generation := GenV 1, rt_durable_progress_generation := GenV 1,
       rt_adapters := ad_set_authoritative (IdV 20) (IdV 30) (GenV 1) (GenV 1) (GenV 100) (IdV 50) sample_adapters\<rparr>)"

lemma sample_prefix_run: "run_ops sample_prefix sample_fresh = sample_assessing"
  by (simp add: sample_prefix_def run_ops_def apply_op_def rt_effect start_execution_def declare_safe_point_def
      sample_fresh_def preemption_runtime_def sample_point_def sample_assessing_def Let_def is_attempt_authoritative_def
      ad_current_attempt_authority_def ad_set_authoritative_def gen_next_def gen_default_def kMaxValue_def
      sample_request_def id_valid_simps gen_valid_simps validate_authority_def default_PreemptionRequest_def
      default_SafePoint_def id_default_def max_def del: perform.simps(3-18))

definition sample_report :: QuiescenceReport where
  "sample_report = default_QuiescenceReport\<lparr>qr_generation := GenV 1, qr_worker_boot_id := IdV 50, qr_fully_quiesced := True\<rparr>"

lemma sample_reachable: "reachable sample_assessing"
  using reachable_run [OF reachable.fresh, of sample_prefix "GenV 100" "GenV 1" sample_adapters]
  by (simp add: sample_prefix_run flip: sample_fresh_def) (simp add: sample_prefix_def)

lemma sample_ready:
  "ready_to_preempt sample_report sample_assessing" "capture_will_validate sample_assessing" "contract_is_ours sample_assessing"
  by (simp_all add: sample_assessing_def Let_def ready_to_preempt_def at_valid_safe_point_def capture_is_required_def
      sample_report_def is_quiesced_all_def ad_is_quiesced_def ad_set_authoritative_def sample_adapters_def
      default_ReferenceAdapters_def ad_categories_def capture_will_validate_def contract_is_ours_def sample_fresh_def
      preemption_runtime_def gen_next_def gen_default_def kMaxValue_def map_wf_def)

definition sample_preempted :: PreemptionRuntime where
  "sample_preempted = preempted_runtime sample_report sample_assessing"

lemma sample_preempted_reachable: "reachable sample_preempted"
  unfolding sample_preempted_def preempted_runtime_def 
  by (rule reachable_run [OF sample_reachable]) (simp add: preemption_calls_def)

lemmas sample_preempted_facts = preempted_runtime_facts [OF sample_ready, folded sample_preempted_def]

lemma sample_dependency: "\<not> dependency_blocked (ad_resume_dep (rt_adapters sample_preempted))"
  by (simp add: sample_preempted_facts(4) sample_assessing_def Let_def ad_set_authoritative_def sample_adapters_def
      dependency_blocked_def)


section \<open>Safety\<close>

text \<open>
  C1: in every runtime that a sequence of calls of its methods can produce, with changes of the shared
  adapters by others and loads of stored images in between, a lifecycle state from PREEMPTED to RESUMED
  implies that quiescence was reported, that a durable boundary exists and that the resources
  were released. One method needs a condition: an image that is handed directly to
  restore(const PersistentState&), which checks nothing, must pass validate_state, as the images that
  restore_bytes and load decode do.
\<close>
theorem preempted_implies_boundary:
  assumes "reachable r" "is_preempted_durable (rt_machine r)"
  shows "rt_quiesced r \<and> rt_state_durable r \<and> rt_resources_released r"
  using reachable_inv [OF assms(1)] assms(2) by (simp add: runtime_inv_def flags_ok_def)

theorem preempted_implies_boundary_witness:
  "rt_quiesced sample_preempted \<and> rt_state_durable sample_preempted \<and> rt_resources_released sample_preempted"
  by (rule preempted_implies_boundary [OF sample_preempted_reachable]) (simp add: sample_preempted_facts(1))

text \<open>
  C17: the runtime's data is well formed in every runtime that calls can produce (with the
  condition that images handed directly to restore pass validate_state). The table of safe
  points has strictly increasing keys, every safe point lies under its own identity and has a
  state, so looking an identity up and iterating over the table agree; a current safe point is VALID;
  an active request has a valid identity; and the durable position is not ahead of the current one.
\<close>
theorem runtime_well_formed:
  assumes "reachable r"
  shows "map_wf (rt_safe_points r) \<and>
     (\<forall>i sp. map_of (rt_safe_points r) i = Some sp \<longleftrightarrow> (i, sp) \<in> set (rt_safe_points r)) \<and>
     (\<forall>(i, sp) \<in> set (rt_safe_points r). sp_id sp = i \<and> sp_state sp \<noteq> SafePointState.kUnset) \<and>
     pred_option (\<lambda>sp. sp_state sp = SafePointState.kValid) (rt_current_safe_point r) \<and>
     pred_option (\<lambda>req. id_is_valid (req_id req)) (rt_active_request r) \<and>
     rt_durable_position r \<le> rt_current_position r"
  using reachable_inv [OF assms] smap.find_iff_entry [of "rt_safe_points r"]
  by (auto simp: runtime_inv_def safe_points_ok_def points_ok_def request_ok_def progress_ok_def split: option.splits)

theorem runtime_well_formed_witness:
  "map_wf (rt_safe_points sample_assessing) \<and> rt_safe_points sample_assessing \<noteq> [] \<and>
   rt_durable_position sample_assessing < rt_current_position sample_assessing"
  using runtime_well_formed [OF sample_reachable] by (simp add: sample_assessing_def Let_def)

text \<open>
  C2: the stages cannot be skipped or reordered. An execution may call any methods, but its loads (of
  bytes or of an image) must leave a runtime that is not yet quiesced, since a load can install any
  stage. If it starts not yet quiesced and is found past the release, then after its last unquiesced state
  it went through QUIESCED, then through STATE_DURABLE or RELEASE_PENDING, then RELEASING, then
  RESOURCES_RELEASED.
\<close>
theorem stage_order:
  assumes "steps (step_loading not_quiesced_yet) r rs u" "not_quiesced_yet r" "\<not> not_released_yet u"
  shows "\<exists>a q b d c x e y f. rs = a @ q # b @ d # c @ x # e @ y # f \<and>
     rt_machine q = LifecycleState.kQuiesced \<and>
     rt_machine d \<in> {LifecycleState.kStateDurable, LifecycleState.kReleasePending} \<and>
     rt_machine x = LifecycleState.kReleasing \<and> rt_machine y = LifecycleState.kResourcesReleased \<and>
     (\<forall>s \<in> set (q # b @ d # c @ x # e @ y # f). \<not> not_quiesced_yet s)"
  using assms by (rule stages_in_order)

fun run_states :: "runtime_op list \<Rightarrow> PreemptionRuntime \<Rightarrow> PreemptionRuntime list" where
  "run_states [] r = []"
| "run_states (op # ops) r = apply_op op r # run_states ops (apply_op op r)"

lemma run_states_steps: "\<forall>op \<in> set ops. not_load op \<Longrightarrow> steps (step_loading P) r (run_states ops r) (run_ops ops r)"
  by (induction ops arbitrary: r) (auto simp: run_ops_def step_loading_def)

theorem stage_order_witness:
  "\<exists>q \<in> set (run_states (preemption_calls sample_report sample_assessing) sample_assessing).
     rt_machine q = LifecycleState.kQuiesced"
proof -
  have "steps (step_loading not_quiesced_yet) sample_assessing (run_states (preemption_calls sample_report sample_assessing) sample_assessing) sample_preempted"
    unfolding sample_preempted_def preempted_runtime_def
    by (rule run_states_steps) (simp add: preemption_calls_def not_load_def)
  moreover have "not_quiesced_yet sample_assessing"
    by (simp add: not_quiesced_yet_def idle_states_def sample_assessing_def Let_def)
  moreover have "\<not> not_released_yet sample_preempted" by (simp add: stage_defs sample_preempted_facts(1))
  ultimately show ?thesis using stage_order by fastforce
qed

text \<open>
  C3: once a preemption is committed the attempt is fenced. Until an operation that grants
  authority anew (a restart of the execution, a confirmed resume, a load, or a change of the
  adapters from outside), every publication of progress is refused and the durable progress
  stays what it was.
\<close>
theorem preempted_attempt_is_fenced:
  assumes "rt_machine r = LifecycleState.kResourcesReleased"
    and "rt_quiesced r" "rt_state_durable r" "rt_resources_released r"
    and "\<forall>op \<in> set ops. \<not> grants_authority op"
  shows "publish_progress pos kind (run_ops (OpCommit # ops) r) = (False, run_ops (OpCommit # ops) r) \<and>
     rt_durable_position (run_ops (OpCommit # ops) r) = rt_durable_position r"
proof -
  have commit: "fenced (apply_op OpCommit r)" "rt_durable_position (apply_op OpCommit r) = rt_durable_position r"
    using assms(1-4) by (simp_all add: apply_op_def rt_effect fenced_def ad_revoke_authority_def del: perform.simps)
  have "run_ops (OpCommit # ops) r = run_ops ops (apply_op OpCommit r)" by (simp add: run_ops_def)
  then show ?thesis using fenced_run [OF commit(1) assms(5)] commit(2) fenced_publish by simp
qed

theorem preempted_attempt_is_fenced_witness:
  "fst (publish_progress 500 ProgressKind.kDurable
     (run_ops [OpCommit, OpRequestResume, OpRevalidate] (released_runtime sample_report sample_assessing))) = False"
  using preempted_attempt_is_fenced [of "released_runtime sample_report sample_assessing" "[OpRequestResume, OpRevalidate]"
      500 ProgressKind.kDurable]
  by (simp add: released_runtime_def Let_def grants_authority_def)

text \<open>
  C10: durable progress never moves backwards: over any sequence of calls without a load the
  durable position does not decrease.
\<close>
theorem durable_progress_monotone:
  assumes "\<forall>op \<in> set ops. not_load op"
  shows "rt_durable_position r \<le> rt_durable_position (run_ops ops r)"
  using assms by (rule durable_position_run)

theorem durable_progress_monotone_witness:
  "rt_durable_position sample_fresh \<le> rt_durable_position (run_ops sample_prefix sample_fresh)"
  by (rule durable_progress_monotone) (simp add: sample_prefix_def not_load_def)

text \<open>
  C13: a method throws in exactly two situations, a safe point that was never declared and a
  quiesce request in DEFERRED at a valid safe point, and a method that throws changes nothing.
\<close>
theorem only_two_calls_throw:
  "(fst (perform op r) \<noteq> None \<longleftrightarrow>
     op = OpBeginQuiesce \<and> rt_machine r = LifecycleState.kDeferred \<and> at_valid_safe_point r \<or>
     (\<exists>i pos cap. op = OpReach i pos cap \<and> map_of (rt_safe_points r) i = None)) \<and>
   (fst (perform op r) = None \<or> snd (perform op r) = r)"
  using perform_error [of op r] perform_error_frame [of op r] by blast

section \<open>Behaviour\<close>

text \<open>
  C7: a preemption of a workload whose evidence is in order always completes. At a valid safe
  point that requires a capture, with quiescence reported by the current boot, a capture of the
  current checkpoint generation and the contract of this execution, the seven calls end in
  PREEMPTED with all three boundaries, a valid checkpoint, no reserved unit left, the attempt
  fenced under the worker's boot id and the durable progress untouched.
\<close>
theorem preemption_runs_to_completion:
  assumes "ready_to_preempt rep r" "capture_will_validate r" "contract_is_ours r"
  defines "p \<equiv> run_ops (preemption_calls rep r) r"
  shows "rt_machine p = LifecycleState.kPreempted \<and> rt_quiesced p \<and> rt_state_durable p \<and> rt_resources_released p \<and>
     id_is_valid (rt_checkpoint_ref p) \<and> \<not> checkpoint_stale p \<and> (\<forall>c. ad_reserved c (rt_adapters p) = 0) \<and>
     \<not> is_attempt_authoritative p \<and> rt_fenced_worker_boot p = rt_worker_boot r \<and>
     rt_durable_position p = rt_durable_position r"
proof -
  note facts = preempted_runtime_facts [OF assms(1-3), unfolded preempted_runtime_def, folded p_def]
  have "p = (released_runtime rep r)\<lparr>rt_machine := LifecycleState.kPreempted, rt_fenced_worker_boot := rt_worker_boot r,
       rt_adapters := ad_revoke_authority (rt_adapters (released_runtime rep r))\<rparr>"
    unfolding p_def by (rule preemption_completes [OF assms(1-3)])
  then have "rt_quiesced p \<and> rt_state_durable p \<and> rt_resources_released p \<and> id_is_valid (rt_checkpoint_ref p)"
    using assms(2) by (simp add: released_runtime_def Let_def capture_will_validate_def id_valid_simps)
  then show ?thesis
    using facts by (simp add: fenced_def is_attempt_authoritative_def ad_current_attempt_authority_def)
qed

theorem preemption_runs_to_completion_witness:
  "rt_machine (run_ops (preemption_calls sample_report sample_assessing) sample_assessing) = LifecycleState.kPreempted"
  using preemption_runs_to_completion [OF sample_ready] by simp

text \<open>
  C8: a resume of a preempted execution whose checkpoint is current and whose dependencies are
  not blocked ends in RESUMED, under a resume generation and an attempt generation that are
  strictly newer (unless the counter is saturated), authoritative for the current worker boot,
  which may publish again from the durable position on.
\<close>
theorem resume_is_fresh:
  assumes "rt_machine r = LifecycleState.kPreempted" "\<not> checkpoint_stale r"
    and "\<not> dependency_blocked (ad_resume_dep (rt_adapters r))"
    and "gen_value (rt_resume_generation r) \<noteq> kMaxValue" "gen_value (ad_attempt_attempt_gen (rt_adapters r)) \<noteq> kMaxValue"
  defines "q \<equiv> run_ops resume_calls r"
  shows "rt_machine q = LifecycleState.kResumed \<and> rt_resume_generation r < rt_resume_generation q \<and>
     ad_attempt_attempt_gen (rt_adapters r) < ad_attempt_attempt_gen (rt_adapters q) \<and> is_attempt_authoritative q \<and>
     rt_durable_position q = rt_durable_position r \<and>
     (fst (publish_progress pos kind q) \<longleftrightarrow> rt_durable_position r \<le> pos)"
proof -
  have q: "q = r\<lparr>rt_machine := LifecycleState.kResumed, rt_resume_generation := gen_next (rt_resume_generation r),
       rt_resumed := True,
       rt_adapters := snd (ad_grant_fresh_attempt_authority (rt_execution_id r) (rt_attempt_id r)
         (rt_execution_generation r) (rt_worker_boot r) (rt_adapters r))\<rparr>"
    unfolding q_def by (rule resume_completes [OF assms(1-3)])
  show ?thesis using assms(4,5)
    by (auto simp: q gen.nxt_less ad_grant_fresh_attempt_authority_def is_attempt_authoritative_def ad_current_attempt_authority_def
        publish_progress_def Let_def)
qed

theorem resume_is_fresh_witness:
  "rt_machine (run_ops resume_calls sample_preempted) = LifecycleState.kResumed"
proof -
  have "gen_value (rt_resume_generation sample_preempted) \<noteq> kMaxValue"
    "gen_value (ad_attempt_attempt_gen (rt_adapters sample_preempted)) \<noteq> kMaxValue"
    unfolding sample_preempted_facts(5,9)
    by (simp_all add: sample_assessing_def Let_def ad_set_authoritative_def kMaxValue_def sample_fresh_def
        preemption_runtime_def gen_default_def)
  then show ?thesis
    using resume_is_fresh [OF sample_preempted_facts(1,3) sample_dependency] by blast
qed

text \<open>
  C9: no way to RESUMED around the revalidation. An execution may call any methods, but its loads must
  leave a runtime outside the tail RESTORING, RESUME_READY, RESUMING, RESUMED, since a load can install
  any stage. If it starts outside the tail and ends in it, then some state of it had just left the
  revalidation: no dependency was blocked, and the checkpoint, if the execution has one (there is none
  when the boundary required no capture), was validated against the current generation; and from
  there on the execution stayed in the tail.
\<close>
theorem resume_needs_revalidation:
  assumes "steps (step_loading not_revalidated_yet) r rs u" "not_revalidated_yet r" "\<not> not_revalidated_yet u"
  shows "\<exists>a t b. rs = a @ t # b \<and> rt_machine t = LifecycleState.kRestoring \<and>
     (id_is_valid (rt_checkpoint_ref t) \<longrightarrow>
        ad_validate_checkpoint (rt_checkpoint_ref t) (rt_checkpoint_generation t) (rt_adapters t)) \<and>
     \<not> dependency_blocked (ad_resume_dep (rt_adapters t)) \<and> (\<forall>s \<in> set (t # b). \<not> not_revalidated_yet s)"
  using resume_stage.last_gate [OF assms] unfolding revalidated_def checkpoint_stale_def by blast

theorem resume_needs_revalidation_witness:
  "\<exists>t \<in> set (run_states resume_calls sample_preempted). rt_machine t = LifecycleState.kRestoring"
proof -
  have "steps (step_loading not_revalidated_yet) sample_preempted (run_states resume_calls sample_preempted) (run_ops resume_calls sample_preempted)"
    by (rule run_states_steps) (simp add: resume_calls_def not_load_def)
  moreover have "not_revalidated_yet sample_preempted" by (simp add: not_revalidated_yet_def sample_preempted_facts(1))
  moreover have "\<not> not_revalidated_yet (run_ops resume_calls sample_preempted)"
    unfolding resume_completes [OF sample_preempted_facts(1,3) sample_dependency] by (simp add: not_revalidated_yet_def)
  ultimately show ?thesis using resume_needs_revalidation by fastforce
qed

section \<open>Admission\<close>

text \<open>
  C12: the admission of a request is decided by its ids, its authority (epoch, execution, attempt,
  their generations and, when given, the worker boot) and the request already active, in this
  order of precedence; only an accepted request changes the runtime.
\<close>
theorem admission_decision:
  "admission_code req r =
     (if \<not> id_is_valid (req_id req) \<or> \<not> gen_is_valid (req_generation req) then RequestAdmissionCode.kRejectedInvalid
      else if \<not> (req_coordinator_epoch req = rt_epoch r \<and> req_execution_id req = rt_execution_id r \<and>
          req_attempt_id req = rt_attempt_id r \<and> req_execution_generation req = rt_execution_generation r \<and>
          req_attempt_generation req = rt_attempt_generation r \<and>
          (req_worker_boot_id req = rt_worker_boot r \<or> \<not> id_is_valid (req_worker_boot_id req)))
      then RequestAdmissionCode.kRejectedStale
      else if rt_active_request r = None then RequestAdmissionCode.kAccepted
      else if request_matches_current req r then RequestAdmissionCode.kIdempotentDuplicate
      else RequestAdmissionCode.kConflictingDuplicate) \<and>
   apply_op (OpRequest req) r =
     (if admission_code req r = RequestAdmissionCode.kAccepted
      then r\<lparr>rt_active_request := Some req, rt_authoritative_request_generation := req_generation req,
             rt_machine := LifecycleState.kAssessing\<rparr>
      else r)"
proof
  show "apply_op (OpRequest req) r =
     (if admission_code req r = RequestAdmissionCode.kAccepted
      then r\<lparr>rt_active_request := Some req, rt_authoritative_request_generation := req_generation req,
             rt_machine := LifecycleState.kAssessing\<rparr>
      else r)"
    by (simp add: admission_codes apply_op_def rt_effect del: perform.simps)
qed (simp add: admission_code_def request_preemption_result default_RequestAdmission_def flip: validate_authority_iff)

definition sample_running :: PreemptionRuntime where
  "sample_running = start_execution (IdV 10) (GenV 1) (IdV 20) (GenV 1) (IdV 30) (GenV 1) (IdV 40) (IdV 50) sample_fresh"

lemmas sample_running_defs = sample_running_def start_execution_def sample_fresh_def preemption_runtime_def
  sample_request_def default_PreemptionRequest_def id_valid_simps gen_valid_simps id_default_def Let_def

theorem admission_decision_witness: "admission_code sample_request sample_running = RequestAdmissionCode.kAccepted"
  using admission_decision [of sample_request sample_running] by (simp add: sample_running_defs)

text \<open>
  C11: a request is admitted at most once. After an accepted request, whatever calls follow
  (cancellation, completion and loads included) short of a restart of the execution, no request
  is accepted.
\<close>
theorem single_admission:
  assumes "admission_code req r = RequestAdmissionCode.kAccepted" "\<forall>op \<in> set ops. \<not> starts_execution op"
  shows "admission_code req' (run_ops (OpRequest req # ops) r) \<noteq> RequestAdmissionCode.kAccepted"
proof -
  have "rt_active_request (apply_op (OpRequest req) r) \<noteq> None"
    using assms(1) by (simp add: admission_codes apply_op_def rt_effect del: perform.simps)
  then have "rt_active_request (run_ops (OpRequest req # ops) r) \<noteq> None"
    using active_request_run assms(2) by (simp add: run_ops_def)
  then show ?thesis by (simp add: admission_codes)
qed

theorem single_admission_witness:
  "admission_code sample_request (run_ops [OpRequest sample_request, OpCancel] sample_running) \<noteq> RequestAdmissionCode.kAccepted"
proof (rule single_admission)
  show "admission_code sample_request sample_running = RequestAdmissionCode.kAccepted"
    by (simp add: admission_codes validate_authority_def sample_running_defs)
qed (simp add: starts_execution_def)

section \<open>Release\<close>

text \<open>
  C18: the release of a durable runtime gives back exactly what the contract of its execution
  holds: afterwards nothing is reserved, every class has its reserved units added to the released
  ones, and the release is confirmed.
\<close>
theorem release_is_exact:
  assumes "rt_machine r \<in> {LifecycleState.kStateDurable, LifecycleState.kReleasePending}" "rt_state_durable r"
    and "map_wf (ad_reserved_map (rt_adapters r))" "ad_contract_execution (rt_adapters r) = rt_execution_id r"
  defines "q \<equiv> run_ops [OpRequestRelease, OpReportReleased] r"
  shows "rt_machine q = LifecycleState.kResourcesReleased \<and> rt_resources_released q \<and>
     ad_reserved c (rt_adapters q) = 0 \<and>
     ad_released c (rt_adapters q) = ad_released c (rt_adapters r) + ad_reserved c (rt_adapters r)"
  using release_leases_exact [OF assms(3,4)] unfolding q_def release_completes [OF assms(1-4)] by simp

definition sample_durable :: PreemptionRuntime where
  "sample_durable = sample_assessing\<lparr>rt_machine := LifecycleState.kStateDurable, rt_state_durable := True\<rparr>"

theorem release_is_exact_witness:
  "ad_released ResourceClass.kDeviceMemory (rt_adapters (run_ops [OpRequestRelease, OpReportReleased] sample_durable)) = 100"
  using release_is_exact [of sample_durable ResourceClass.kDeviceMemory] sample_ready(3)
  by (simp add: sample_durable_def contract_is_ours_def)
    (simp add: sample_assessing_def Let_def ad_set_authoritative_def sample_adapters_def ad_released_def ad_reserved_def
      ad_lookup_def default_ReferenceAdapters_def)

section \<open>Assessment and migration\<close>

text \<open>
  C29: the assessment says what the runtime then does. Its class is UNKNOWN exactly when there is no
  valid safe point, none declared and no stage that already guarantees a boundary, and
  PREEMPTIBLE_AFTER_STATE_CAPTURE exactly at a valid safe point that requires a capture. In ASSESSING a
  quiesce request proceeds to QUIESCING when the class is PREEMPTIBLE_NOW or
  PREEMPTIBLE_AFTER_STATE_CAPTURE and waits for a safe point otherwise; in QUIESCED at a valid safe point
  the capture request starts a capture exactly when the class asks for one. The plan's
  preservation mode is CAPTURE in these cases, between safe points, and in the three stages that
  count as a boundary. The rollback is the distance of the current from the durable position.
\<close>
theorem assessment_is_honest:
  assumes "reachable r"
  shows "(as_preemptibility (assess r) = PreemptibilityClass.kUnknown \<longleftrightarrow>
       \<not> at_valid_safe_point r \<and> rt_safe_points r = [] \<and>
       rt_machine r \<notin> {LifecycleState.kQuiesced, LifecycleState.kStateDurable, LifecycleState.kReleasePending}) \<and>
     (as_preemptibility (assess r) = PreemptibilityClass.kPreemptibleAfterStateCapture \<longleftrightarrow>
       at_valid_safe_point r \<and> capture_is_required r) \<and>
     (rt_machine r = LifecycleState.kAssessing \<longrightarrow> rt_machine (apply_op OpBeginQuiesce r) =
       (if as_preemptibility (assess r) \<in> {PreemptibilityClass.kPreemptibleNow, PreemptibilityClass.kPreemptibleAfterStateCapture}
        then LifecycleState.kQuiescing else LifecycleState.kWaitingForSafePoint)) \<and>
     (rt_machine r = LifecycleState.kQuiesced \<and> at_valid_safe_point r \<longrightarrow>
       (rt_machine (apply_op OpRequestCapture r) = LifecycleState.kCapturingState \<longleftrightarrow>
        as_preemptibility (assess r) = PreemptibilityClass.kPreemptibleAfterStateCapture)) \<and>
     (plan_preservation_mode (as_plan (assess r)) = PreservationMode.kCapture \<longleftrightarrow>
       (if at_valid_safe_point r then capture_is_required r
        else rt_safe_points r \<noteq> [] \<or>
          rt_machine r \<in> {LifecycleState.kQuiesced, LifecycleState.kStateDurable, LifecycleState.kReleasePending})) \<and>
     unat (plan_max_rollback (as_plan (assess r))) = unat (rt_current_position r) - unat (rt_durable_position r)"
  using assess_rollback [of r] reachable_inv [OF assms]
  by (auto simp: assess_preemptibility assess_mode runtime_inv_def apply_op_def rt_effect simp del: perform.simps)

theorem assessment_is_honest_witness:
  "unat (plan_max_rollback (as_plan (assess sample_assessing))) = 20"
  using assessment_is_honest [OF sample_reachable] by (simp add: sample_assessing_def Let_def)

text \<open>
  A migration destination is judged compatible exactly when the preemption is durable with a
  checkpoint, the destination's capabilities are current and compatible, no dependency blocks the
  resume and the resource contract has a generation.
\<close>
theorem migration_needs_evidence:
  "mc_outcome (evaluate_migration_destination dst r) = MigrationCompatibilityOutcome.kCompatible \<longleftrightarrow>
     is_preempted_durable (rt_machine r) \<and> rt_state_durable r \<and>
     id_is_valid (rt_checkpoint_ref r) \<and> gen_is_valid (rt_checkpoint_generation r) \<and>
     ad_capability_generation_current dst (rt_adapters r) \<and> ad_capability_is_compatible dst (rt_adapters r) \<and>
     \<not> dependency_blocked (ad_resume_dep (rt_adapters r)) \<and> gen_is_valid (ad_contract_gen (rt_adapters r))"
  by (rule migration_compatible_iff)

section \<open>Restart\<close>

lemma sample_preempted_stored:
  "loadable sample_preempted" "stored_size sample_preempted < 2 ^ 32 + 16"
  "rt_epoch sample_preempted = GenV 100" "rt_policy_generation sample_preempted = GenV 1"
  "rt_durable_position sample_preempted = 100"
proof -
  have p: "sample_preempted = (released_runtime sample_report sample_assessing)\<lparr>rt_machine := LifecycleState.kPreempted,
       rt_fenced_worker_boot := rt_worker_boot sample_assessing,
       rt_adapters := ad_revoke_authority (rt_adapters (released_runtime sample_report sample_assessing))\<rparr>"
    unfolding sample_preempted_def preempted_runtime_def by (rule preemption_completes [OF sample_ready])
  have fields: "rt_safe_points sample_assessing = [(IdV 80, sample_point\<lparr>sp_state := SafePointState.kValid,
       sp_progress_position := 120, sp_state_capture_required := True\<rparr>)]" "rt_history sample_assessing = []"
    "rt_epoch sample_assessing = GenV 100" "rt_policy_generation sample_assessing = GenV 1"
    "rt_durable_position sample_assessing = 100" "rt_checkpoint_generation sample_assessing = gen_default"
    "ad_capture_count (rt_adapters sample_assessing) = 0"
    by (simp_all add: sample_assessing_def Let_def sample_fresh_def preemption_runtime_def ad_set_authoritative_def
        sample_adapters_def default_ReferenceAdapters_def)
  show "loadable sample_preempted"
    by (simp add: p released_runtime_def Let_def loadable_def release_stage_def fields id_valid_simps gen_valid_simps
        gen_next_def gen_default_def kMaxValue_def)
  show "stored_size sample_preempted < 2 ^ 32 + 16"
    by (simp add: p released_runtime_def Let_def stored_size_def fields)
  show "rt_epoch sample_preempted = GenV 100" "rt_policy_generation sample_preempted = GenV 1"
    "rt_durable_position sample_preempted = 100"
    by (simp_all add: p released_runtime_def Let_def fields)
qed

text \<open>
  C20: which stored images can be loaded. The bytes that a runtime writes which calls can produce (images
  handed directly to restore must pass validate_state) are accepted
  by a later load exactly when no release is in flight, a durable boundary comes with a
  checkpoint and every declared safe point has an id; a refused load leaves the runtime as it was.
\<close>
theorem stored_image_loadable_iff:
  assumes "reachable r" "stored_size r < 2 ^ 32 + 16"
  shows "(fst (restore_bytes (persist_bytes r) r0) \<longleftrightarrow>
       (rt_machine r \<in> {LifecycleState.kReleasePending, LifecycleState.kReleasing, LifecycleState.kResourcesReleased}
         \<longrightarrow> rt_quiesced r \<and> rt_state_durable r \<and> rt_resources_released r) \<and>
       (rt_state_durable r \<longrightarrow> id_is_valid (rt_checkpoint_ref r) \<and> gen_is_valid (rt_checkpoint_generation r)) \<and>
       (\<forall>i \<in> fst ` set (rt_safe_points r). id_is_valid i)) \<and>
     (\<not> fst (restore_bytes (persist_bytes r) r0) \<longrightarrow> snd (restore_bytes (persist_bytes r) r0) = r0)"
  using restore_persist_bytes [OF assms(2) reachable_inv [OF assms(1)], of r0]
  by (simp add: loadable_def release_stage_def)

theorem stored_image_loadable_iff_witness:
  "fst (restore_bytes (persist_bytes sample_preempted) sample_fresh)"
  using stored_image_loadable_iff [OF sample_preempted_reachable sample_preempted_stored(2), of sample_fresh]
    sample_preempted_stored(1) by (simp add: loadable_def release_stage_def)



text \<open>
  C40: a restart lifts the fence. Loading the bytes of a runtime, even of one that is preempted
  and fenced, leaves the attempt authoritative, so that it publishes progress again in the
  preempted lifecycle state, without any resume.
\<close>
theorem restart_unfences:
  fixes booted :: PreemptionRuntime
  assumes "reachable r" "loadable r" "stored_size r < 2 ^ 32 + 16"
  defines "r' \<equiv> snd (restore_bytes (persist_bytes r) booted)"
  shows "rt_machine r' = rt_machine r \<and> is_attempt_authoritative r' \<and>
     (fst (publish_progress pos kind r') \<longleftrightarrow> rt_durable_position r \<le> pos)"
proof -
  have "r' = restore_state (snapshot r) booted"
    using restore_persist_bytes [OF assms(3) reachable_inv [OF assms(1)]] assms(2) by (simp add: r'_def)
  moreover have "ps_durable_progress (snapshot r) = rt_durable_position r" by (simp add: snapshot_def)
  ultimately show ?thesis
    by (simp add: restore_state_authoritative restore_state_publish restore_state_fields)
qed

theorem restart_unfences_witness:
  "\<not> fst (publish_progress 500 ProgressKind.kDurable sample_preempted) \<and>
   fst (publish_progress 500 ProgressKind.kDurable (snd (restore_bytes (persist_bytes sample_preempted) sample_fresh)))"
  using restart_unfences [OF sample_preempted_reachable sample_preempted_stored(1,2),
      where booted = sample_fresh and pos = 500 and kind = ProgressKind.kDurable]
    fenced_publish [OF sample_preempted_facts(2)]
  by (simp add: sample_preempted_stored(5))

section \<open>Corners\<close>

text \<open>Completion aborts a preempted execution instead of being rejected.\<close>

lemma completion_aborts_preempted:
  "rt_machine r = LifecycleState.kPreempted \<Longrightarrow> apply_op OpComplete r = r\<lparr>rt_machine := LifecycleState.kAborted\<rparr>"
  by (simp add: apply_op_def rt_effect is_terminal_def del: perform.simps)

text \<open>
  Without the validation the invariant fails: restore(const PersistentState&) takes over the lifecycle
  state and the flags of any image.
\<close>

lemma unvalidated_restore_breaks_boundary:
  "\<exists>st. is_preempted_durable (rt_machine (apply_op (OpRestoreState st) r)) \<and> \<not> rt_quiesced (apply_op (OpRestoreState st) r)"
  by (intro exI [of _ "default_PersistentState\<lparr>ps_lifecycle := LifecycleState.kPreempted, ps_quiesced := False\<rparr>"])
    (simp add: apply_op_def restore_state_fields is_preempted_durable_def)

text \<open>A load into a runtime that was in use keeps its current safe point, which the loaded table need not hold.\<close>

lemma load_keeps_current_safe_point:
  "rt_current_safe_point (snd (restore_bytes bs r)) = rt_current_safe_point r"
  by (simp add: restore_bytes_def restore_state_fields split: sum.splits)

text \<open>
  A runtime stopped between the request and the confirmation of the release, or durable without a
  checkpoint because no capture was required, stores an image that no load accepts.
\<close>

lemma release_in_flight_not_loadable:
  assumes "reachable r" "stored_size r < 2 ^ 32 + 16"
    and "rt_machine r \<in> {LifecycleState.kReleasePending, LifecycleState.kReleasing}" "\<not> rt_resources_released r"
  shows "restore_bytes (persist_bytes r) r0 = (False, r0)"
  using restore_persist_bytes [OF assms(2) reachable_inv [OF assms(1)], of r0] assms(3,4)
  by (auto simp: loadable_def release_stage_def)

lemma no_capture_not_loadable:
  assumes "reachable r" "stored_size r < 2 ^ 32 + 16" "rt_state_durable r" "\<not> id_is_valid (rt_checkpoint_ref r)"
  shows "restore_bytes (persist_bytes r) r0 = (False, r0)"
  using restore_persist_bytes [OF assms(2) reachable_inv [OF assms(1)], of r0] assms(3,4)
  by (auto simp: loadable_def)

text \<open>A cancellation takes any unfinished execution to CANCELLED, by edges the machine does not have.\<close>

lemma cancel_without_edge:
  assumes "rt_machine r = LifecycleState.kPreempted"
  shows "rt_machine (apply_op OpCancel r) = LifecycleState.kCancelled \<and>
     \<not> is_allowed (rt_machine r) LifecycleState.kCancelled"
  using assms by (simp add: apply_op_def rt_effect is_terminal_def is_allowed_iff del: perform.simps)

end
