(* ===== verification/PF_Runtime_Moves.thy ===== *)
theory PF_Runtime_Moves
  imports PF_Runtime_Safety
begin

text \<open>
  The runtime as a labelled automaton over the lifecycle states. The table \<open>lifecycle_moves\<close> is the
  abstract specification: which method may take which state to which other state. The runtime
  implements it exactly: its methods make no other move, and every move of the table is made by
  the method in some runtime.
\<close>

section \<open>The specification\<close>

fun method_of :: "runtime_op \<Rightarrow> string" where
  "method_of (OpStart w wg e eg a ag worker boot) = ''start_execution''"
| "method_of (OpDeclare sp) = ''declare_safe_point''"
| "method_of (OpReach i pos cap) = ''reach_safe_point''"
| "method_of (OpPublish pos kind) = ''publish_progress''"
| "method_of (OpRequest req) = ''request_preemption''"
| "method_of OpBeginQuiesce = ''begin_quiesce''"
| "method_of (OpReportQuiesced rep) = ''report_quiesced''"
| "method_of OpRequestCapture = ''request_state_capture''"
| "method_of (OpReportCaptured c) = ''report_state_captured''"
| "method_of OpRequestRelease = ''request_release''"
| "method_of OpReportReleased = ''report_released''"
| "method_of OpCommit = ''commit_preempted''"
| "method_of OpRequestResume = ''request_resume''"
| "method_of OpRevalidate = ''revalidate''"
| "method_of OpRestore = ''restore''"
| "method_of OpConfirm = ''confirm_resumed''"
| "method_of OpCancel = ''cancel''"
| "method_of OpComplete = ''complete''"
| "method_of (OpSetPriority g) = ''set_priority_generation''"
| "method_of (OpSetIncarnation w b) = ''set_worker_incarnation''"
| "method_of (OpRestoreBytes bs) = ''restore_bytes''"
| "method_of (OpAdapters a) = ''adapters''"
| "method_of (OpRestoreState st) = ''restore(PersistentState)''"

definition lifecycle_moves :: "(string \<times> LifecycleState \<times> LifecycleState) list" where
  "lifecycle_moves =
    [(''reach_safe_point'', LifecycleState.kWaitingForSafePoint, LifecycleState.kSafePointReached),
     (''begin_quiesce'', LifecycleState.kSafePointReached, LifecycleState.kQuiescing),
     (''begin_quiesce'', LifecycleState.kAssessing, LifecycleState.kQuiescing),
     (''begin_quiesce'', LifecycleState.kAssessing, LifecycleState.kWaitingForSafePoint),
     (''begin_quiesce'', LifecycleState.kDeferred, LifecycleState.kWaitingForSafePoint),
     (''report_quiesced'', LifecycleState.kQuiescing, LifecycleState.kQuiesced),
     (''request_state_capture'', LifecycleState.kQuiesced, LifecycleState.kCapturingState),
     (''request_state_capture'', LifecycleState.kQuiesced, LifecycleState.kReleasePending),
     (''report_state_captured'', LifecycleState.kCapturingState, LifecycleState.kStateDurable),
     (''report_state_captured'', LifecycleState.kCapturingState, LifecycleState.kFailed),
     (''request_release'', LifecycleState.kStateDurable, LifecycleState.kReleasing),
     (''request_release'', LifecycleState.kReleasePending, LifecycleState.kReleasing),
     (''report_released'', LifecycleState.kReleasing, LifecycleState.kResourcesReleased),
     (''commit_preempted'', LifecycleState.kResourcesReleased, LifecycleState.kPreempted),
     (''request_resume'', LifecycleState.kPreempted, LifecycleState.kResumePending),
     (''revalidate'', LifecycleState.kResumePending, LifecycleState.kRestoring),
     (''revalidate'', LifecycleState.kResumePending, LifecycleState.kRevalidating),
     (''revalidate'', LifecycleState.kResumePending, LifecycleState.kFailed),
     (''revalidate'', LifecycleState.kRevalidating, LifecycleState.kRestoring),
     (''revalidate'', LifecycleState.kRevalidating, LifecycleState.kFailed),
     (''restore'', LifecycleState.kRestoring, LifecycleState.kResumeReady),
     (''restore'', LifecycleState.kRestoring, LifecycleState.kFailed),
     (''confirm_resumed'', LifecycleState.kResumeReady, LifecycleState.kResumed),
     (''confirm_resumed'', LifecycleState.kResuming, LifecycleState.kResumed)]"

text \<open>The methods that set the state directly, and from where.\<close>

inductive resetting_move :: "string \<Rightarrow> LifecycleState \<Rightarrow> LifecycleState \<Rightarrow> bool" where
  start: "resetting_move ''start_execution'' s LifecycleState.kInvalid"
| admit: "resetting_move ''request_preemption'' s LifecycleState.kAssessing"
| cancel: "\<not> is_terminal s \<Longrightarrow> resetting_move ''cancel'' s LifecycleState.kCancelled"
| complete: "\<not> is_terminal s \<Longrightarrow> is_preempted_durable s \<longrightarrow> s = LifecycleState.kPreempted \<Longrightarrow>
    resetting_move ''complete'' s LifecycleState.kAborted"
| load_bytes: "resetting_move ''restore_bytes'' s t"
| load_state: "resetting_move ''restore(PersistentState)'' s t"

section \<open>No other moves\<close>

lemma moves_sound:
  assumes "rt_machine (apply_op op r) \<noteq> rt_machine r"
  shows "(method_of op, rt_machine r, rt_machine (apply_op op r)) \<in> set lifecycle_moves \<or>
     resetting_move (method_of op) (rt_machine r) (rt_machine (apply_op op r))"
  using assms
  by (cases op)
    (auto simp: apply_op_def rt_effect op_frame lifecycle_moves_def
      intro: resetting_move.intros simp del: perform.simps(3-18) split: option.splits if_splits)

section \<open>Every move is made\<close>

text \<open>A runtime in a given state with all flags set, a declared safe point and the given evidence.\<close>

definition probe :: "LifecycleState \<Rightarrow> SafePoint option \<Rightarrow> CheckpointRef \<Rightarrow> DependencyStatus \<Rightarrow> PreemptionRuntime" where
  "probe s sp ref dep = (preemption_runtime (GenV 1) (GenV 1) (default_ReferenceAdapters\<lparr>
       ad_quiesced := map (\<lambda>c. (c, True)) ad_categories, ad_resume_dep := default_DependencyView\<lparr>dv_status := dep\<rparr>\<rparr>))
     \<lparr>rt_machine := s, rt_quiesced := True, rt_state_durable := True, rt_resources_released := True,
      rt_safe_points := [(IdV 80, default_SafePoint\<lparr>sp_id := IdV 80\<rparr>)], rt_current_safe_point := sp,
      rt_checkpoint_ref := ref\<rparr>"

abbreviation boundary :: "SafePoint option" where
  "boundary \<equiv> Some (default_SafePoint\<lparr>sp_id := IdV 80, sp_state := SafePointState.kValid, sp_state_capture_required := True\<rparr>)"

definition probe_report :: QuiescenceReport where
  "probe_report = default_QuiescenceReport\<lparr>qr_worker_boot_id := id_default, qr_fully_quiesced := True\<rparr>"

definition probe_capture :: "bool \<Rightarrow> CaptureResult" where
  "probe_capture ok = \<lparr>cr_completed = ok, cr_success = ok, cr_capture_id = IdV 1, cr_capture_generation = GenV 1,
     cr_checkpoint_ref = IdV 7, cr_checkpoint_generation = GenV 1, cr_provenance = EvidenceKind.kReal\<rparr>"

text \<open>One call for every row of the table.\<close>

definition trials :: "(runtime_op \<times> PreemptionRuntime) list" where
  "trials =
    (let current = DependencyStatus.kCurrent; none = (IdV 0 :: CheckpointRef); stale = IdV 7 in
    [(OpReach (IdV 80) 5 True, probe LifecycleState.kWaitingForSafePoint None none current),
     (OpBeginQuiesce, probe LifecycleState.kSafePointReached None none current),
     (OpBeginQuiesce, probe LifecycleState.kAssessing boundary none current),
     (OpBeginQuiesce, probe LifecycleState.kAssessing None none current),
     (OpBeginQuiesce, probe LifecycleState.kDeferred None none current),
     (OpReportQuiesced probe_report, probe LifecycleState.kQuiescing None none current),
     (OpRequestCapture, probe LifecycleState.kQuiesced boundary none current),
     (OpRequestCapture, probe LifecycleState.kQuiesced None none current),
     (OpReportCaptured (probe_capture True), probe LifecycleState.kCapturingState None none current),
     (OpReportCaptured (probe_capture False), probe LifecycleState.kCapturingState None none current),
     (OpRequestRelease, probe LifecycleState.kStateDurable None none current),
     (OpRequestRelease, probe LifecycleState.kReleasePending None none current),
     (OpReportReleased, probe LifecycleState.kReleasing None none current),
     (OpCommit, probe LifecycleState.kResourcesReleased None none current),
     (OpRequestResume, probe LifecycleState.kPreempted None none current),
     (OpRevalidate, probe LifecycleState.kResumePending None none current),
     (OpRevalidate, probe LifecycleState.kResumePending None none DependencyStatus.kStale),
     (OpRevalidate, probe LifecycleState.kResumePending None stale current),
     (OpRevalidate, probe LifecycleState.kRevalidating None none current),
     (OpRevalidate, probe LifecycleState.kRevalidating None stale current),
     (OpRestore, probe LifecycleState.kRestoring None none current),
     (OpRestore, probe LifecycleState.kRestoring None stale current),
     (OpConfirm, probe LifecycleState.kResumeReady None none current),
     (OpConfirm, probe LifecycleState.kResuming None none current)])"

lemma trials_make_moves:
  "map (\<lambda>(op, r). (method_of op, rt_machine r, rt_machine (apply_op op r))) trials = lifecycle_moves"
  by code_simp

lemma table_moves_made:
  assumes "(m, s, t) \<in> set lifecycle_moves"
  shows "\<exists>op r. method_of op = m \<and> rt_machine r = s \<and> rt_machine (apply_op op r) = t"
proof -
  have "(m, s, t) \<in> set (map (\<lambda>(op, r). (method_of op, rt_machine r, rt_machine (apply_op op r))) trials)"
    using assms unfolding trials_make_moves .
  then show ?thesis by auto
qed

definition probe_request :: PreemptionRequest where
  "probe_request = default_PreemptionRequest\<lparr>req_id := IdV 1, req_generation := GenV 1, req_coordinator_epoch := GenV 1\<rparr>"

lemma resetting_moves_made:
  assumes "resetting_move m s t"
  shows "\<exists>op r. method_of op = m \<and> rt_machine r = s \<and> rt_machine (apply_op op r) = t"
proof -
  let ?r = "probe s None (IdV 0) DependencyStatus.kCurrent"
  have s: "rt_machine ?r = s" by (simp add: probe_def)
  let ?img = "sample_image\<lparr>ps_lifecycle := t\<rparr>"
  have storable: "storable ?img" "length (payload_bytes ?img) < 2 ^ 32"
    using payload_length [of ?img] by (simp_all add: storable_iff image_size_def sample_image_def default_PersistentState_def)
  have "image_ok (?img\<lparr>ps_format_version := PF_PERSISTENCE_VERSION\<rparr>)"
    by (simp add: sample_image_def default_PersistentState_def image_ok_def id_valid_simps gen_valid_simps)
  then have "decode (encode ?img) = Inr (?img\<lparr>ps_format_version := PF_PERSISTENCE_VERSION\<rparr>)"
    using decode_payload_enc [OF storable(1)] encode_eq_seal [OF storable(1)] decode_seal [OF storable(2)]
    by (simp add: verdict_def validate_state_ok)
  then have load: "rt_machine (apply_op (OpRestoreBytes (encode ?img)) ?r) = t" "rt_machine (apply_op (OpRestoreState ?img) ?r) = t"
    by (simp_all add: apply_op_def restore_bytes_def restore_state_fields)
  have started: "rt_machine (apply_op (OpStart w wg e eg a ag k b) ?r) = LifecycleState.kInvalid" for w wg e eg a ag k b
    by (simp add: apply_op_def start_execution_def)
  have req: "rt_machine (apply_op (OpRequest probe_request) ?r) = LifecycleState.kAssessing"
    by (simp add: apply_op_def rt_effect probe_def preemption_runtime_def probe_request_def default_PreemptionRequest_def
        validate_authority_def id_valid_simps gen_valid_simps id_default_def gen_default_def del: perform.simps)
  have by_op: ?thesis if "method_of op = m" "rt_machine (apply_op op ?r) = t" for op using that s by blast
  from assms show ?thesis
  proof cases
    case start
    then show ?thesis using started by (intro by_op [of "OpStart (IdV 0) (GenV 0) (IdV 0) (GenV 0) (IdV 0) (GenV 0) (IdV 0) (IdV 0)"]) simp_all
  next
    case admit
    then show ?thesis using req by (intro by_op [of "OpRequest probe_request"]) simp_all
  next
    case cancel
    then show ?thesis by (intro by_op [of OpCancel]) (simp_all add: apply_op_def rt_effect s del: perform.simps)
  next
    case complete
    then show ?thesis by (intro by_op [of OpComplete]) (auto simp: apply_op_def rt_effect s simp del: perform.simps)
  next
    case load_bytes
    then show ?thesis using load(1) by (intro by_op [of "OpRestoreBytes (encode ?img)"]) simp_all
  next
    case load_state
    then show ?thesis using load(2) by (intro by_op [of "OpRestoreState ?img"]) simp_all
  qed
qed

lemma table_rows_legal: "\<forall>(m, s, t) \<in> set lifecycle_moves. is_allowed\<^sup>*\<^sup>* s t"
  by (simp add: lifecycle_moves_def method_paths edge_path is_allowed_iff)

text \<open>
  C14: the runtime implements exactly the labelled automaton of the table. A method takes the
  lifecycle from one state to a different one, in some runtime, if and only if the table (or, for the
  methods that set the state directly: start, admission, cancellation, completion and the loads,
  their rule) has this move; and every move of the table runs along legal edges of the guarded
  machine.
\<close>
theorem runtime_refines_lifecycle:
  "(s \<noteq> t \<longrightarrow> ((\<exists>op r. method_of op = m \<and> rt_machine r = s \<and> rt_machine (apply_op op r) = t) \<longleftrightarrow>
      (m, s, t) \<in> set lifecycle_moves \<or> resetting_move m s t)) \<and>
   (\<forall>(m, s, t) \<in> set lifecycle_moves. is_allowed\<^sup>*\<^sup>* s t)"
proof (intro conjI impI iffI)
  assume "s \<noteq> t" "\<exists>op r. method_of op = m \<and> rt_machine r = s \<and> rt_machine (apply_op op r) = t"
  then obtain op r where "method_of op = m" "rt_machine r = s" "rt_machine (apply_op op r) = t" "s \<noteq> t" by blast
  then show "(m, s, t) \<in> set lifecycle_moves \<or> resetting_move m s t" using moves_sound [of op r] by simp
next
  assume "(m, s, t) \<in> set lifecycle_moves \<or> resetting_move m s t"
  then show "\<exists>op r. method_of op = m \<and> rt_machine r = s \<and> rt_machine (apply_op op r) = t"
    using table_moves_made resetting_moves_made by blast
qed (rule table_rows_legal)

theorem runtime_refines_lifecycle_witness:
  "(\<exists>op r. method_of op = ''commit_preempted'' \<and> rt_machine r = LifecycleState.kResourcesReleased \<and>
      rt_machine (apply_op op r) = LifecycleState.kPreempted) \<and>
   (\<nexists>op r. method_of op = ''commit_preempted'' \<and> rt_machine r = LifecycleState.kReleasing \<and>
      rt_machine (apply_op op r) = LifecycleState.kPreempted)"
  using runtime_refines_lifecycle [of LifecycleState.kResourcesReleased LifecycleState.kPreempted "''commit_preempted''"]
    runtime_refines_lifecycle [of LifecycleState.kReleasing LifecycleState.kPreempted "''commit_preempted''"]
  by (simp add: lifecycle_moves_def resetting_move.simps)

end
