(* ===== verification/PF_Protocol.thy ===== *)
theory PF_Protocol
  imports PF_Adapters PF_Binary PF_Crc32 "HOL-Library.Monad_Syntax"
begin

text \<open>
  The framed coordinator/worker protocol: \<^verbatim>\<open>protocol/message.hpp\<close>, \<^verbatim>\<open>protocol/framing.hpp\<close> and
  \<^verbatim>\<open>src/protocol/framing.cpp\<close>. A reader function that returns \<^verbatim>\<open>false\<close> is \<open>None\<close>, and the chain
  of \<^verbatim>\<open>if (!read(...)) return false\<close> of the source is a chain of option binds. The encoder's
  \<^verbatim>\<open>std::length_error\<close> is \<open>None\<close> as well. The lemmas show the frame round trip, the rejection of
  damaged frames, and that the streaming decoder delivers the messages of a byte stream whatever
  the chunks it arrives in.
\<close>

section \<open>message.hpp\<close>

datatype MessageType =
    kInvalid | kHello | kRegister | kBeginExecution | kPublishProgress | kDeclareSafePoint
  | kReachSafePoint | kRequestPreemption | kPreemptionAssessment | kBeginQuiesce | kQuiesced
  | kRequestStateCapture | kStateCaptured | kRequestRelease | kResourceReleased | kPreempted
  | kRequestResume | kRevalidationResult | kRestoreResult | kResumed | kCancel | kComplete | kError
  | kShutdown | kReplayStale

definition MessageType_values :: "MessageType list" where
  "MessageType_values = [
     MessageType.kInvalid, MessageType.kHello, MessageType.kRegister, MessageType.kBeginExecution,
     MessageType.kPublishProgress, MessageType.kDeclareSafePoint, MessageType.kReachSafePoint,
     MessageType.kRequestPreemption, MessageType.kPreemptionAssessment, MessageType.kBeginQuiesce,
     MessageType.kQuiesced, MessageType.kRequestStateCapture, MessageType.kStateCaptured,
     MessageType.kRequestRelease, MessageType.kResourceReleased, MessageType.kPreempted,
     MessageType.kRequestResume, MessageType.kRevalidationResult, MessageType.kRestoreResult,
     MessageType.kResumed, MessageType.kCancel, MessageType.kComplete, MessageType.kError,
     MessageType.kShutdown, MessageType.kReplayStale]"

definition kMessageTypeNames :: "(MessageType \<times> string) list" where
  "kMessageTypeNames = [
     (MessageType.kHello, ''HELLO''), (MessageType.kRegister, ''REGISTER''),
     (MessageType.kBeginExecution, ''BEGIN_EXECUTION''), (MessageType.kPublishProgress, ''PUBLISH_PROGRESS''),
     (MessageType.kDeclareSafePoint, ''DECLARE_SAFE_POINT''),
     (MessageType.kReachSafePoint, ''REACH_SAFE_POINT''),
     (MessageType.kRequestPreemption, ''REQUEST_PREEMPTION''),
     (MessageType.kPreemptionAssessment, ''PREEMPTION_ASSESSMENT''),
     (MessageType.kBeginQuiesce, ''BEGIN_QUIESCE''), (MessageType.kQuiesced, ''QUIESCED''),
     (MessageType.kRequestStateCapture, ''REQUEST_STATE_CAPTURE''),
     (MessageType.kStateCaptured, ''STATE_CAPTURED''), (MessageType.kRequestRelease, ''REQUEST_RELEASE''),
     (MessageType.kResourceReleased, ''RESOURCE_RELEASED''), (MessageType.kPreempted, ''PREEMPTED''),
     (MessageType.kRequestResume, ''REQUEST_RESUME''),
     (MessageType.kRevalidationResult, ''REVALIDATION_RESULT''),
     (MessageType.kRestoreResult, ''RESTORE_RESULT''), (MessageType.kResumed, ''RESUMED''),
     (MessageType.kCancel, ''CANCEL''), (MessageType.kComplete, ''COMPLETE''), (MessageType.kError, ''ERROR''),
     (MessageType.kShutdown, ''SHUTDOWN''), (MessageType.kReplayStale, ''REPLAY_STALE'')]"

definition MessageType_to_string :: "MessageType \<Rightarrow> string" where
  "MessageType_to_string t = (case map_of kMessageTypeNames t of Some n \<Rightarrow> n | None \<Rightarrow> ''INVALID'')"

record Message =
  m_type :: MessageType
  m_seq :: u32
  m_coordinator_epoch :: CoordinatorEpoch
  m_worker_id :: WorkerId
  m_worker_boot_id :: WorkerBootId
  m_execution_id :: ExecutionId
  m_execution_generation :: ExecutionGeneration
  m_attempt_id :: AttemptId
  m_attempt_generation :: AttemptGeneration
  m_request_id :: PreemptionRequestId
  m_request_generation :: PreemptionRequestGeneration
  m_worker_b :: WorkerId
  m_progress_position :: u64
  m_progress_generation :: ProgressGeneration
  m_progress_kind :: ProgressKind
  m_safe_point_id :: SafePointId
  m_safe_point_generation :: SafePointGeneration
  m_safe_point_position :: u64
  m_safe_point_capture_required :: bool
  m_checkpoint_ref :: CheckpointRef
  m_checkpoint_generation :: CheckpointGeneration
  m_capture_id :: StateCaptureId
  m_capture_generation :: StateCaptureGeneration
  m_resume_id :: ResumeId
  m_resume_generation :: ResumeGeneration
  m_resource :: ResourceClass
  m_units :: u64
  m_contract_id :: ResourceContractId
  m_contract_generation :: ResourceContractGeneration
  m_reason :: PreemptionReason
  m_outcome :: PreemptionOutcome
  m_lifecycle :: LifecycleState
  m_preemptibility :: PreemptibilityClass
  m_resume_outcome :: ResumeOutcome
  m_dep_status :: DependencyStatus
  m_preservation_outcome :: StatePreservationOutcome
  m_detail :: string
  m_extra :: string

definition default_Message :: Message where
  "default_Message = \<lparr>
     m_type = MessageType.kInvalid, m_seq = 0, m_coordinator_epoch = gen_default, m_worker_id = id_default,
     m_worker_boot_id = id_default, m_execution_id = id_default, m_execution_generation = gen_default,
     m_attempt_id = id_default, m_attempt_generation = gen_default, m_request_id = id_default,
     m_request_generation = gen_default, m_worker_b = id_default, m_progress_position = 0,
     m_progress_generation = gen_default, m_progress_kind = ProgressKind.kInvalid,
     m_safe_point_id = id_default, m_safe_point_generation = gen_default, m_safe_point_position = 0,
     m_safe_point_capture_required = False, m_checkpoint_ref = id_default,
     m_checkpoint_generation = gen_default, m_capture_id = id_default, m_capture_generation = gen_default,
     m_resume_id = id_default, m_resume_generation = gen_default, m_resource = ResourceClass.kInvalid,
     m_units = 0, m_contract_id = id_default, m_contract_generation = gen_default,
     m_reason = PreemptionReason.kUnknown, m_outcome = PreemptionOutcome.kInvalid,
     m_lifecycle = LifecycleState.kInvalid, m_preemptibility = PreemptibilityClass.kUnknown,
     m_resume_outcome = ResumeOutcome.kUnknown, m_dep_status = DependencyStatus.kUnknown,
     m_preservation_outcome = StatePreservationOutcome.kUnknown, m_detail = [], m_extra = []\<rparr>"

section \<open>framing.hpp\<close>

datatype FrameError =
    kOk | kTruncated | kBadMagic | kBadVersion | kBadLength | kChecksum | kBadMessageType | kInvalidEnum
  | kMalformedBody | kTrailingGarbage

fun FrameError_to_string :: "FrameError \<Rightarrow> string" where
  "FrameError_to_string FrameError.kOk = ''OK''"
| "FrameError_to_string FrameError.kTruncated = ''TRUNCATED''"
| "FrameError_to_string FrameError.kBadMagic = ''BAD_MAGIC''"
| "FrameError_to_string FrameError.kBadVersion = ''BAD_VERSION''"
| "FrameError_to_string FrameError.kBadLength = ''BAD_LENGTH''"
| "FrameError_to_string FrameError.kChecksum = ''CHECKSUM''"
| "FrameError_to_string FrameError.kBadMessageType = ''BAD_MESSAGE_TYPE''"
| "FrameError_to_string FrameError.kInvalidEnum = ''INVALID_ENUM''"
| "FrameError_to_string FrameError.kMalformedBody = ''MALFORMED_BODY''"
| "FrameError_to_string FrameError.kTrailingGarbage = ''TRAILING_GARBAGE''"

lemma FrameError_to_string_inject: "FrameError_to_string e = FrameError_to_string e' \<longleftrightarrow> e = e'"
  by (cases e; cases e'; simp)

definition kMaxFrameBody :: u32 where
  "kMaxFrameBody = 64 * 1024"

definition kMagic :: u32 where
  "kMagic = 0x31524650"

definition kFrameHeaderSize :: nat where
  "kFrameHeaderSize = 20"

abbreviation PF_PROTOCOL_VERSION :: u32 where
  "PF_PROTOCOL_VERSION \<equiv> 1"

section \<open>The body (framing.cpp)\<close>

text \<open>All fields but the two strings, which are written last and may be too long.\<close>

definition encode_fields :: "Message \<Rightarrow> ByteWriter \<Rightarrow> ByteWriter" where
  "encode_fields m w =
     (let w = bw_u32 (enum_u32 MessageType_values (m_type m)) w;
          w = bw_u32 (m_seq m) w;
          w = bw_u64 (gen_value (m_coordinator_epoch m)) w;
          w = bw_u64 (id_value (m_worker_id m)) w;
          w = bw_u64 (id_value (m_worker_boot_id m)) w;
          w = bw_u64 (id_value (m_execution_id m)) w;
          w = bw_u64 (gen_value (m_execution_generation m)) w;
          w = bw_u64 (id_value (m_attempt_id m)) w;
          w = bw_u64 (gen_value (m_attempt_generation m)) w;
          w = bw_u64 (id_value (m_request_id m)) w;
          w = bw_u64 (gen_value (m_request_generation m)) w;
          w = bw_u64 (id_value (m_worker_b m)) w;
          w = bw_u64 (m_progress_position m) w;
          w = bw_u64 (gen_value (m_progress_generation m)) w;
          w = bw_u32 (enum_u32 ProgressKind_values (m_progress_kind m)) w;
          w = bw_u64 (id_value (m_safe_point_id m)) w;
          w = bw_u64 (gen_value (m_safe_point_generation m)) w;
          w = bw_u64 (m_safe_point_position m) w;
          w = bw_u8 (if m_safe_point_capture_required m then 1 else 0) w;
          w = bw_u64 (id_value (m_checkpoint_ref m)) w;
          w = bw_u64 (gen_value (m_checkpoint_generation m)) w;
          w = bw_u64 (id_value (m_capture_id m)) w;
          w = bw_u64 (gen_value (m_capture_generation m)) w;
          w = bw_u64 (id_value (m_resume_id m)) w;
          w = bw_u64 (gen_value (m_resume_generation m)) w;
          w = bw_u32 (enum_u32 ResourceClass_values (m_resource m)) w;
          w = bw_u64 (m_units m) w;
          w = bw_u64 (id_value (m_contract_id m)) w;
          w = bw_u64 (gen_value (m_contract_generation m)) w;
          w = bw_u32 (enum_u32 PreemptionReason_values (m_reason m)) w;
          w = bw_u32 (enum_u32 PreemptionOutcome_values (m_outcome m)) w;
          w = bw_u32 (enum_u32 LifecycleState_values (m_lifecycle m)) w;
          w = bw_u32 (enum_u32 PreemptibilityClass_values (m_preemptibility m)) w;
          w = bw_u32 (enum_u32 ResumeOutcome_values (m_resume_outcome m)) w;
          w = bw_u32 (enum_u32 DependencyStatus_values (m_dep_status m)) w;
          w = bw_u32 (enum_u32 StatePreservationOutcome_values (m_preservation_outcome m)) w
      in w)"

definition encode_body :: "Message \<Rightarrow> ByteWriter option" where
  "encode_body m =
     do { w \<leftarrow> bw_string (m_detail m) (encode_fields m []);
          bw_string (m_extra m) w }"

definition decode_body :: "byte list \<Rightarrow> Message option" where
  "decode_body bytes =
     do {
       let r = byte_reader bytes;
       (t, r) \<leftarrow> br_u32 r;
       (seq, r) \<leftarrow> br_u32 r;
       typ \<leftarrow> (if t = 0 then None else enum_cast MessageType_values t);
       (x_coordinator_epoch, r) \<leftarrow> br_u64 r;
       (x_worker_id, r) \<leftarrow> br_u64 r;
       (x_worker_boot_id, r) \<leftarrow> br_u64 r;
       (x_execution_id, r) \<leftarrow> br_u64 r;
       (x_execution_generation, r) \<leftarrow> br_u64 r;
       (x_attempt_id, r) \<leftarrow> br_u64 r;
       (x_attempt_generation, r) \<leftarrow> br_u64 r;
       (x_request_id, r) \<leftarrow> br_u64 r;
       (x_request_generation, r) \<leftarrow> br_u64 r;
       (x_worker_b, r) \<leftarrow> br_u64 r;
       (x_progress_position, r) \<leftarrow> br_u64 r;
       (x_progress_generation, r) \<leftarrow> br_u64 r;
       (t, r) \<leftarrow> br_u32 r;
       x_progress_kind \<leftarrow> enum_cast ProgressKind_values t;
       (x_safe_point_id, r) \<leftarrow> br_u64 r;
       (x_safe_point_generation, r) \<leftarrow> br_u64 r;
       (x_safe_point_position, r) \<leftarrow> br_u64 r;
       (x_safe_point_capture_required, r) \<leftarrow> br_u8 r;
       (x_checkpoint_ref, r) \<leftarrow> br_u64 r;
       (x_checkpoint_generation, r) \<leftarrow> br_u64 r;
       (x_capture_id, r) \<leftarrow> br_u64 r;
       (x_capture_generation, r) \<leftarrow> br_u64 r;
       (x_resume_id, r) \<leftarrow> br_u64 r;
       (x_resume_generation, r) \<leftarrow> br_u64 r;
       (t, r) \<leftarrow> br_u32 r;
       x_resource \<leftarrow> enum_cast ResourceClass_values t;
       (x_units, r) \<leftarrow> br_u64 r;
       (x_contract_id, r) \<leftarrow> br_u64 r;
       (x_contract_generation, r) \<leftarrow> br_u64 r;
       (t, r) \<leftarrow> br_u32 r;
       x_reason \<leftarrow> enum_cast PreemptionReason_values t;
       (t, r) \<leftarrow> br_u32 r;
       outc \<leftarrow> enum_cast PreemptionOutcome_values t;
       (t, r) \<leftarrow> br_u32 r;
       lc \<leftarrow> enum_cast LifecycleState_values t;
       (t, r) \<leftarrow> br_u32 r;
       x_preemptibility \<leftarrow> enum_cast PreemptibilityClass_values t;
       (t, r) \<leftarrow> br_u32 r;
       x_resume_outcome \<leftarrow> enum_cast ResumeOutcome_values t;
       (t, r) \<leftarrow> br_u32 r;
       x_dep_status \<leftarrow> enum_cast DependencyStatus_values t;
       (t, r) \<leftarrow> br_u32 r;
       x_preservation_outcome \<leftarrow> enum_cast StatePreservationOutcome_values t;
       (x_detail, r) \<leftarrow> br_string r;
       (x_extra, r) \<leftarrow> br_string r;
       (if br_at_end r
        then Some \<lparr>
          m_type = typ, m_seq = seq, m_coordinator_epoch = GenV x_coordinator_epoch,
          m_worker_id = IdV x_worker_id, m_worker_boot_id = IdV x_worker_boot_id,
          m_execution_id = IdV x_execution_id, m_execution_generation = GenV x_execution_generation,
          m_attempt_id = IdV x_attempt_id, m_attempt_generation = GenV x_attempt_generation,
          m_request_id = IdV x_request_id, m_request_generation = GenV x_request_generation,
          m_worker_b = IdV x_worker_b, m_progress_position = x_progress_position,
          m_progress_generation = GenV x_progress_generation, m_progress_kind = x_progress_kind,
          m_safe_point_id = IdV x_safe_point_id, m_safe_point_generation = GenV x_safe_point_generation,
          m_safe_point_position = x_safe_point_position,
          m_safe_point_capture_required = (x_safe_point_capture_required \<noteq> 0),
          m_checkpoint_ref = IdV x_checkpoint_ref, m_checkpoint_generation = GenV x_checkpoint_generation,
          m_capture_id = IdV x_capture_id, m_capture_generation = GenV x_capture_generation,
          m_resume_id = IdV x_resume_id, m_resume_generation = GenV x_resume_generation,
          m_resource = x_resource, m_units = x_units, m_contract_id = IdV x_contract_id,
          m_contract_generation = GenV x_contract_generation, m_reason = x_reason, m_outcome = outc,
          m_lifecycle = lc, m_preemptibility = x_preemptibility, m_resume_outcome = x_resume_outcome,
          m_dep_status = x_dep_status, m_preservation_outcome = x_preservation_outcome, m_detail = x_detail,
          m_extra = x_extra\<rparr>
        else None)
     }"

section \<open>Frames\<close>

definition frame_header :: "Message \<Rightarrow> u32 \<Rightarrow> ByteWriter" where
  "frame_header m len =
     bw_u32 len (bw_u32 (m_seq m) (bw_u32 (enum_u32 MessageType_values (m_type m))
       (bw_u32 PF_PROTOCOL_VERSION (bw_u32 kMagic []))))"

definition encode_frame :: "Message \<Rightarrow> byte list option" where
  "encode_frame m =
     (case encode_body m of
        None \<Rightarrow> None
      | Some body \<Rightarrow>
          if \<not> fits_u32 (word_of_nat (length body)) then None
          else let out = frame_header m (word_of_nat (length body)) @ body;
                   crc = crc32 out
               in Some (out @ bw_u32 crc []))"

definition decode_frame :: "byte list \<Rightarrow> FrameError + Message" where
  "decode_frame bytes =
     (if length bytes < kFrameHeaderSize + 4 then Inl FrameError.kTruncated
      else case br_u32 (byte_reader (take kFrameHeaderSize bytes)) of
        None \<Rightarrow> Inl FrameError.kTruncated
      | Some (magic, hr) \<Rightarrow>
      if magic \<noteq> kMagic then Inl FrameError.kBadMagic
      else case br_u32 hr of
        None \<Rightarrow> Inl FrameError.kTruncated
      | Some (version, hr) \<Rightarrow>
      if version \<noteq> PF_PROTOCOL_VERSION then Inl FrameError.kBadVersion
      else case br_u32 hr of
        None \<Rightarrow> Inl FrameError.kTruncated
      | Some (type, hr) \<Rightarrow>
      (case br_u32 hr of
        None \<Rightarrow> Inl FrameError.kTruncated
      | Some (seq, hr) \<Rightarrow>
      (case br_u32 hr of
        None \<Rightarrow> Inl FrameError.kTruncated
      | Some (body_len, hr) \<Rightarrow>
      if body_len > kMaxFrameBody then Inl FrameError.kBadLength
      else let body_start = kFrameHeaderSize;
               body_end = body_start + unat body_len;
               total = body_end + 4
      in if length bytes < total then Inl FrameError.kTruncated
      else if length bytes > total then Inl FrameError.kTrailingGarbage
      else case br_u32 (byte_reader (take 4 (drop body_end bytes))) of
        None \<Rightarrow> Inl FrameError.kTruncated
      | Some (stored_crc, cr) \<Rightarrow>
      if crc32 (take body_end bytes) \<noteq> stored_crc then Inl FrameError.kChecksum
      else case decode_body (take (unat body_len) (drop body_start bytes)) of
        None \<Rightarrow> Inl FrameError.kMalformedBody
      | Some msg \<Rightarrow>
      if enum_u32 MessageType_values (m_type msg) \<noteq> type then Inl FrameError.kMalformedBody
      else Inr (msg\<lparr>m_seq := seq\<rparr>))))"

section \<open>The streaming decoder\<close>

record FrameDecoder =
  fd_buffer :: "byte list"
  fd_fatal :: bool

definition frame_decoder :: FrameDecoder where
  "frame_decoder = \<lparr>fd_buffer = [], fd_fatal = False\<rparr>"

definition feed :: "byte list \<Rightarrow> FrameDecoder \<Rightarrow> FrameDecoder" where
  "feed data d = d\<lparr>fd_buffer := fd_buffer d @ data\<rparr>"

definition reset :: "FrameDecoder \<Rightarrow> FrameDecoder" where
  "reset d = d\<lparr>fd_buffer := [], fd_fatal := False\<rparr>"

definition set_fatal :: "FrameDecoder \<Rightarrow> FrameDecoder" where
  "set_fatal d = d\<lparr>fd_fatal := True, fd_buffer := []\<rparr>"

definition pop :: "FrameDecoder \<Rightarrow> Message option \<times> FrameDecoder" where
  "pop d =
     (let fatal = (None, set_fatal d);
          buffer = fd_buffer d
      in if fd_fatal d then (None, d)
      else if length buffer < kFrameHeaderSize + 4 then (None, d)
      else case br_u32 (byte_reader (take kFrameHeaderSize buffer)) of
        None \<Rightarrow> fatal
      | Some (magic, hr) \<Rightarrow>
      if magic \<noteq> kMagic then fatal
      else case br_u32 hr of
        None \<Rightarrow> fatal
      | Some (version, hr) \<Rightarrow>
      if version \<noteq> PF_PROTOCOL_VERSION then fatal
      else case br_u32 hr of
        None \<Rightarrow> fatal
      | Some (type, hr) \<Rightarrow>
      (case br_u32 hr of
        None \<Rightarrow> fatal
      | Some (seq, hr) \<Rightarrow>
      (case br_u32 hr of
        None \<Rightarrow> fatal
      | Some (body_len, hr) \<Rightarrow>
      if body_len > kMaxFrameBody then fatal
      else let body_start = kFrameHeaderSize;
               body_end = body_start + unat body_len;
               total = body_end + 4
      in if length buffer < total then (None, d)
      else case br_u32 (byte_reader (take 4 (drop body_end buffer))) of
        None \<Rightarrow> fatal
      | Some (stored_crc, cr) \<Rightarrow>
      if crc32 (take body_end buffer) \<noteq> stored_crc then fatal
      else case decode_body (take (unat body_len) (drop body_start buffer)) of
        None \<Rightarrow> fatal
      | Some msg \<Rightarrow> (Some (msg\<lparr>m_seq := seq\<rparr>), d\<lparr>fd_buffer := drop total buffer\<rparr>))))"

section \<open>Round trip of the body\<close>

interpretation message_wire: wire_enum MessageType_values
proof
  fix e :: MessageType
  show "e \<in> set MessageType_values" by (cases e) (simp_all add: MessageType_values_def)
qed (simp_all add: MessageType_values_def)

interpretation dependency_wire: wire_enum DependencyStatus_values
proof
  fix e :: DependencyStatus
  show "e \<in> set DependencyStatus_values" by (cases e) (simp_all add: DependencyStatus_values_def)
qed (simp_all add: DependencyStatus_values_def)

lemma message_zero: "enum_u32 MessageType_values t = 0 \<longleftrightarrow> t = MessageType.kInvalid"
proof -
  have "enum_u32 MessageType_values MessageType.kInvalid = 0" by (simp add: enum_u32_def MessageType_values_def)
  then show ?thesis using message_wire.u32_inject by metis
qed

text \<open>The messages a frame can carry: a real type, and strings that leave room in the body.\<close>

definition sendable :: "Message \<Rightarrow> bool" where
  "sendable m \<longleftrightarrow> m_type m \<noteq> MessageType.kInvalid \<and> 245 + length (m_detail m) + length (m_extra m) \<le> 64 * 1024"

definition body_bytes :: "Message \<Rightarrow> byte list" where
  "body_bytes m = encode_fields m [] @ string_le (m_detail m) @ string_le (m_extra m)"

lemma encode_fields_length [simp]: "length (encode_fields m []) = 237"
  by (simp add: encode_fields_def bw_u32_def bw_u64_def bw_u8_def Let_def)

lemma body_bytes_length: "length (body_bytes m) = 245 + length (m_detail m) + length (m_extra m)"
  by (simp add: body_bytes_def)

lemma encode_body_eq:
  assumes "length (m_detail m) < 2 ^ 32" "length (m_extra m) < 2 ^ 32"
  shows "encode_body m = Some (body_bytes m)"
  using assms by (simp add: encode_body_def bw_string_def fits_u32_of_length body_bytes_def)

lemma capture_flag [simp]: "(if b then 1 else 0 :: u8) \<noteq> 0 \<longleftrightarrow> b"
  by simp

lemma decode_body_bytes:
  assumes "m_type m \<noteq> MessageType.kInvalid" "length (m_detail m) < 2 ^ 32" "length (m_extra m) < 2 ^ 32"
  shows "decode_body (body_bytes m) = Some m"
proof -
  note casts = message_wire.cast_u32 progress_wire.cast_u32 resource_wire.cast_u32 reason_wire.cast_u32
    outcome_wire.cast_u32 lifecycle_wire.cast_u32 pclass_wire.cast_u32 resume_wire.cast_u32
    dependency_wire.cast_u32 preservation_wire.cast_u32
  note last = br_string_enc [where suf = "[]", simplified]
  show ?thesis using assms
    by (simp add: decode_body_def body_bytes_def encode_fields_def bw_u8_def bw_u32_def bw_u64_def Let_def
        byte_reader_at br_u8_enc br_u32_enc br_u64_enc br_string_enc last casts message_zero)
qed

section \<open>Round trip of a frame\<close>

lemma frame_header_eq:
  "frame_header m len = u32_le kMagic @ u32_le PF_PROTOCOL_VERSION @ u32_le (enum_u32 MessageType_values (m_type m))
     @ u32_le (m_seq m) @ u32_le len"
  by (simp add: frame_header_def bw_u32_def)

lemma frame_header_length [simp]: "length (frame_header m len) = 20"
  by (simp add: frame_header_eq)

definition sealed :: "byte list \<Rightarrow> byte list" where
  "sealed out = out @ u32_le (crc32 out)"

definition frame_bytes :: "Message \<Rightarrow> byte list" where
  "frame_bytes m = sealed (frame_header m (word_of_nat (length (body_bytes m))) @ body_bytes m)"

lemma frame_bytes_length: "length (frame_bytes m) = 24 + length (body_bytes m)"
  by (simp add: frame_bytes_def sealed_def)

lemma encode_frame_eq:
  assumes "length (body_bytes m) < 2 ^ 32"
  shows "encode_frame m = Some (frame_bytes m)"
proof -
  have "length (m_detail m) < 2 ^ 32" "length (m_extra m) < 2 ^ 32"
    using assms by (simp_all add: body_bytes_length)
  then show ?thesis using assms
    by (simp add: encode_frame_def encode_body_eq fits_u32_of_length frame_bytes_def sealed_def bw_u32_def Let_def)
qed

lemma br_u32_end: "br_u32 (reader_at pre (u32_le v)) = Some (v, reader_at (pre @ u32_le v) [])"
  using br_u32_enc [of pre v "[]"] by simp

text \<open>What both decoders do once the header in front of them is a header of a message.\<close>

lemma decode_frame_header:
  assumes "24 \<le> length b" "take 20 b = frame_header m len"
  shows "decode_frame b =
     (if len > kMaxFrameBody then Inl FrameError.kBadLength
      else if length b < 24 + unat len then Inl FrameError.kTruncated
      else if length b > 24 + unat len then Inl FrameError.kTrailingGarbage
      else case br_u32 (byte_reader (take 4 (drop (20 + unat len) b))) of
        None \<Rightarrow> Inl FrameError.kTruncated
      | Some (stored_crc, cr) \<Rightarrow>
      if crc32 (take (20 + unat len) b) \<noteq> stored_crc then Inl FrameError.kChecksum
      else case decode_body (take (unat len) (drop 20 b)) of
        None \<Rightarrow> Inl FrameError.kMalformedBody
      | Some msg \<Rightarrow>
      if m_type msg \<noteq> m_type m then Inl FrameError.kMalformedBody
      else Inr (msg\<lparr>m_seq := m_seq m\<rparr>))"
  using assms
  by (simp add: decode_frame_def kFrameHeaderSize_def frame_header_eq byte_reader_at br_u32_enc br_u32_end
      Let_def add.commute add.left_commute)
    (auto simp: message_wire.u32_inject add.commute split: option.split)

lemma pop_header:
  assumes "24 \<le> length (fd_buffer d)" "take 20 (fd_buffer d) = frame_header m len" "\<not> fd_fatal d"
  shows "pop d =
     (if len > kMaxFrameBody then (None, set_fatal d)
      else if length (fd_buffer d) < 24 + unat len then (None, d)
      else case br_u32 (byte_reader (take 4 (drop (20 + unat len) (fd_buffer d)))) of
        None \<Rightarrow> (None, set_fatal d)
      | Some (stored_crc, cr) \<Rightarrow>
      if crc32 (take (20 + unat len) (fd_buffer d)) \<noteq> stored_crc then (None, set_fatal d)
      else case decode_body (take (unat len) (drop 20 (fd_buffer d))) of
        None \<Rightarrow> (None, set_fatal d)
      | Some msg \<Rightarrow> (Some (msg\<lparr>m_seq := m_seq m\<rparr>), d\<lparr>fd_buffer := drop (24 + unat len) (fd_buffer d)\<rparr>))"
  using assms
  by (simp add: pop_def kFrameHeaderSize_def frame_header_eq byte_reader_at br_u32_enc br_u32_end
      Let_def add.commute add.left_commute)
    (auto simp: add.commute split: option.split)

lemma sendable_body:
  assumes "sendable m"
  shows "length (body_bytes m) < 2 ^ 32" "unat (word_of_nat (length (body_bytes m)) :: u32) = length (body_bytes m)"
    "\<not> word_of_nat (length (body_bytes m)) > kMaxFrameBody" "decode_body (body_bytes m) = Some m"
proof -
  have le: "length (body_bytes m) \<le> 65536" using assms by (simp add: sendable_def body_bytes_length)
  then show small: "length (body_bytes m) < 2 ^ 32" by simp
  then show u: "unat (word_of_nat (length (body_bytes m)) :: u32) = length (body_bytes m)" by (simp add: unat_of_nat)
  have "unat kMaxFrameBody = 65536" by (simp add: kMaxFrameBody_def)
  then show "\<not> word_of_nat (length (body_bytes m)) > kMaxFrameBody"
    using le u by (simp add: word_less_nat_alt)
  show "decode_body (body_bytes m) = Some m"
    using assms by (intro decode_body_bytes) (simp_all add: sendable_def)
qed

lemma frame_sections:
  "take 20 (frame_bytes m @ x) = frame_header m (word_of_nat (length (body_bytes m)))"
  "take (20 + length (body_bytes m)) (frame_bytes m @ x) = frame_header m (word_of_nat (length (body_bytes m))) @ body_bytes m"
  "take (length (body_bytes m)) (drop 20 (frame_bytes m @ x)) = body_bytes m"
  "take 4 (drop (20 + length (body_bytes m)) (frame_bytes m @ x))
     = u32_le (crc32 (frame_header m (word_of_nat (length (body_bytes m))) @ body_bytes m))"
  "drop (24 + length (body_bytes m)) (frame_bytes m @ x) = x"
  by (simp_all add: frame_bytes_def sealed_def)

lemma decode_frame_bytes:
  assumes "sendable m"
  shows "decode_frame (frame_bytes m) = Inr m"
proof -
  note s = frame_sections(1,2,3,4) [of m "[]", simplified]
  have "24 \<le> length (frame_bytes m)" by (simp add: frame_bytes_length)
  then show ?thesis using decode_frame_header [OF _ s(1)] sendable_body [OF assms] s(2-4)
    by (simp add: frame_bytes_length byte_reader_at br_u32_end)
qed

lemma pop_frame:
  assumes "sendable m"
  shows "pop \<lparr>fd_buffer = frame_bytes m @ rest, fd_fatal = False\<rparr> = (Some m, \<lparr>fd_buffer = rest, fd_fatal = False\<rparr>)"
proof -
  let ?d = "\<lparr>fd_buffer = frame_bytes m @ rest, fd_fatal = False\<rparr>"
  have "24 \<le> length (fd_buffer ?d)" by (simp add: frame_bytes_length)
  then show ?thesis using pop_header [of ?d m] frame_sections [of m rest] sendable_body [OF assms]
    by (simp add: frame_bytes_length byte_reader_at br_u32_end)
qed

lemma pop_short: "length (fd_buffer d) < 24 \<Longrightarrow> pop d = (None, d)"
  by (simp add: pop_def kFrameHeaderSize_def Let_def)

lemma pop_partial:
  assumes "sendable m" "n < length (frame_bytes m)"
  shows "pop \<lparr>fd_buffer = take n (frame_bytes m), fd_fatal = False\<rparr>
     = (None, \<lparr>fd_buffer = take n (frame_bytes m), fd_fatal = False\<rparr>)"
proof (cases "n < 24")
  case True
  then show ?thesis by (intro pop_short) simp
next
  case False
  let ?d = "\<lparr>fd_buffer = take n (frame_bytes m), fd_fatal = False\<rparr>"
  have len: "length (fd_buffer ?d) = n" using assms(2) by simp
  have "take 20 (fd_buffer ?d) = frame_header m (word_of_nat (length (body_bytes m)))"
    using False frame_sections(1) [of m "[]"] by simp
  then show ?thesis using pop_header [of ?d m] sendable_body [OF assms(1)] assms(2) False len
    by (simp add: frame_bytes_length)
qed

section \<open>Damaged frames\<close>

text \<open>A frame that is cut short or followed by other bytes.\<close>

lemma decode_frame_short: "length b < 24 \<Longrightarrow> decode_frame b = Inl FrameError.kTruncated"
  by (simp add: decode_frame_def kFrameHeaderSize_def)

lemma decode_frame_resized:
  assumes "sendable m" "n \<le> length (frame_bytes m) + length x"
  shows "n < length (frame_bytes m) \<Longrightarrow> decode_frame (take n (frame_bytes m @ x)) = Inl FrameError.kTruncated"
    and "n > length (frame_bytes m) \<Longrightarrow> decode_frame (take n (frame_bytes m @ x)) = Inl FrameError.kTrailingGarbage"
proof -
  let ?b = "take n (frame_bytes m @ x)"
  have len: "length ?b = n" using assms(2) by simp
  have header: "take 20 ?b = frame_header m (word_of_nat (length (body_bytes m)))" if "24 \<le> n"
    using that frame_sections(1) [of m x] by (simp del: take_append)
  show "decode_frame ?b = Inl FrameError.kTruncated" if "n < length (frame_bytes m)"
  proof (cases "n < 24")
    case True
    then show ?thesis using len decode_frame_short by (simp only:)
  next
    case False
    then show ?thesis
      using decode_frame_header [OF _ header] sendable_body [OF assms(1)] len that by (simp add: frame_bytes_length)
  qed
  show "decode_frame ?b = Inl FrameError.kTrailingGarbage" if "n > length (frame_bytes m)"
  proof -
    have "24 \<le> n" using that by (simp add: frame_bytes_length)
    then show ?thesis
      using decode_frame_header [OF _ header] sendable_body [OF assms(1)] len that by (simp add: frame_bytes_length)
  qed
qed

lemma read_crc_octets: "length d = 4 \<Longrightarrow> br_u32 (byte_reader d) = Some (v, r) \<Longrightarrow> d = u32_le v"
  using br_u32_octets [of d] by auto

text \<open>An accepted frame ends in the checksum of everything before it.\<close>

lemma decode_frame_accepted:
  assumes "decode_frame b = Inr m"
  shows "24 \<le> length b" "drop (length b - 4) b = u32_le (crc32 (take (length b - 4) b))"
proof -
  show "24 \<le> length b" using assms by (auto simp: decode_frame_def kFrameHeaderSize_def split: if_splits)
  then obtain len where "length b = 24 + len" using le_Suc_ex by blast
  with assms show "drop (length b - 4) b = u32_le (crc32 (take (length b - 4) b))"
    by (auto simp: decode_frame_def kFrameHeaderSize_def Let_def not_less
        dest!: read_crc_octets [rotated] split: if_splits option.splits prod.splits)
qed

lemma frame_codeword:
  assumes "decode_frame b = Inr m"
  shows "crc32 (take (length b - 4) b) = le_word (drop (length b - 4) b)"
  unfolding decode_frame_accepted(2) [OF assms] by (simp add: u32_le_def le_word_octets del: le_word.simps)

lemma decode_frame_burst:
  assumes "decode_frame (pre @ mid @ suf) = Inr m" "length mid' = length mid" "length mid \<le> 4" "mid' \<noteq> mid"
  shows "\<exists>e. decode_frame (pre @ mid' @ suf) = Inl e"
proof (cases "decode_frame (pre @ mid' @ suf)")
  case (Inr m')
  let ?d = "pre @ mid @ suf" and ?d' = "pre @ mid' @ suf"
  have "24 \<le> length ?d" "24 \<le> length ?d'" using decode_frame_accepted(1) [OF assms(1)] decode_frame_accepted(1) [OF Inr] by simp_all
  then have "length (drop (length ?d - 4) ?d) = 4" "length (drop (length ?d' - 4) ?d') = 4" by simp_all
  from crc32_codeword_burst [OF frame_codeword [OF assms(1)] frame_codeword [OF Inr] this _ _ assms(2,3)]
  have "mid' = mid" by (metis append_take_drop_id)
  then show ?thesis using assms(4) by simp
qed simp

text \<open>A body over the limit is written all the same, and refused by both decoders.\<close>

lemma oversized_frame:
  assumes "64 * 1024 < length (body_bytes m)" "length (body_bytes m) < 2 ^ 32"
  shows "encode_frame m = Some (frame_bytes m)" "decode_frame (frame_bytes m) = Inl FrameError.kBadLength"
    "pop \<lparr>fd_buffer = frame_bytes m @ rest, fd_fatal = False\<rparr> = (None, \<lparr>fd_buffer = [], fd_fatal = True\<rparr>)"
proof -
  show "encode_frame m = Some (frame_bytes m)" using assms(2) by (rule encode_frame_eq)
  have "unat (word_of_nat (length (body_bytes m)) :: u32) = length (body_bytes m)" using assms(2) by (simp add: unat_of_nat)
  moreover have "unat kMaxFrameBody = 65536" by (simp add: kMaxFrameBody_def)
  ultimately have over: "word_of_nat (length (body_bytes m)) > kMaxFrameBody" using assms(1) by (simp add: word_less_nat_alt)
  show "decode_frame (frame_bytes m) = Inl FrameError.kBadLength"
    using decode_frame_header [of "frame_bytes m" m] frame_sections(1) [of m "[]"] over by (simp add: frame_bytes_length)
  show "pop \<lparr>fd_buffer = frame_bytes m @ rest, fd_fatal = False\<rparr> = (None, \<lparr>fd_buffer = [], fd_fatal = True\<rparr>)"
    using pop_header [of "\<lparr>fd_buffer = frame_bytes m @ rest, fd_fatal = False\<rparr>" m] frame_sections(1) [of m rest] over
    by (simp add: frame_bytes_length set_fatal_def)
qed

section \<open>Streaming\<close>

text \<open>Popping until nothing comes: every successful pop shortens the buffer.\<close>

lemma pop_shrinks: "pop d = (Some m, d') \<Longrightarrow> length (fd_buffer d') < length (fd_buffer d)"
  by (auto simp: pop_def Let_def kFrameHeaderSize_def intro!: diff_less split: if_splits option.splits)

function drain :: "FrameDecoder \<Rightarrow> Message list \<times> FrameDecoder" where
  "drain d = (case pop d of (None, d') \<Rightarrow> ([], d') | (Some m, d') \<Rightarrow> apfst (Cons m) (drain d'))"
  by pat_completeness auto
termination
  by (relation "measure (\<lambda>d. length (fd_buffer d))") (auto dest: pop_shrinks sym)

declare drain.simps [simp del]

lemma drain_None: "pop d = (None, d') \<Longrightarrow> drain d = ([], d')"
  by (subst drain.simps) simp

lemma drain_Some: "pop d = (Some m, d') \<Longrightarrow> drain d = apfst (Cons m) (drain d')"
  by (subst drain.simps) simp

text \<open>A reader that drains the decoder after every chunk it receives.\<close>

fun stream :: "byte list list \<Rightarrow> FrameDecoder \<Rightarrow> Message list \<times> FrameDecoder" where
  "stream [] d = ([], d)"
| "stream (c # cs) d =
     (let (ms, d) = drain (feed c d); (ms', d) = stream cs d in (ms @ ms', d))"

abbreviation buffered :: "byte list \<Rightarrow> FrameDecoder" where
  "buffered b \<equiv> \<lparr>fd_buffer = b, fd_fatal = False\<rparr>"

abbreviation frames :: "Message list \<Rightarrow> byte list" where
  "frames ms \<equiv> concat (map frame_bytes ms)"

text \<open>
  Draining a buffer that is a prefix of a stream of frames takes out exactly the complete ones.
\<close>

lemma drain_prefix:
  assumes "\<forall>m \<in> set ms. sendable m" "b @ later = frames ms"
  shows "\<exists>ms1 ms2 b'. ms = ms1 @ ms2 \<and> drain (buffered b) = (ms1, buffered b') \<and> b' @ later = frames ms2 \<and>
     (later = [] \<longrightarrow> ms2 = [])"
  using assms
proof (induction ms arbitrary: b)
  case Nil
  then show ?case using drain_None [OF pop_short [of "buffered []"]] by auto
next
  case (Cons m ms)
  have sm: "sendable m" using Cons.prems(1) by simp
  show ?case
  proof (cases "length b < length (frame_bytes m)")
    case True
    then have b: "b = take (length b) (frame_bytes m)" using shorter_front [of b] Cons.prems(2) by simp
    then have "drain (buffered b) = ([], buffered b)"
      using pop_partial [OF sm True] by (metis drain_None)
    moreover have "later \<noteq> []" using True Cons.prems(2) by auto
    ultimately show ?thesis using Cons.prems(2) by (intro exI [of _ "[]"] exI [of _ "m # ms"] exI [of _ b]) auto
  next
    case False
    then obtain b1 where b: "b = frame_bytes m @ b1" "b1 @ later = frames ms"
      using longer_front [of b later "frame_bytes m" "frames ms"] Cons.prems(2) by auto
    then obtain ms1 ms2 b' where "ms = ms1 @ ms2" "drain (buffered b1) = (ms1, buffered b')" "b' @ later = frames ms2"
      "later = [] \<longrightarrow> ms2 = []"
      using Cons.IH [of b1] Cons.prems(1) by auto
    then show ?thesis using b(1) drain_Some [OF pop_frame [OF sm, of b1]]
      by (intro exI [of _ "m # ms1"] exI [of _ ms2] exI [of _ b']) simp
  qed
qed

lemma stream_frames_from:
  assumes "\<forall>m \<in> set ms. sendable m" "b @ concat cs = frames ms" "cs = [] \<Longrightarrow> ms = []"
  shows "stream cs (buffered b) = (ms, buffered [])"
  using assms
proof (induction cs arbitrary: b ms)
  case (Cons c cs)
  have "(b @ c) @ concat cs = frames ms" using Cons.prems(2) by simp
  then obtain ms1 ms2 b' where split: "ms = ms1 @ ms2" "drain (buffered (b @ c)) = (ms1, buffered b')"
    "b' @ concat cs = frames ms2" "concat cs = [] \<longrightarrow> ms2 = []"
    using drain_prefix [OF Cons.prems(1)] by blast
  have "stream cs (buffered b') = (ms2, buffered [])"
    using Cons.IH [of ms2 b'] split Cons.prems(1) by auto
  then show ?case using split by (simp add: feed_def)
qed simp

section \<open>Bounds and the fatal flag\<close>

lemma pop_fatal: "fd_fatal d \<Longrightarrow> pop d = (None, d)"
  by (simp add: pop_def Let_def)

lemma body_limit: "\<not> kMaxFrameBody < len \<Longrightarrow> unat len \<le> 65536"
  by (simp add: kMaxFrameBody_def word_less_nat_alt not_less)

lemma pop_None_bound:
  assumes "pop d = (None, d')" "\<not> fd_fatal d'"
  shows "length (fd_buffer d') < 24 + 65536"
  using assms
  by (auto simp: pop_def Let_def kFrameHeaderSize_def set_fatal_def dest!: body_limit
      split: if_splits option.splits prod.splits)

lemma drain_bound:
  assumes "drain d = (ms, d')" "\<not> fd_fatal d'"
  shows "length (fd_buffer d') < 24 + 65536"
  using assms
proof (induction "length (fd_buffer d)" arbitrary: d ms rule: less_induct)
  case less
  show ?case
  proof (cases "pop d")
    case (Pair o' d1)
    show ?thesis
    proof (cases o')
      case None
      then show ?thesis using less.prems Pair drain_None [of d d1] pop_None_bound [of d d1] by simp
    next
      case (Some m)
      then have "drain d = apfst (Cons m) (drain d1)" using Pair drain_Some by blast
      then obtain ms1 where "drain d1 = (ms1, d')" using less.prems(1) by (cases "drain d1") auto
      then show ?thesis using less.hyps [of d1 ms1] less.prems(2) Pair Some pop_shrinks by simp
    qed
  qed
qed

section \<open>The two decoders\<close>

text \<open>A frame whose header announces another type than its body.\<close>

definition relabelled :: "Message \<Rightarrow> MessageType \<Rightarrow> byte list" where
  "relabelled m t = sealed (frame_header (m\<lparr>m_type := t\<rparr>) (word_of_nat (length (body_bytes m))) @ body_bytes m)"

lemma relabelled_sections:
  "take 20 (relabelled m t) = frame_header (m\<lparr>m_type := t\<rparr>) (word_of_nat (length (body_bytes m)))"
  "take (20 + length (body_bytes m)) (relabelled m t)
     = frame_header (m\<lparr>m_type := t\<rparr>) (word_of_nat (length (body_bytes m))) @ body_bytes m"
  "take (length (body_bytes m)) (drop 20 (relabelled m t)) = body_bytes m"
  "take 4 (drop (20 + length (body_bytes m)) (relabelled m t))
     = u32_le (crc32 (frame_header (m\<lparr>m_type := t\<rparr>) (word_of_nat (length (body_bytes m))) @ body_bytes m))"
  "length (relabelled m t) = 24 + length (body_bytes m)"
  by (simp_all add: relabelled_def sealed_def)

lemma relabelled_frame:
  assumes "sendable m" "t \<noteq> m_type m"
  shows "decode_frame (relabelled m t) = Inl FrameError.kMalformedBody"
    and "pop (buffered (relabelled m t)) = (Some m, buffered [])"
proof -
  note s = relabelled_sections [of m t]
  show "decode_frame (relabelled m t) = Inl FrameError.kMalformedBody"
    using decode_frame_header [OF _ s(1)] sendable_body [OF assms(1)] s assms(2) by (simp add: byte_reader_at br_u32_end)
  show "pop (buffered (relabelled m t)) = (Some m, buffered [])"
    using pop_header [of "buffered (relabelled m t)" "m\<lparr>m_type := t\<rparr>"] sendable_body [OF assms(1)] s
    by (simp add: byte_reader_at br_u32_end)
qed

section \<open>Properties\<close>

definition sample_message :: Message where
  "sample_message = default_Message\<lparr>m_type := MessageType.kQuiesced, m_seq := 5, m_worker_boot_id := IdV 42,
     m_detail := ''ok''\<rparr>"

lemma sample_message_sendable: "sendable sample_message"
  by (simp add: sample_message_def default_Message_def sendable_def)

lemma sample_message_type: "m_type sample_message = MessageType.kQuiesced"
  by (simp add: sample_message_def)

lemma sample_message_size: "length (body_bytes sample_message) = 247"
  by (simp add: body_bytes_length sample_message_def default_Message_def)

text \<open>
  C23: a message with a real type whose body stays within the 64 KiB limit is encoded, and
  decoding the frame gives back the same message, field by field.
\<close>
theorem frame_roundtrip:
  assumes "sendable m"
  shows "\<exists>f. encode_frame m = Some f \<and> decode_frame f = Inr m"
  using encode_frame_eq [OF sendable_body(1) [OF assms]] decode_frame_bytes [OF assms] by blast

theorem frame_roundtrip_witness:
  "\<exists>f. encode_frame sample_message = Some f \<and> decode_frame f = Inr sample_message"
  by (rule frame_roundtrip [OF sample_message_sendable])

text \<open>
  C25: a byte stream that consists of the frames of a list of messages is decoded to exactly that
  list, in order, with nothing left over and no protocol error, however it is cut into chunks.
\<close>
theorem stream_delivers_frames:
  assumes "\<forall>m \<in> set ms. sendable m" "concat chunks = concat (map (the \<circ> encode_frame) ms)"
  shows "stream chunks frame_decoder = (ms, frame_decoder)"
proof -
  have "map (the \<circ> encode_frame) ms = map frame_bytes ms"
    using assms(1) encode_frame_eq sendable_body(1) by simp
  then have flat: "concat chunks = frames ms" using assms(2) by (simp only:)
  have "ms = []" if "chunks = []"
    using that flat frame_bytes_length by (cases ms) (auto simp: frame_bytes_length dest: arg_cong [of _ _ length])
  then show ?thesis using stream_frames_from [OF assms(1), of "[]" chunks] flat by (simp add: frame_decoder_def)
qed

theorem stream_delivers_frames_witness:
  "stream [take 3 (the (encode_frame sample_message)), drop 3 (the (encode_frame sample_message))] frame_decoder
     = ([sample_message], frame_decoder)"
  using stream_delivers_frames [of "[sample_message]"
      "[take 3 (the (encode_frame sample_message)), drop 3 (the (encode_frame sample_message))]"]
    sample_message_sendable by simp

text \<open>
  C24: an accepted frame in which any run of at most four consecutive bytes has been changed is rejected,
  wherever the run lies: in the header, in the body, in the checksum or across a boundary between them.
\<close>
theorem frame_detects_burst:
  assumes "decode_frame (pre @ mid @ suf) = Inr m"
    and "length mid' = length mid" "length mid \<le> 4" "mid' \<noteq> mid"
  shows "\<exists>e. decode_frame (pre @ mid' @ suf) = Inl e"
  using assms by (rule decode_frame_burst)

lemma frame_magic_split:
  "frame_bytes sample_message = [] @ take 1 (frame_bytes sample_message) @ drop 1 (frame_bytes sample_message)"
  "take 1 (frame_bytes sample_message) = [0x50]" "length (frame_bytes sample_message) = 271"
proof -
  show "length (frame_bytes sample_message) = 271" by (simp add: frame_bytes_length sample_message_size)
  show "take 1 (frame_bytes sample_message) = [0x50]"
    by (simp add: frame_bytes_def sealed_def frame_header_eq) (simp add: u32_le_def kMagic_def)
qed simp

theorem frame_detects_burst_witness:
  "\<exists>e. decode_frame ([] @ [0x51] @ drop 1 (frame_bytes sample_message)) = Inl e"
proof (rule frame_detects_burst)
  show "decode_frame ([] @ [0x50] @ drop 1 (frame_bytes sample_message)) = Inr sample_message"
    using frame_magic_split(1,2) decode_frame_bytes [OF sample_message_sendable] by metis
qed (simp_all add: frame_magic_split(3))

text \<open>
  A frame that is cut short is reported as truncated, and a frame followed by other bytes as
  trailing garbage.
\<close>
theorem frame_resized:
  assumes "sendable m" "n \<le> length (frame_bytes m) + length x" "n \<noteq> length (frame_bytes m)"
  shows "decode_frame (take n (frame_bytes m @ x)) =
     Inl (if n < length (frame_bytes m) then FrameError.kTruncated else FrameError.kTrailingGarbage)"
  using decode_frame_resized [OF assms(1,2)] assms(3) by auto

theorem frame_resized_witness:
  "decode_frame (take 30 (frame_bytes sample_message @ [])) = Inl FrameError.kTruncated \<and>
   decode_frame (take 272 (frame_bytes sample_message @ [7])) = Inl FrameError.kTrailingGarbage"
  using frame_resized [OF sample_message_sendable, of 30 "[]"] frame_resized [OF sample_message_sendable, of 272 "[7]"]
  by (simp only: frame_magic_split(3)) simp

text \<open>
  Whatever bytes arrive, a decoder that is drained after each chunk either has hit a protocol
  error or holds fewer bytes than the largest frame (header, 64 KiB body and checksum).
\<close>
theorem decoder_buffer_bounded:
  "fd_fatal (snd (drain d)) \<or> length (fd_buffer (snd (drain d))) < kFrameHeaderSize + unat kMaxFrameBody + 4"
  using drain_bound [of d "fst (drain d)" "snd (drain d)"] by (auto simp: kFrameHeaderSize_def kMaxFrameBody_def)

text \<open>
  The two decoders disagree on a frame whose header announces another type than its body: the
  single-frame decoder rejects it, the streaming decoder delivers the body's message.
\<close>
theorem decoders_disagree_on_type:
  assumes "sendable m" "t \<noteq> m_type m"
  shows "decode_frame (relabelled m t) = Inl FrameError.kMalformedBody \<and>
     pop (feed (relabelled m t) frame_decoder) = (Some m, frame_decoder)"
  using relabelled_frame [OF assms] by (simp add: feed_def frame_decoder_def)

theorem decoders_disagree_on_type_witness:
  "decode_frame (relabelled sample_message MessageType.kCancel) = Inl FrameError.kMalformedBody \<and>
   pop (feed (relabelled sample_message MessageType.kCancel) frame_decoder) = (Some sample_message, frame_decoder)"
  by (rule decoders_disagree_on_type [OF sample_message_sendable]) (simp add: sample_message_type)

text \<open>
  The encoder does not enforce the body limit: a message whose body is larger is framed, and
  the receiving decoder turns it into a fatal protocol error that drops everything buffered.
\<close>
theorem oversized_message_is_fatal:
  assumes "64 * 1024 < length (body_bytes m)" "length (body_bytes m) < 2 ^ 32"
  shows "\<exists>f. encode_frame m = Some f \<and> decode_frame f = Inl FrameError.kBadLength \<and>
     pop (feed (f @ rest) frame_decoder) = (None, \<lparr>fd_buffer = [], fd_fatal = True\<rparr>)"
  using oversized_frame [OF assms] by (auto simp: feed_def frame_decoder_def)

definition oversized_message :: Message where
  "oversized_message = sample_message\<lparr>m_detail := replicate 65536 (CHR ''x'')\<rparr>"

lemma oversized_message_size: "length (body_bytes oversized_message) = 65781"
  by (simp add: body_bytes_length oversized_message_def sample_message_def default_Message_def)

theorem oversized_message_is_fatal_witness:
  "\<exists>f. encode_frame oversized_message = Some f \<and> decode_frame f = Inl FrameError.kBadLength \<and>
     pop (feed (f @ []) frame_decoder) = (None, \<lparr>fd_buffer = [], fd_fatal = True\<rparr>)"
  by (rule oversized_message_is_fatal) (simp_all add: oversized_message_size)

end
