(* ===== verification/PF_Connection.thy ===== *)
theory PF_Connection
  imports PF_Protocol
begin

text \<open>
  The framed TCP connection (\<^verbatim>\<open>protocol/connection.hpp\<close>, \<^verbatim>\<open>src/protocol/connection.cpp\<close>). The
  socket calls are the operating system's: the results of successive \<^verbatim>\<open>::send\<close> and \<^verbatim>\<open>::recv\<close>
  calls are arguments of the model, and a loop that runs out of results is still blocked in the
  call, which is the value \<open>None\<close>. What is assumed of \<^verbatim>\<open>::send\<close> is its documented contract: a
  positive result is the number of bytes taken from the front of the buffer it was offered.
\<close>

section \<open>The loops\<close>

definition kInvalidSocket :: int where
  "kInvalidSocket = -1"

definition kChunk :: nat where
  "kChunk = 1048576"

record TcpConnection =
  tc_sock :: int
  tc_decoder :: FrameDecoder

definition tcp_connection :: "int \<Rightarrow> TcpConnection" where
  "tcp_connection sock = \<lparr>tc_sock = sock, tc_decoder = frame_decoder\<rparr>"

definition is_open :: "TcpConnection \<Rightarrow> bool" where
  "is_open c \<longleftrightarrow> tc_sock c \<noteq> kInvalidSocket"

definition protocol_failed :: "TcpConnection \<Rightarrow> bool" where
  "protocol_failed c = fd_fatal (tc_decoder c)"

text \<open>
  \<open>write_all results data\<close> gives the return value, the bytes handed to the network and the
  results not used.
\<close>

fun write_all :: "int list \<Rightarrow> byte list \<Rightarrow> bool option \<times> byte list \<times> int list" where
  "write_all results [] = (Some True, [], results)"
| "write_all [] (b # bs) = (None, [], [])"
| "write_all (r # results) (b # bs) =
     (let remaining = b # bs;
          chunk = (if length remaining > kChunk then kChunk else length remaining)
      in if r \<le> 0 then (Some False, [], results)
         else let (ok, sent, rest) = write_all results (drop (nat r) remaining)
              in (ok, take (nat r) (take chunk remaining) @ sent, rest))"

definition send :: "int list \<Rightarrow> Message \<Rightarrow> TcpConnection \<Rightarrow> (bool option \<times> byte list \<times> int list) option" where
  "send results message c =
     (if tc_sock c = kInvalidSocket then Some (Some False, [], results)
      else case encode_frame message of
             None \<Rightarrow> None
           | Some frame \<Rightarrow> Some (write_all results frame))"

datatype recv_result = RecvData "byte list" | RecvClosed | RecvFailed

text \<open>The \<^verbatim>\<open>for (;;)\<close> loop: \<open>Some None\<close> is \<^verbatim>\<open>return false\<close>.\<close>

fun receive_loop ::
  "recv_result list \<Rightarrow> FrameDecoder \<Rightarrow> Message option option \<times> FrameDecoder \<times> recv_result list" where
  "receive_loop [] d =
     (if fd_fatal d then (Some None, d, [])
      else case pop d of
             (Some m, d) \<Rightarrow> (Some (Some m), d, [])
           | (None, d) \<Rightarrow> (None, d, []))"
| "receive_loop (i # inputs) d =
     (if fd_fatal d then (Some None, d, i # inputs)
      else case pop d of
             (Some m, d) \<Rightarrow> (Some (Some m), d, i # inputs)
           | (None, d) \<Rightarrow>
               (case i of
                  RecvClosed \<Rightarrow> (Some None, d, inputs)
                | RecvFailed \<Rightarrow> (Some None, d, inputs)
                | RecvData buf \<Rightarrow> receive_loop inputs (feed buf d)))"

definition receive ::
  "recv_result list \<Rightarrow> TcpConnection \<Rightarrow> Message option option \<times> TcpConnection \<times> recv_result list" where
  "receive inputs c =
     (if tc_sock c = kInvalidSocket then (Some None, c, inputs)
      else let (res, d, rest) = receive_loop inputs (tc_decoder c) in (res, c\<lparr>tc_decoder := d\<rparr>, rest))"

definition close :: "TcpConnection \<Rightarrow> TcpConnection" where
  "close c = c\<lparr>tc_sock := kInvalidSocket\<rparr>"

section \<open>Sending\<close>

text \<open>The documented contract of the calls: no result exceeds the number of bytes offered.\<close>

fun send_contract :: "int list \<Rightarrow> byte list \<Rightarrow> bool" where
  "send_contract results [] = True"
| "send_contract [] (b # bs) = True"
| "send_contract (r # results) (b # bs) =
     (r \<le> int (min kChunk (length (b # bs))) \<and> (0 < r \<longrightarrow> send_contract results (drop (nat r) (b # bs))))"

lemma write_all_sent:
  assumes "send_contract results data" "write_all results data = (ok, sent, rest)"
  shows "(\<exists>n. sent = take n data) \<and> (ok = Some True \<longrightarrow> sent = data)"
  using assms
proof (induction results data arbitrary: ok sent rest rule: write_all.induct)
  case (3 r results b bs)
  show ?case
  proof (cases "r \<le> 0")
    case True
    then show ?thesis using 3(3) by (auto simp: Let_def intro: exI [of _ 0])
  next
    case False
    obtain ok' sent' rest' where step: "write_all results (drop (nat r) (b # bs)) = (ok', sent', rest')"
      by (metis prod_cases3)
    have le: "nat r \<le> kChunk" "nat r \<le> length (b # bs)" using 3(2) False by auto
    have offered: "take (nat r) (take (if length (b # bs) > kChunk then kChunk else length (b # bs)) (b # bs))
        = take (nat r) (b # bs)"
      using le by (simp add: min_absorb1)
    have sent: "sent = take (nat r) (b # bs) @ sent'" "ok = ok'"
      using 3(3) False step offered by (auto simp: Let_def)
    have ih: "(\<exists>n. sent' = take n (drop (nat r) (b # bs))) \<and> (ok' = Some True \<longrightarrow> sent' = drop (nat r) (b # bs))"
      using 3(1) [OF refl refl False _ step] 3(2) False by simp
    then obtain n where "sent' = take n (drop (nat r) (b # bs))" by blast
    then have "sent = take (nat r + n) (b # bs)" using sent by (simp only: take_add)
    then show ?thesis using ih sent by (metis append_take_drop_id)
  qed
qed auto

text \<open>Every positive result makes progress, so a peer that keeps taking bytes gets the whole frame.\<close>

lemma write_all_completes:
  assumes "length data \<le> length results" "\<forall>r \<in> set results. 0 < r"
  shows "\<exists>sent rest. write_all results data = (Some True, sent, rest)"
  using assms
proof (induction results data rule: write_all.induct)
  case (3 r results b bs)
  have "0 < r" using 3(3) by simp
  then have "1 \<le> nat r" by linarith
  then have "length (drop (nat r) (b # bs)) \<le> length results" using 3(2) by (simp add: Suc_le_eq)
  then obtain sent rest where "write_all results (drop (nat r) (b # bs)) = (Some True, sent, rest)"
    using 3(1) [OF refl refl] 3(3) by fastforce
  then show ?case using 3(3) by (simp add: Let_def)
qed auto

section \<open>Receiving\<close>

lemma receive_one:
  assumes "\<forall>x \<in> set (m # ms). sendable x" "b @ concat cs = frames (m # ms)"
  shows "\<exists>b' cs'. receive_loop (map RecvData cs @ tail) (buffered b) = (Some (Some m), buffered b', map RecvData cs' @ tail) \<and>
     b' @ concat cs' = frames ms"
  using assms(2)
proof (induction cs arbitrary: b)
  case Nil
  then have "pop (buffered b) = (Some m, buffered (frames ms))" using pop_frame [of m "frames ms"] assms(1) by simp
  then show ?case by (cases tail) (auto intro: exI [of _ "[]"])
next
  case (Cons c cs)
  have sm: "sendable m" using assms(1) by simp
  show ?case
  proof (cases "length b < length (frame_bytes m)")
    case True
    then have "b = take (length b) (frame_bytes m)" using shorter_front [of b] Cons.prems by simp
    then have "pop (buffered b) = (None, buffered b)" using pop_partial [OF sm True] by metis
    then show ?thesis using Cons.IH [of "b @ c"] Cons.prems by (simp add: feed_def)
  next
    case False
    then obtain b1 where b: "b = frame_bytes m @ b1" "b1 @ concat (c # cs) = frames ms"
      using longer_front [of b "concat (c # cs)" "frame_bytes m" "frames ms"] Cons.prems by auto
    then have "receive_loop (map RecvData (c # cs) @ tail) (buffered b)
        = (Some (Some m), buffered b1, map RecvData (c # cs) @ tail)"
      using pop_frame [OF sm, of b1] b(1) by simp
    then show ?thesis using b(2) by blast
  qed
qed

text \<open>A client that receives \<open>n\<close> messages in a row; it stops at the first failing or blocked call.\<close>

fun receive_n :: "nat \<Rightarrow> recv_result list \<Rightarrow> TcpConnection \<Rightarrow> Message list \<times> TcpConnection" where
  "receive_n 0 inputs c = ([], c)"
| "receive_n (Suc n) inputs c =
     (case receive inputs c of
        (Some (Some m), c, rest) \<Rightarrow> apfst (Cons m) (receive_n n rest c)
      | (_, c, rest) \<Rightarrow> ([], c))"

lemma receive_n_frames:
  assumes "\<forall>m \<in> set ms. sendable m" "b @ concat cs = frames ms" "sock \<noteq> kInvalidSocket"
  shows "fst (receive_n (length ms) (map RecvData cs) \<lparr>tc_sock = sock, tc_decoder = buffered b\<rparr>) = ms"
  using assms(1,2)
proof (induction ms arbitrary: b cs)
  case (Cons m ms)
  obtain b' cs' where "receive_loop (map RecvData cs) (buffered b) = (Some (Some m), buffered b', map RecvData cs')"
    "b' @ concat cs' = frames ms"
    using receive_one [OF Cons.prems, of "[]"] by auto
  then show ?case using Cons.IH [of b' cs'] Cons.prems(1) assms(3) by (simp add: receive_def)
qed simp

section \<open>Properties\<close>

text \<open>
  Under the documented contract of the socket calls, whatever part of the frame each call
  takes, the bytes handed to the network are always a prefix of the frame, and when the send
  reports success they are the whole frame.
\<close>
theorem send_transmits_frame:
  assumes "encode_frame m = Some f" "send_contract results f" "is_open c"
    and "send results m c = Some (ok, sent, rest)"
  shows "(\<exists>n. sent = take n f) \<and> (ok = Some True \<longrightarrow> sent = f)"
  using write_all_sent [OF assms(2), of ok sent rest] assms(1,3,4) by (simp add: send_def is_open_def)

lemma sample_message_frame: "encode_frame sample_message = Some (frame_bytes sample_message)"
  by (rule encode_frame_eq) (simp add: sample_message_size)

lemma partial_write:
  assumes "length f = 271"
  shows "send_contract [200, 71] f \<and> write_all [200, 71] f = (Some True, f, [])"
proof -
  obtain b bs where f: "f = b # bs" using assms by (cases f) auto
  have rest: "length (drop 200 f) = 71" using assms by simp
  then obtain b' bs' where f': "drop 200 f = b' # bs'" by (cases "drop 200 f") auto
  have "send_contract [200, 71] f" using assms f f' rest by (simp add: kChunk_def)
  moreover have "write_all [71] (drop 200 f) = (Some True, drop 200 f, [])"
    using rest unfolding f' by (simp add: kChunk_def Let_def)
  then have "write_all [200, 71] f = (Some True, take 200 f @ drop 200 f, [])"
    using assms unfolding f by (simp add: kChunk_def Let_def)
  ultimately show ?thesis by simp
qed

theorem send_transmits_frame_witness:
  "\<exists>sent. send [200, 71] sample_message (tcp_connection 3) = Some (Some True, sent, []) \<and> sent = frame_bytes sample_message"
proof -
  obtain sent where run: "send [200, 71] sample_message (tcp_connection 3) = Some (Some True, sent, [])"
    using partial_write [of "frame_bytes sample_message"] frame_magic_split(3)
    by (simp add: send_def tcp_connection_def kInvalidSocket_def sample_message_frame)
  have "(\<exists>n. sent = take n (frame_bytes sample_message)) \<and> (Some True = Some True \<longrightarrow> sent = frame_bytes sample_message)"
    by (rule send_transmits_frame [OF sample_message_frame _ _ run])
      (simp_all add: partial_write frame_magic_split(3) is_open_def tcp_connection_def kInvalidSocket_def)
  then show ?thesis using run by blast
qed

text \<open>
  C26: a send over an open socket that keeps taking bytes, however few at a time, returns with
  success after at most as many system calls as the frame has bytes, and what it handed to the
  network is exactly the frame: no partial write loses, repeats or reorders a byte.
\<close>
theorem send_returns:
  assumes "encode_frame m = Some f" "length f \<le> length results" "\<forall>r \<in> set results. 0 < r" "is_open c"
    and "send_contract results f"
  shows "\<exists>rest. send results m c = Some (Some True, f, rest)"
proof -
  obtain sent rest where run: "write_all results f = (Some True, sent, rest)" using write_all_completes [OF assms(2,3)] by blast
  then have "sent = f" using write_all_sent [OF assms(5)] by blast
  then show ?thesis using run assms(1,4) by (simp add: send_def is_open_def)
qed

lemma single_bytes_contract: "send_contract (replicate (length f) 1) f"
  by (induction f) (simp_all add: kChunk_def)

theorem send_returns_witness:
  "\<exists>rest. send (replicate 271 1) sample_message (tcp_connection 3) = Some (Some True, frame_bytes sample_message, rest)"
proof (rule send_returns [OF sample_message_frame])
  show "send_contract (replicate 271 1) (frame_bytes sample_message)"
    using single_bytes_contract [of "frame_bytes sample_message"] by (simp add: frame_magic_split(3))
qed (simp_all add: frame_magic_split(3) is_open_def tcp_connection_def kInvalidSocket_def)

text \<open>
  C27: end to end over a byte stream: when the frames of a list of messages arrive in any chunks,
  receiving that many messages on a fresh connection returns exactly the list, in order.
\<close>
theorem receive_delivers_sent:
  assumes "\<forall>m \<in> set ms. sendable m" "concat chunks = concat (map (the \<circ> encode_frame) ms)" "sock \<noteq> kInvalidSocket"
  shows "fst (receive_n (length ms) (map RecvData chunks) (tcp_connection sock)) = ms"
proof -
  have "map (the \<circ> encode_frame) ms = map frame_bytes ms"
    using assms(1) encode_frame_eq sendable_body(1) by simp
  then have "[] @ concat chunks = frames ms" using assms(2) by (simp only: append_Nil)
  then show ?thesis using receive_n_frames [OF assms(1) _ assms(3)] by (simp add: tcp_connection_def frame_decoder_def)
qed

theorem receive_delivers_sent_witness:
  "fst (receive_n (length [sample_message, sample_message])
     (map RecvData [the (encode_frame sample_message) @ take 9 (the (encode_frame sample_message)),
        drop 9 (the (encode_frame sample_message))]) (tcp_connection 3)) = [sample_message, sample_message]"
  by (rule receive_delivers_sent) (simp_all add: sample_message_sendable kInvalidSocket_def)

end
