(* ===== verification/PF_Worker.thy ===== *)
theory PF_Worker
  imports PF_Protocol
begin

text \<open>
  The reference worker process (\<^verbatim>\<open>src/coordinator/worker.cpp\<close>): its registration and its command
  loop. The local variables of \<^verbatim>\<open>main\<close> are a record; the messages handed to \<^verbatim>\<open>conn.send\<close> are the
  output of a step, and the messages \<^verbatim>\<open>conn.receive\<close> delivers are its input, the end of the list
  being the closed connection. The command line, the socket and the bytes are in \<open>PF_Process\<close>; the
  lines printed are not modelled.
\<close>

section \<open>The process\<close>

record Worker =
  wk_id :: WorkerId
  wk_label :: string
  wk_boot :: WorkerBootId
  wk_epoch :: CoordinatorEpoch
  wk_seq :: u64

definition worker_start :: "WorkerId \<Rightarrow> string \<Rightarrow> Worker" where
  "worker_start worker_id label =
     \<lparr>wk_id = worker_id, wk_label = label, wk_boot = id_default, wk_epoch = gen_default, wk_seq = 0\<rparr>"

text \<open>\<^verbatim>\<open>static_cast<std::uint32_t>(seq++)\<close>\<close>

definition next_seq :: "Worker \<Rightarrow> u32 \<times> Worker" where
  "next_seq w = (ucast (wk_seq w), w\<lparr>wk_seq := wk_seq w + 1\<rparr>)"

definition worker_register :: "Worker \<Rightarrow> Message list \<times> Worker" where
  "worker_register w =
     (let (s, w) = next_seq w;
          hello = default_Message\<lparr>m_type := MessageType.kHello, m_seq := s, m_worker_id := wk_id w, m_detail := wk_label w\<rparr>;
          (s, w) = next_seq w;
          reg = default_Message\<lparr>m_type := MessageType.kRegister, m_seq := s, m_worker_id := wk_id w, m_detail := wk_label w\<rparr>
      in ([hello, reg], w))"

definition worker_registered :: "Message \<Rightarrow> Worker \<Rightarrow> Worker" where
  "worker_registered reg_ack w = w\<lparr>wk_boot := m_worker_boot_id reg_ack, wk_epoch := m_coordinator_epoch reg_ack\<rparr>"

text \<open>One command: the exit code if the process ends, the messages sent and the new state.\<close>

definition worker_handle :: "Message \<Rightarrow> Worker \<Rightarrow> int option \<times> Message list \<times> Worker" where
  "worker_handle cmd w =
     (case m_type cmd of
        MessageType.kBeginExecution \<Rightarrow> (None, [], w)
      | MessageType.kPublishProgress \<Rightarrow>
          (let (s, w) = next_seq w;
               prog = default_Message\<lparr>m_type := MessageType.kPublishProgress, m_seq := s,
                        m_worker_id := wk_id w, m_worker_boot_id := wk_boot w,
                        m_execution_id := m_execution_id cmd, m_execution_generation := m_execution_generation cmd,
                        m_attempt_id := m_attempt_id cmd, m_attempt_generation := m_attempt_generation cmd,
                        m_coordinator_epoch := wk_epoch w, m_progress_position := m_progress_position cmd,
                        m_progress_kind := ProgressKind.kDurable\<rparr>;
               (s, w) = next_seq w;
               reach = default_Message\<lparr>m_type := MessageType.kReachSafePoint, m_seq := s,
                        m_worker_id := wk_id w, m_worker_boot_id := wk_boot w,
                        m_execution_id := m_execution_id cmd, m_execution_generation := m_execution_generation cmd,
                        m_attempt_id := m_attempt_id cmd, m_attempt_generation := m_attempt_generation cmd,
                        m_coordinator_epoch := wk_epoch w, m_safe_point_id := m_safe_point_id cmd,
                        m_safe_point_position := m_progress_position cmd,
                        m_safe_point_capture_required := m_safe_point_capture_required cmd\<rparr>
           in (None, [prog, reach], w))
      | MessageType.kQuiesced \<Rightarrow>
          (let (s, w) = next_seq w;
               ack = default_Message\<lparr>m_type := MessageType.kQuiesced, m_seq := s,
                       m_worker_id := wk_id w, m_worker_boot_id := wk_boot w, m_coordinator_epoch := wk_epoch w,
                       m_execution_id := m_execution_id cmd, m_execution_generation := m_execution_generation cmd,
                       m_attempt_id := m_attempt_id cmd, m_attempt_generation := m_attempt_generation cmd\<rparr>
           in (None, [ack], w))
      | MessageType.kResumed \<Rightarrow>
          (let (s, w) = next_seq w;
               ack = default_Message\<lparr>m_type := MessageType.kResumed, m_seq := s,
                       m_worker_id := wk_id w, m_worker_boot_id := wk_boot w, m_coordinator_epoch := wk_epoch w,
                       m_execution_id := m_execution_id cmd, m_execution_generation := m_execution_generation cmd,
                       m_attempt_id := m_attempt_id cmd, m_attempt_generation := m_attempt_generation cmd,
                       m_resume_generation := m_resume_generation cmd\<rparr>
           in (None, [ack], w))
      | MessageType.kShutdown \<Rightarrow>
          (let (s, w) = next_seq w;
               ack = default_Message\<lparr>m_type := MessageType.kShutdown, m_seq := s\<rparr>
           in (Some 0, [ack], w))
      | _ \<Rightarrow> (Some 1, [], w))"

fun worker_loop :: "Message list \<Rightarrow> Worker \<Rightarrow> int \<times> Message list \<times> Worker" where
  "worker_loop [] w = (0, [], w)"
| "worker_loop (cmd # cmds) w =
     (case worker_handle cmd w of
        (Some code, out, w) \<Rightarrow> (code, out, w)
      | (None, out, w) \<Rightarrow>
          let (code, out', w) = worker_loop cmds w in (code, out @ out', w))"

section \<open>What the worker sends\<close>

text \<open>The sequence numbers that follow \<open>s\<close>, as the wire carries them.\<close>

definition seq_from :: "u64 \<Rightarrow> nat \<Rightarrow> u32 list" where
  "seq_from s n = map (\<lambda>i. ucast (s + word_of_nat i)) [0..<n]"

lemma seq_from_add: "seq_from s (m + n) = seq_from s m @ seq_from (s + word_of_nat m) n"
  by (rule nth_equalityI) (auto simp: seq_from_def nth_append add.assoc of_nat_diff)

lemma worker_handle_seq:
  assumes "worker_handle cmd w = (code, out, w')"
  shows "map m_seq out = seq_from (wk_seq w) (length out) \<and> wk_seq w' = wk_seq w + word_of_nat (length out)"
  using assms
  by (auto simp: worker_handle_def next_seq_def seq_from_def Let_def upt_conv_Cons split: MessageType.splits)

lemma worker_loop_seq:
  assumes "worker_loop cmds w = (code, out, w')"
  shows "map m_seq out = seq_from (wk_seq w) (length out) \<and> wk_seq w' = wk_seq w + word_of_nat (length out)"
  using assms
proof (induction cmds arbitrary: w code out w')
  case (Cons cmd cmds)
  obtain c o1 w1 where h: "worker_handle cmd w = (c, o1, w1)" by (metis prod_cases3)
  note first = worker_handle_seq [OF h]
  show ?case
  proof (cases c)
    case (Some code')
    then show ?thesis using Cons.prems h first by simp
  next
    case None
    obtain code2 o2 w2 where l: "worker_loop cmds w1 = (code2, o2, w2)" by (metis prod_cases3)
    then have "out = o1 @ o2" "w' = w2" using Cons.prems h None by simp_all
    then show ?thesis using first Cons.IH [OF l] by (simp add: seq_from_add add.assoc)
  qed
qed (simp add: seq_from_def)

definition carries_authority :: "Worker \<Rightarrow> Message \<Rightarrow> bool" where
  "carries_authority w m \<longleftrightarrow> m_worker_id m = wk_id w \<and> m_worker_boot_id m = wk_boot w \<and> m_coordinator_epoch m = wk_epoch w"

lemma worker_handle_authority:
  assumes "worker_handle cmd w = (code, out, w')" "m \<in> set out" "m_type m \<noteq> MessageType.kShutdown"
  shows "carries_authority w m \<and> m_execution_id m = m_execution_id cmd \<and>
     m_execution_generation m = m_execution_generation cmd \<and> m_attempt_id m = m_attempt_id cmd \<and>
     m_attempt_generation m = m_attempt_generation cmd"
  using assms
  by (auto simp: worker_handle_def next_seq_def carries_authority_def Let_def split: MessageType.splits)

lemma worker_handle_keeps:
  "worker_handle cmd w = (code, out, w') \<Longrightarrow> wk_id w' = wk_id w \<and> wk_boot w' = wk_boot w \<and> wk_epoch w' = wk_epoch w"
  by (auto simp: worker_handle_def next_seq_def Let_def split: MessageType.splits)

lemma worker_loop_authority:
  assumes "worker_loop cmds w = (code, out, w')" "m \<in> set out" "m_type m \<noteq> MessageType.kShutdown"
  shows "carries_authority w m"
  using assms
proof (induction cmds arbitrary: w code out w')
  case (Cons cmd cmds)
  obtain c o1 w1 where h: "worker_handle cmd w = (c, o1, w1)" by (metis prod_cases3)
  obtain code2 o2 w2 where l: "worker_loop cmds w1 = (code2, o2, w2)" by (metis prod_cases3)
  have "m \<in> set o1 \<or> m \<in> set o2" using Cons.prems(1,2) h l by (cases c) auto
  moreover have "carries_authority w m" if "m \<in> set o1"
    using worker_handle_authority [OF h that Cons.prems(3)] by simp
  moreover have "carries_authority w m" if "m \<in> set o2"
    using Cons.IH [OF l that Cons.prems(3)] worker_handle_keeps [OF h] by (simp add: carries_authority_def)
  ultimately show ?case by blast
qed simp

text \<open>The acknowledgement of a shutdown carries no authority context.\<close>

lemma worker_handle_shutdown:
  assumes "worker_handle cmd w = (code, out, w')" "m \<in> set out" "m_type m = MessageType.kShutdown"
  shows "m_worker_id m = id_default \<and> m_worker_boot_id m = id_default \<and> m_coordinator_epoch m = gen_default"
  using assms
  by (auto simp: worker_handle_def next_seq_def Let_def default_Message_def split: MessageType.splits)

lemma worker_loop_shutdown:
  assumes "worker_loop cmds w = (code, out, w')" "m \<in> set out" "m_type m = MessageType.kShutdown"
  shows "m_worker_id m = id_default \<and> m_worker_boot_id m = id_default \<and> m_coordinator_epoch m = gen_default"
  using assms
proof (induction cmds arbitrary: w code out w')
  case (Cons cmd cmds)
  obtain c o1 w1 where h: "worker_handle cmd w = (c, o1, w1)" by (metis prod_cases3)
  obtain code2 o2 w2 where l: "worker_loop cmds w1 = (code2, o2, w2)" by (metis prod_cases3)
  have "m \<in> set o1 \<or> m \<in> set o2" using Cons.prems(1,2) h l by (cases c) auto
  then show ?case using worker_handle_shutdown [OF h _ Cons.prems(3)] Cons.IH [OF l _ Cons.prems(3)] by blast
qed simp

section \<open>Properties\<close>

text \<open>
  C28: what the messages of a worker session carry. The two registration messages carry the identity and
  the label and, as nothing is assigned yet, no boot id and no epoch. Of the messages after the
  registration, the acknowledgement of a SHUTDOWN carries no identity, boot id or epoch either; all
  others carry the identity the worker was started with and the boot id and epoch it was registered
  under. All messages of the session, registration included, are numbered consecutively from 0.
\<close>
theorem worker_session_authority:
  assumes "worker_register (worker_start i label) = (regs, w0)"
    and "worker_loop cmds (worker_registered ack w0) = (code, out, w')"
  shows "map m_seq (regs @ out) = map (\<lambda>k. ucast (word_of_nat k :: u64)) [0..<2 + length out] \<and>
     map m_type regs = [MessageType.kHello, MessageType.kRegister] \<and>
     (\<forall>m \<in> set regs. m_worker_id m = i \<and> m_detail m = label \<and> m_worker_boot_id m = id_default \<and> m_coordinator_epoch m = gen_default) \<and>
     (\<forall>m \<in> set out. if m_type m = MessageType.kShutdown
        then m_worker_id m = id_default \<and> m_worker_boot_id m = id_default \<and> m_coordinator_epoch m = gen_default
        else m_worker_id m = i \<and> m_worker_boot_id m = m_worker_boot_id ack \<and> m_coordinator_epoch m = m_coordinator_epoch ack)"
proof -
  let ?w = "worker_registered ack w0"
  have regs: "regs = [default_Message\<lparr>m_type := MessageType.kHello, m_seq := 0, m_worker_id := i, m_detail := label\<rparr>,
      default_Message\<lparr>m_type := MessageType.kRegister, m_seq := 1, m_worker_id := i, m_detail := label\<rparr>]"
    and w0: "w0 = (worker_start i label)\<lparr>wk_seq := 2\<rparr>"
    using assms(1) by (auto simp: worker_register_def worker_start_def next_seq_def)
  have w: "wk_id ?w = i" "wk_boot ?w = m_worker_boot_id ack" "wk_epoch ?w = m_coordinator_epoch ack" "wk_seq ?w = 2"
    by (simp_all add: worker_registered_def w0 worker_start_def)
  have "map m_seq (regs @ out) = seq_from 0 2 @ seq_from 2 (length out)"
    using worker_loop_seq [OF assms(2)] by (simp add: regs w seq_from_def upt_conv_Cons)
  also have "\<dots> = seq_from 0 (2 + length out)" using seq_from_add [of 0 2 "length out"] by simp
  finally have seqs: "map m_seq (regs @ out) = map (\<lambda>k. ucast (word_of_nat k :: u64)) [0..<2 + length out]"
    by (simp add: seq_from_def)
  have "if m_type m = MessageType.kShutdown
        then m_worker_id m = id_default \<and> m_worker_boot_id m = id_default \<and> m_coordinator_epoch m = gen_default
        else m_worker_id m = i \<and> m_worker_boot_id m = m_worker_boot_id ack \<and> m_coordinator_epoch m = m_coordinator_epoch ack"
    if "m \<in> set out" for m
    using worker_loop_authority [OF assms(2) that] worker_loop_shutdown [OF assms(2) that] by (simp add: w carries_authority_def)
  then show ?thesis using seqs by (simp add: regs default_Message_def)
qed

definition sample_session :: "int \<times> Message list \<times> Worker" where
  "sample_session = worker_loop [default_Message\<lparr>m_type := MessageType.kQuiesced\<rparr>]
     (worker_registered (default_Message\<lparr>m_worker_boot_id := IdV 9\<rparr>) (snd (worker_register (worker_start (IdV 4) ''w''))))"

theorem worker_session_authority_witness: "m_worker_boot_id (hd (fst (snd sample_session))) = IdV 9"
proof -
  have ack: "map m_type (fst (snd sample_session)) = [MessageType.kQuiesced]"
    by (simp add: sample_session_def worker_handle_def next_seq_def)
  then have first: "hd (fst (snd sample_session)) \<in> set (fst (snd sample_session))"
    "m_type (hd (fst (snd sample_session))) = MessageType.kQuiesced"
    by auto
  have "worker_loop [default_Message\<lparr>m_type := MessageType.kQuiesced\<rparr>]
      (worker_registered (default_Message\<lparr>m_worker_boot_id := IdV 9\<rparr>) (snd (worker_register (worker_start (IdV 4) ''w''))))
      = (fst sample_session, fst (snd sample_session), snd (snd sample_session))"
    by (simp add: sample_session_def)
  from worker_session_authority [OF surjective_pairing this] first show ?thesis by fastforce
qed

end
