(* ===== verification/PF_Coordinator.thy ===== *)
theory PF_Coordinator
  imports PF_Runtime_Persist PF_Protocol
begin

text \<open>
  The reference coordinator process (\<^verbatim>\<open>src/coordinator/coordinator.cpp\<close>). The local variables of
  \<^verbatim>\<open>main\<close> are a record, the three lambdas and the branches of the command loop are definitions.
  What the sockets do is an argument of a step: what becomes of a send, which messages the worker
  connection delivers, whether a new connection is accepted. The calls block and have no time-out,
  and a send on a connection that the peer has closed raises \<^verbatim>\<open>SIGPIPE\<close> on POSIX, which the
  process neither ignores nor handles; so a step may also not come back. \<^verbatim>\<open>std::hash\<close> is an
  argument too. The command loop is left (\<open>Inl\<close>) by an exception of the runtime that no handler
  catches, by a call that never returns, or by the signal.
\<close>

section \<open>State and environment\<close>

abbreviation exec_id :: ExecutionId where "exec_id \<equiv> IdV 20"
abbreviation exec_gen :: ExecutionGeneration where "exec_gen \<equiv> GenV 1"
abbreviation attempt_id :: AttemptId where "attempt_id \<equiv> IdV 30"
abbreviation attempt_gen :: AttemptGeneration where "attempt_gen \<equiv> GenV 1"
abbreviation safe_point :: SafePointId where "safe_point \<equiv> IdV 80"
abbreviation co_epoch :: CoordinatorEpoch where "co_epoch \<equiv> GenV 100"

record Coordinator =
  co_rt :: PreemptionRuntime
  co_worker_open :: bool
  co_worker_id :: WorkerId
  co_boot :: WorkerBootId
  co_started :: bool
  co_last_progress :: u64
  co_boot_counter :: u64
  co_save :: bool

text \<open>
  \<^verbatim>\<open>TcpConnection::send\<close> returns true or false, never returns (the peer does not read and the
  buffers are full), or the signal ends the process inside \<^verbatim>\<open>::send\<close>. \<^verbatim>\<open>TcpConnection::receive\<close> delivers
  a message, returns false, or never returns; likewise \<^verbatim>\<open>accept_connection\<close>.
\<close>

datatype send_io = Sent | NotSent | SendWaits | SigPipe
datatype recv_io = is_Got: Got Message | Lost | Silent
datatype accept_io = Connected | NotConnected | NobodyConnects

record worker_io =
  io_sent :: send_io
  io_first :: recv_io
  io_second :: recv_io
  io_accepted :: accept_io

datatype co_event =
    SentToWorker Message
  | SavedImage "byte list"
  | WorkerLost
  | ExecutionStarted
  | Segment u64
  | PreemptedLine bool LifecycleState
  | DrivePreemption bool
  | ResumedLine bool LifecycleState
  | DriveResume bool
  | ReRegisterFailed
  | ReRegisterBad
  | ReRegistered WorkerId WorkerBootId
  | StalePreemption RequestAdmissionCode
  | StaleRelease bool

datatype co_stop = Uncaught PreemptionError | Waits | KilledBySignal

type_synonym 'a co_outcome = "(co_stop + 'a) \<times> co_event list \<times> Coordinator"

text \<open>A call of a runtime method; an exception skips the rest.\<close>

definition call_rt ::
  "'a rt_outcome \<Rightarrow> Coordinator \<Rightarrow> ('a \<Rightarrow> Coordinator \<Rightarrow> 'b co_outcome) \<Rightarrow> 'b co_outcome" where
  "call_rt outcome co k =
     (case outcome of
        (Inl err, rt) \<Rightarrow> (Inl (Uncaught err), [], co\<lparr>co_rt := rt\<rparr>)
      | (Inr x, rt) \<Rightarrow> k x (co\<lparr>co_rt := rt\<rparr>))"

text \<open>A call of \<^verbatim>\<open>send\<close> or \<^verbatim>\<open>receive\<close> on the worker connection, and what follows when it returns.\<close>

primrec after_send :: "send_io \<Rightarrow> Coordinator \<Rightarrow> (bool \<Rightarrow> 'a co_outcome) \<Rightarrow> 'a co_outcome" where
  "after_send Sent co k = k True"
| "after_send NotSent co k = k False"
| "after_send SendWaits co k = (Inl Waits, [], co)"
| "after_send SigPipe co k = (Inl KilledBySignal, [], co)"

primrec after_recv :: "recv_io \<Rightarrow> Coordinator \<Rightarrow> (Message option \<Rightarrow> 'a co_outcome) \<Rightarrow> 'a co_outcome" where
  "after_recv (Got m) co k = k (Some m)"
| "after_recv Lost co k = k None"
| "after_recv Silent co k = (Inl Waits, [], co)"

definition emit :: "co_event list \<Rightarrow> 'a co_outcome \<Rightarrow> 'a co_outcome" where
  "emit evs outcome = apsnd (apfst ((@) evs)) outcome"

section \<open>Start-up\<close>

definition coordinator_adapters :: ReferenceAdapters where
  "coordinator_adapters =
     (let ad = foldl (\<lambda>ad c. ad_set_quiesced c True ad) default_ReferenceAdapters ad_categories;
          ad = ad_set_contract exec_id (GenV 1)
                 [\<lparr>lease_resource = ResourceClass.kDeviceMemory, lease_units = 100\<rparr>] ad
      in ad_set_resume_dependency
           \<lparr>dv_status = DependencyStatus.kCurrent, dv_generation = GenV 1,
            dv_revalidation_required = False, dv_recompute_required = False\<rparr> ad)"

definition coordinator_boot :: "(string \<Rightarrow> u64) \<Rightarrow> string \<Rightarrow> WorkerBootId" where
  "coordinator_boot hash detail = IdV (1000 + hash detail mod 9000)"

text \<open>
  \<open>recover\<close> is the contents of the file given with \<^verbatim>\<open>--recover\<close>, if the option is present;
  \<open>reg\<close> is the worker's registration message.
\<close>

definition coordinator_start ::
  "(string \<Rightarrow> u64) \<Rightarrow> byte list option option \<Rightarrow> bool \<Rightarrow> Message \<Rightarrow> co_event list \<times> Coordinator" where
  "coordinator_start hash recover save_given reg =
     (let rt = preemption_runtime co_epoch (GenV 1) coordinator_adapters;
          rt = (case recover of None \<Rightarrow> rt | Some contents \<Rightarrow> snd (load contents rt));
          worker_id = m_worker_id reg;
          boot = coordinator_boot hash (m_detail reg);
          rt = set_worker_incarnation worker_id boot rt;
          reg_ack = default_Message\<lparr>m_type := MessageType.kRegister, m_worker_id := worker_id,
                      m_worker_boot_id := boot, m_coordinator_epoch := co_epoch\<rparr>
      in ([SentToWorker reg_ack],
          \<lparr>co_rt = rt, co_worker_open = True, co_worker_id = worker_id, co_boot = boot, co_started = False,
           co_last_progress = 0, co_boot_counter = 0, co_save = save_given\<rparr>))"

section \<open>The drivers\<close>

definition segment_command :: "u64 \<Rightarrow> Coordinator \<Rightarrow> Message" where
  "segment_command target co = default_Message\<lparr>m_type := MessageType.kPublishProgress,
     m_worker_id := co_worker_id co, m_worker_boot_id := co_boot co, m_execution_id := exec_id,
     m_execution_generation := exec_gen, m_attempt_id := attempt_id, m_attempt_generation := attempt_gen,
     m_coordinator_epoch := co_epoch, m_safe_point_id := safe_point, m_progress_position := target,
     m_safe_point_capture_required := True\<rparr>"

definition run_segment :: "u64 \<Rightarrow> worker_io \<Rightarrow> Coordinator \<Rightarrow> bool co_outcome" where
  "run_segment target io co =
     (if \<not> co_worker_open co then (Inr False, [], co)
      else emit [SentToWorker (segment_command target co)]
        (after_send (io_sent io) co (\<lambda>sent. if \<not> sent then (Inr False, [WorkerLost], co) else
         after_recv (io_first io) co (\<lambda>received. case received of
           None \<Rightarrow> (Inr False, [WorkerLost], co)
         | Some prog \<Rightarrow>
         after_recv (io_second io) co (\<lambda>received. case received of
           None \<Rightarrow> (Inr False, [WorkerLost], co)
         | Some reach \<Rightarrow>
             call_rt (reach_safe_point safe_point (m_safe_point_position reach) False (co_rt co)) co (\<lambda>_ co.
               let (ok, rt) = publish_progress (m_progress_position prog) (m_progress_kind prog) (co_rt co)
               in (Inr True, [], co\<lparr>co_rt := rt, co_last_progress := m_progress_position prog\<rparr>)))))))"

definition drive_request :: "Coordinator \<Rightarrow> PreemptionRequest" where
  "drive_request co = default_PreemptionRequest\<lparr>
     req_id := IdV 1000, req_generation := GenV 1, req_workload_id := IdV 10, req_workload_generation := GenV 1,
     req_execution_id := exec_id, req_execution_generation := exec_gen, req_attempt_id := attempt_id,
     req_attempt_generation := attempt_gen, req_coordinator_epoch := co_epoch, req_worker_id := co_worker_id co,
     req_worker_boot_id := co_boot co, req_reason := PreemptionReason.kCapacityPressure,
     req_policy_generation := GenV 1, req_authority_generation := GenV 1\<rparr>"

definition quiesce_command :: "Coordinator \<Rightarrow> Message" where
  "quiesce_command co = default_Message\<lparr>m_type := MessageType.kQuiesced, m_worker_id := co_worker_id co,
     m_worker_boot_id := co_boot co, m_execution_id := exec_id, m_execution_generation := exec_gen,
     m_attempt_id := attempt_id, m_attempt_generation := attempt_gen, m_coordinator_epoch := co_epoch\<rparr>"

definition drive_report :: "Coordinator \<Rightarrow> QuiescenceReport" where
  "drive_report co = default_QuiescenceReport\<lparr>qr_generation := GenV 1, qr_worker_id := co_worker_id co,
     qr_worker_boot_id := co_boot co, qr_fully_quiesced := True, qr_provenance := EvidenceKind.kReal\<rparr>"

text \<open>The calls that follow the worker's acknowledgement.\<close>

definition drive_commit :: "Coordinator \<Rightarrow> bool co_outcome" where
  "drive_commit co =
     call_rt (request_release (co_rt co)) co (\<lambda>_ co.
     call_rt (report_released (co_rt co)) co (\<lambda>_ co.
     call_rt (commit_preempted (co_rt co)) co (\<lambda>cp co.
       let ok = (res_outcome cp = PreemptionOutcome.kSafePreemptionCompleted)
       in (Inr ok,
           (if co_save co \<and> ok then [SavedImage (persist_bytes (co_rt co))] else [])
             @ [PreemptedLine ok (rt_machine (co_rt co))], co))))"

definition drive_capture :: "Coordinator \<Rightarrow> bool co_outcome" where
  "drive_capture co =
     call_rt (report_quiesced (drive_report co) (co_rt co)) co (\<lambda>_ co.
     call_rt (request_state_capture (co_rt co)) co (\<lambda>_ co.
       case ad_last_capture (rt_adapters (co_rt co)) of
         None \<Rightarrow> drive_commit co
       | Some c \<Rightarrow> call_rt (report_state_captured c (co_rt co)) co (\<lambda>_. drive_commit)))"

definition drive_preemption :: "worker_io \<Rightarrow> Coordinator \<Rightarrow> bool co_outcome" where
  "drive_preemption io co =
     (if \<not> co_worker_open co then (Inr False, [], co)
      else
        call_rt (request_preemption (drive_request co) (co_rt co)) co (\<lambda>_ co.
        call_rt (begin_quiesce (co_rt co)) co (\<lambda>_ co.
        call_rt (reach_safe_point safe_point (co_last_progress co) True (co_rt co)) co (\<lambda>_ co.
        call_rt (begin_quiesce (co_rt co)) co (\<lambda>_ co.
        emit [SentToWorker (quiesce_command co)]
          (after_send (io_sent io) co (\<lambda>sent. if \<not> sent then (Inr False, [WorkerLost], co) else
           after_recv (io_first io) co (\<lambda>received. case received of
             None \<Rightarrow> (Inr False, [WorkerLost], co)
           | Some qack \<Rightarrow> drive_capture co))))))))"

definition drive_resume :: "Coordinator \<Rightarrow> bool co_outcome" where
  "drive_resume co =
     call_rt (request_resume (co_rt co)) co (\<lambda>el co.
     call_rt (revalidate (co_rt co)) co (\<lambda>rv co.
     call_rt (restore (co_rt co)) co (\<lambda>rs co.
     call_rt (confirm_resumed (co_rt co)) co (\<lambda>rm co.
       let ok = (res_outcome rm = PreemptionOutcome.kSafePreemptionCompleted)
       in (Inr ok, [ResumedLine ok (rt_machine (co_rt co))], co)))))"

section \<open>The command loop\<close>

definition begin_runtime :: "Coordinator \<Rightarrow> Coordinator" where
  "begin_runtime co =
     (let rt = start_execution (IdV 10) (GenV 1) exec_id exec_gen attempt_id attempt_gen (IdV 40) (co_boot co) (co_rt co);
          rt = rt\<lparr>rt_adapters := ad_set_authoritative exec_id attempt_id exec_gen attempt_gen co_epoch (co_boot co)
                                  (rt_adapters rt)\<rparr>;
          sp = default_SafePoint\<lparr>sp_id := safe_point, sp_generation := GenV 1, sp_execution_id := exec_id,
                 sp_attempt_id := attempt_id, sp_worker_id := co_worker_id co, sp_worker_boot_id := co_boot co,
                 sp_state_capture_required := False, sp_checkpoint_required := True, sp_resume_requirement := True,
                 sp_invariant := ''reference boundary'', sp_provenance := EvidenceKind.kReal,
                 sp_state := SafePointState.kDeclared\<rparr>;
          (declared, rt) = declare_safe_point sp rt
      in co\<lparr>co_started := True, co_rt := rt\<rparr>)"

definition begin_message :: "Coordinator \<Rightarrow> Message" where
  "begin_message co = default_Message\<lparr>m_type := MessageType.kBeginExecution, m_execution_id := exec_id,
     m_execution_generation := exec_gen, m_attempt_id := attempt_id, m_attempt_generation := attempt_gen,
     m_coordinator_epoch := co_epoch, m_safe_point_id := safe_point, m_worker_boot_id := co_boot co\<rparr>"

text \<open>The result of this send is not looked at.\<close>

definition begin_execution :: "worker_io \<Rightarrow> Coordinator \<Rightarrow> unit co_outcome" where
  "begin_execution io co =
     (let co = begin_runtime co
      in emit [SentToWorker (begin_message co)]
           (after_send (io_sent io) co (\<lambda>_. (Inr (), [ExecutionStarted], co))))"

definition re_register :: "worker_io \<Rightarrow> Coordinator \<Rightarrow> unit co_outcome" where
  "re_register io co =
     (case io_accepted io of
        NobodyConnects \<Rightarrow> (Inl Waits, [], co)
      | NotConnected \<Rightarrow> (Inr (), [ReRegisterFailed], co)
      | Connected \<Rightarrow>
          after_recv (io_first io) co (\<lambda>received. case received of
            None \<Rightarrow> (Inr (), [ReRegisterBad], co)
          | Some nh \<Rightarrow>
          after_recv (io_second io) co (\<lambda>received. case received of
            None \<Rightarrow> (Inr (), [ReRegisterBad], co)
          | Some nr \<Rightarrow>
              if m_type nr \<noteq> MessageType.kRegister then (Inr (), [ReRegisterBad], co)
              else let worker_id = m_worker_id nr;
                       counter = co_boot_counter co + 1;
                       boot = IdV (8000 + counter);
                       co = co\<lparr>co_worker_id := worker_id, co_boot := boot, co_boot_counter := counter,
                              co_rt := set_worker_incarnation worker_id boot (co_rt co)\<rparr>;
                       ack = default_Message\<lparr>m_type := MessageType.kRegister, m_worker_id := worker_id,
                               m_worker_boot_id := boot, m_coordinator_epoch := co_epoch\<rparr>
                   in emit [SentToWorker ack] (after_send (io_sent io) co (\<lambda>_.
                        (Inr (), [ReRegistered worker_id boot], co\<lparr>co_worker_open := True\<rparr>))))))"

definition stale_request :: "Message \<Rightarrow> PreemptionRequest" where
  "stale_request cmd = default_PreemptionRequest\<lparr>
     req_id := IdV 3000, req_generation := m_request_generation cmd, req_workload_id := IdV 10,
     req_workload_generation := GenV 1, req_execution_id := exec_id, req_execution_generation := exec_gen,
     req_attempt_id := attempt_id, req_attempt_generation := m_attempt_generation cmd,
     req_coordinator_epoch := m_coordinator_epoch cmd, req_worker_id := m_worker_id cmd,
     req_worker_boot_id := m_worker_boot_id cmd, req_policy_generation := GenV 1,
     req_authority_generation := GenV 1\<rparr>"

definition replay_stale :: "Message \<Rightarrow> Coordinator \<Rightarrow> unit co_outcome" where
  "replay_stale cmd co =
     call_rt (request_preemption (stale_request cmd) (co_rt co)) co (\<lambda>s co.
     call_rt (request_release (co_rt co)) co (\<lambda>rel co.
       (Inr (), [StalePreemption (adm_code s),
                 StaleRelease (res_outcome rel \<noteq> PreemptionOutcome.kSafePreemptionCompleted)], co)))"

definition report_ok :: "(bool \<Rightarrow> co_event list) \<Rightarrow> bool co_outcome \<Rightarrow> unit co_outcome" where
  "report_ok line outcome =
     (case outcome of
        (Inl err, evs, co) \<Rightarrow> (Inl err, evs, co)
      | (Inr ok, evs, co) \<Rightarrow> (Inr (), evs @ line ok, co))"

definition handle_command :: "Message \<Rightarrow> worker_io \<Rightarrow> Coordinator \<Rightarrow> unit co_outcome" where
  "handle_command cmd io co =
     (case m_type cmd of
        MessageType.kBeginExecution \<Rightarrow> begin_execution io co
      | MessageType.kPublishProgress \<Rightarrow>
          report_ok (\<lambda>ok. if ok then [Segment (m_progress_position cmd)] else [])
            (run_segment (m_progress_position cmd) io co)
      | MessageType.kRequestPreemption \<Rightarrow> report_ok (\<lambda>ok. [DrivePreemption ok]) (drive_preemption io co)
      | MessageType.kRequestResume \<Rightarrow> report_ok (\<lambda>ok. [DriveResume ok]) (drive_resume co)
      | MessageType.kRegister \<Rightarrow> re_register io co
      | MessageType.kReplayStale \<Rightarrow> replay_stale cmd co
      | _ \<Rightarrow> (Inr (), [], co))"

text \<open>
  The \<^verbatim>\<open>for (;;)\<close> loop over the controller's commands. After the last one the controller closes its
  connection (or breaks it), or it keeps the connection open and sends nothing more.
\<close>

datatype controller_end = Closes | StaysIdle

fun command_loop :: "controller_end \<Rightarrow> (Message \<times> worker_io) list \<Rightarrow> Coordinator \<Rightarrow> unit co_outcome" where
  "command_loop Closes [] co = (Inr (), [], co\<lparr>co_worker_open := False\<rparr>)"
| "command_loop StaysIdle [] co = (Inl Waits, [], co)"
| "command_loop final ((cmd, io) # cmds) co =
     (if m_type cmd = MessageType.kShutdown then (Inr (), [], co\<lparr>co_worker_open := False\<rparr>)
      else case handle_command cmd io co of
             (Inl stop, evs, co) \<Rightarrow> (Inl stop, evs, co)
           | (Inr _, evs, co) \<Rightarrow> emit evs (command_loop final cmds co))"

section \<open>Calls as runtime operations\<close>

lemma call_rt_perform:
  assumes "perform op r = apfst error_of outcome" "fst (perform op r) = None"
  shows "call_rt outcome co (\<lambda>_. k) = k (co\<lparr>co_rt := apply_op op r\<rparr>)"
proof (cases outcome)
  case (Pair res rt)
  then have "error_of res = None" "apply_op op r = rt" using assms by (simp_all add: apply_op_def)
  then show ?thesis using Pair by (cases res) (simp_all add: call_rt_def error_of_def)
qed

lemma never_throws:
  "fst (perform (OpRequest req) r) = None" "fst (perform (OpReportQuiesced rep) r) = None"
  "fst (perform OpRequestCapture r) = None" "fst (perform (OpReportCaptured c) r) = None"
  "fst (perform OpRequestRelease r) = None" "fst (perform OpReportReleased r) = None"
  "fst (perform OpRequestResume r) = None" "fst (perform OpRevalidate r) = None" "fst (perform OpRestore r) = None"
  by (simp_all add: rt_effect del: perform.simps)

lemmas call_rt_ops =
  call_rt_perform [where op = "OpRequest req" for req, OF perform.simps(5) never_throws(1)]
  call_rt_perform [where op = "OpReportQuiesced rep" for rep, OF perform.simps(7) never_throws(2)]
  call_rt_perform [where op = OpRequestCapture, OF perform.simps(8) never_throws(3)]
  call_rt_perform [where op = "OpReportCaptured c" for c, OF perform.simps(9) never_throws(4)]
  call_rt_perform [where op = OpRequestRelease, OF perform.simps(10) never_throws(5)]
  call_rt_perform [where op = OpReportReleased, OF perform.simps(11) never_throws(6)]
  call_rt_perform [where op = OpRequestResume, OF perform.simps(13) never_throws(7)]
  call_rt_perform [where op = OpRevalidate, OF perform.simps(14) never_throws(8)]
  call_rt_perform [where op = OpRestore, OF perform.simps(15) never_throws(9)]

lemma commit_preempted_result:
  assumes "rt_machine r = LifecycleState.kResourcesReleased" "rt_quiesced r" "rt_state_durable r" "rt_resources_released r"
  shows "\<exists>cp. commit_preempted r = (Inr cp, apply_op OpCommit r) \<and> res_outcome cp = PreemptionOutcome.kSafePreemptionCompleted"
  using assms by (auto simp: apply_op_def commit_preempted_def op_unfold split: prod.splits)

lemma confirm_resumed_result:
  assumes "rt_machine r = LifecycleState.kResumeReady"
  shows "\<exists>rm. confirm_resumed r = (Inr rm, apply_op OpConfirm r) \<and> res_outcome rm = PreemptionOutcome.kSafePreemptionCompleted"
  using assms
  by (auto simp: apply_op_def confirm_resumed_def ad_grant_fresh_attempt_authority_def op_unfold split: prod.splits)

section \<open>A driven preemption\<close>

text \<open>The state in which the coordinator can drive a preemption to its end.\<close>

definition drivable :: "Coordinator \<Rightarrow> bool" where
  "drivable co \<longleftrightarrow>
     co_worker_open co \<and> rt_active_request (co_rt co) = None \<and> validate_authority (drive_request co) (co_rt co) \<and>
     rt_worker_boot (co_rt co) = co_boot co \<and> map_of (rt_safe_points (co_rt co)) safe_point \<noteq> None \<and>
     is_quiesced_all (co_rt co) \<and> capture_will_validate (co_rt co) \<and> contract_is_ours (co_rt co)"

definition responsive :: "worker_io \<Rightarrow> bool" where
  "responsive io \<longleftrightarrow> io_sent io = Sent \<and> is_Got (io_first io)"

text \<open>The runtime at the moment the worker is asked to quiesce.\<close>

definition at_boundary :: "Coordinator \<Rightarrow> PreemptionRuntime" where
  "at_boundary co = run_ops [OpRequest (drive_request co), OpBeginQuiesce, OpReach safe_point (co_last_progress co) True] (co_rt co)"

lemma at_boundary_ready:
  assumes "drivable co"
  shows "ready_to_preempt (drive_report co) (at_boundary co)" "capture_will_validate (at_boundary co)"
    "contract_is_ours (at_boundary co)" "rt_adapters (at_boundary co) = rt_adapters (co_rt co)"
proof -
  have valid: "id_is_valid (req_id (drive_request co))" "gen_is_valid (req_generation (drive_request co))"
    by (simp_all add: drive_request_def id_valid_simps gen_valid_simps)
  obtain sp where sp: "map_of (rt_safe_points (co_rt co)) safe_point = Some sp" using assms by (auto simp: drivable_def)
  define r1 where "r1 = apply_op (OpRequest (drive_request co)) (co_rt co)"
  have r1: "rt_machine r1 = LifecycleState.kAssessing" "rt_safe_points r1 = rt_safe_points (co_rt co)"
    "rt_adapters r1 = rt_adapters (co_rt co)" "rt_worker_boot r1 = rt_worker_boot (co_rt co)"
    "rt_checkpoint_generation r1 = rt_checkpoint_generation (co_rt co)" "rt_execution_id r1 = rt_execution_id (co_rt co)"
    using assms valid by (simp_all add: r1_def apply_op_def rt_effect drivable_def del: perform.simps)
  define r2 where "r2 = apply_op OpBeginQuiesce r1"
  have r2: "rt_machine r2 = LifecycleState.kQuiescing \<or> rt_machine r2 = LifecycleState.kWaitingForSafePoint"
    "rt_safe_points r2 = rt_safe_points r1" "rt_adapters r2 = rt_adapters r1" "rt_worker_boot r2 = rt_worker_boot r1"
    "rt_checkpoint_generation r2 = rt_checkpoint_generation r1" "rt_execution_id r2 = rt_execution_id r1"
    using r1(1) by (simp_all add: r2_def apply_op_def rt_effect del: perform.simps)
  have r3: "at_boundary co = apply_op (OpReach safe_point (co_last_progress co) True) r2"
    by (simp add: at_boundary_def run_ops_def r1_def r2_def)
  have fields: "rt_machine (at_boundary co) \<in> {LifecycleState.kSafePointReached, LifecycleState.kQuiescing}"
    "at_valid_safe_point (at_boundary co)" "capture_is_required (at_boundary co)"
    "rt_adapters (at_boundary co) = rt_adapters (co_rt co)" "rt_worker_boot (at_boundary co) = rt_worker_boot (co_rt co)"
    "rt_checkpoint_generation (at_boundary co) = rt_checkpoint_generation (co_rt co)"
    "rt_execution_id (at_boundary co) = rt_execution_id (co_rt co)"
    unfolding r3 using r1 r2 sp
    by (auto simp: apply_op_def rt_effect Let_def at_valid_safe_point_def capture_is_required_def simp del: perform.simps)
  show "rt_adapters (at_boundary co) = rt_adapters (co_rt co)" by (rule fields(4))
  show "ready_to_preempt (drive_report co) (at_boundary co)" "capture_will_validate (at_boundary co)"
    "contract_is_ours (at_boundary co)"
    using fields assms
    by (auto simp: ready_to_preempt_def drivable_def drive_report_def capture_will_validate_def contract_is_ours_def
        is_quiesced_all_def)
qed

lemma begin_quiesce_call:
  assumes "rt_machine r \<noteq> LifecycleState.kDeferred"
  shows "call_rt (begin_quiesce r) co (\<lambda>_. k) = k (co\<lparr>co_rt := apply_op OpBeginQuiesce r\<rparr>)"
  using assms begin_quiesce_error [of r] by (intro call_rt_perform) simp_all

lemma reach_call:
  assumes "map_of (rt_safe_points r) i \<noteq> None"
  shows "call_rt (reach_safe_point i pos cap r) co (\<lambda>_. k) = k (co\<lparr>co_rt := apply_op (OpReach i pos cap) r\<rparr>)"
proof (rule call_rt_perform)
  show "fst (perform (OpReach i pos cap) r) = None"
    using assms perform_error [of "OpReach i pos cap" r] by (auto simp del: perform.simps)
qed simp

lemma drive_commit_completes:
  assumes "rt_machine r = LifecycleState.kStateDurable"
    and "run_ops [OpRequestRelease, OpReportReleased] r = released_runtime rep q"
  shows "\<exists>evs. drive_commit (co\<lparr>co_rt := r\<rparr>) =
     (Inr True, evs @ [PreemptedLine True LifecycleState.kPreempted],
      co\<lparr>co_rt := apply_op OpCommit (released_runtime rep q)\<rparr>)"
proof -
  let ?s = "released_runtime rep q"
  have "rt_machine ?s = LifecycleState.kResourcesReleased" "rt_quiesced ?s" "rt_state_durable ?s" "rt_resources_released ?s"
    by (simp_all add: released_runtime_def Let_def)
  then obtain cp where "commit_preempted ?s = (Inr cp, apply_op OpCommit ?s)"
      "res_outcome cp = PreemptionOutcome.kSafePreemptionCompleted"
    using commit_preempted_result by blast
  moreover have "rt_machine (apply_op OpCommit ?s) = LifecycleState.kPreempted"
    using \<open>rt_machine ?s = _\<close> \<open>rt_quiesced ?s\<close> \<open>rt_state_durable ?s\<close> \<open>rt_resources_released ?s\<close>
    by (simp add: apply_op_def rt_effect del: perform.simps)
  ultimately show ?thesis
    using assms(2) by (simp add: drive_commit_def call_rt_ops run_ops_def) (auto simp: call_rt_def)
qed

lemma drive_capture_completes:
  assumes "ready_to_preempt (drive_report co) b" "capture_will_validate b" "contract_is_ours b"
    and "co_rt co = apply_op OpBeginQuiesce b"
  shows "\<exists>evs. drive_capture co =
     (Inr True, evs @ [PreemptedLine True LifecycleState.kPreempted],
      co\<lparr>co_rt := run_ops (preemption_calls (drive_report co) b) b\<rparr>)"
proof -
  let ?rep = "drive_report co"
  define c where "c = apply_op OpRequestCapture (apply_op (OpReportQuiesced ?rep) (co_rt co))"
  define d where "d = apply_op (OpReportCaptured (capture_outcome b)) c"
  have c: "c = run_ops [OpBeginQuiesce, OpReportQuiesced ?rep, OpRequestCapture] b"
    by (simp add: c_def run_ops_def assms(4))
  have d: "d = run_ops [OpBeginQuiesce, OpReportQuiesced ?rep, OpRequestCapture, OpReportCaptured (capture_outcome b)] b"
    by (simp add: d_def c run_ops_def)
  have last: "ad_last_capture (rt_adapters c) = Some (capture_outcome b)"
    using quiesce_and_request [OF assms(1)] by (simp add: c last_capture_requested capture_outcome_def)
  have "drive_capture co = drive_commit (co\<lparr>co_rt := d\<rparr>)"
    by (simp add: drive_capture_def call_rt_ops last d_def flip: c_def)
  moreover have "rt_machine d = LifecycleState.kStateDurable" using quiesce_and_capture [OF assms(1,2)] by (simp add: d)
  moreover have "run_ops [OpRequestRelease, OpReportReleased] d = released_runtime ?rep b"
    using preemption_releases [OF assms(1,2,3)] by (simp only: d run_ops_append)
  moreover have "run_ops (preemption_calls ?rep b) b = apply_op OpCommit (released_runtime ?rep b)"
    using preemption_completes [OF assms(1,2,3)]
    by (simp add: apply_op_def rt_effect released_runtime_def Let_def del: perform.simps)
  ultimately show ?thesis using drive_commit_completes [of d ?rep b co] by simp
qed

lemma drive_preemption_completes:
  assumes "drivable co" "responsive io"
  shows "\<exists>evs. drive_preemption io co =
     (Inr True, evs @ [PreemptedLine True LifecycleState.kPreempted],
      co\<lparr>co_rt := run_ops (preemption_calls (drive_report co) (at_boundary co)) (at_boundary co)\<rparr>)"
proof -
  let ?b = "at_boundary co"
  note ready = at_boundary_ready [OF assms(1)]
  define r1 where "r1 = apply_op (OpRequest (drive_request co)) (co_rt co)"
  define r2 where "r2 = apply_op OpBeginQuiesce r1"
  define co4 where "co4 = co\<lparr>co_rt := apply_op OpBeginQuiesce ?b\<rparr>"
  have b: "?b = apply_op (OpReach safe_point (co_last_progress co) True) r2"
    by (simp add: at_boundary_def run_ops_def r1_def r2_def)
  have r1: "rt_machine r1 = LifecycleState.kAssessing" "rt_safe_points r1 = rt_safe_points (co_rt co)"
    using assms(1)
    by (simp_all add: r1_def apply_op_def rt_effect drivable_def drive_request_def id_valid_simps gen_valid_simps del: perform.simps)
  have "rt_safe_points r2 = rt_safe_points r1" using r1(1) by (simp add: r2_def apply_op_def rt_effect del: perform.simps)
  then have known: "map_of (rt_safe_points r2) safe_point \<noteq> None" using assms(1) r1(2) by (simp add: drivable_def)
  have "rt_machine ?b \<noteq> LifecycleState.kDeferred" using ready(1) by (auto simp: ready_to_preempt_def)
  then have "drive_preemption io co = emit [SentToWorker (quiesce_command co4)] (drive_capture co4)"
    using assms r1(1) known
    by (auto simp: drive_preemption_def call_rt_ops begin_quiesce_call reach_call co4_def drivable_def responsive_def is_Got_def b
        simp flip: r1_def r2_def)
  moreover have rep: "drive_report co4 = drive_report co" by (simp add: co4_def drive_report_def)
  have "\<exists>evs. drive_capture co4 = (Inr True, evs @ [PreemptedLine True LifecycleState.kPreempted],
      co4\<lparr>co_rt := run_ops (preemption_calls (drive_report co) ?b) ?b\<rparr>)"
    using drive_capture_completes [of co4 ?b] ready rep by (simp add: co4_def)
  ultimately show ?thesis by (auto simp: emit_def co4_def)
qed

section \<open>Starting and running segments\<close>

lemma ad_is_quiesced_set: "ad_is_quiesced c (ad_set_quiesced c' v a) = (if c = c' then v else ad_is_quiesced c a)"
  by (simp add: ad_is_quiesced_def ad_set_quiesced_def map_of_map_assign)

lemma fold_set_quiesced:
  "ad_is_quiesced c (foldl (\<lambda>ad c. ad_set_quiesced c True ad) a cs) \<longleftrightarrow> c \<in> set cs \<or> ad_is_quiesced c a"
  by (induction cs arbitrary: a) (auto simp: ad_is_quiesced_set)

lemma fold_set_quiesced_frame:
  "\<exists>m. foldl (\<lambda>ad c. ad_set_quiesced c True ad) a cs = a\<lparr>ad_quiesced := m\<rparr>"
proof (induction cs arbitrary: a)
  case Nil
  show ?case by (rule exI [of _ "ad_quiesced a"]) simp
next
  case (Cons c cs)
  obtain m where "foldl (\<lambda>ad c. ad_set_quiesced c True ad) (ad_set_quiesced c True a) cs
      = (ad_set_quiesced c True a)\<lparr>ad_quiesced := m\<rparr>" using Cons by blast
  then show ?case by (auto simp: ad_set_quiesced_def)
qed

lemma coordinator_adapters_fields:
  "ad_capture_default coordinator_adapters" "ad_checkpoint_valid coordinator_adapters"
  "ad_capture_count coordinator_adapters = 0" "ad_current_checkpoint_gen coordinator_adapters = GenV 1"
  "ad_contract_execution coordinator_adapters = exec_id"
  "ad_reserved_map coordinator_adapters = [(ResourceClass.kDeviceMemory, 100)]"
  "\<not> dependency_blocked (ad_resume_dep coordinator_adapters)"
  "c \<in> set ad_categories \<Longrightarrow> ad_is_quiesced c coordinator_adapters"
proof -
  obtain m where m: "foldl (\<lambda>ad c. ad_set_quiesced c True ad) default_ReferenceAdapters ad_categories
      = default_ReferenceAdapters\<lparr>ad_quiesced := m\<rparr>" using fold_set_quiesced_frame by blast
  show "ad_capture_default coordinator_adapters" "ad_checkpoint_valid coordinator_adapters"
    "ad_capture_count coordinator_adapters = 0" "ad_current_checkpoint_gen coordinator_adapters = GenV 1"
    "ad_contract_execution coordinator_adapters = exec_id"
    "ad_reserved_map coordinator_adapters = [(ResourceClass.kDeviceMemory, 100)]"
    "\<not> dependency_blocked (ad_resume_dep coordinator_adapters)"
    unfolding coordinator_adapters_def Let_def m
    by (simp_all add: ad_set_contract_def ad_set_resume_dependency_def default_ReferenceAdapters_def ad_lookup_def
        dependency_blocked_def)
  have "ad_is_quiesced c coordinator_adapters
      = ad_is_quiesced c (foldl (\<lambda>ad c. ad_set_quiesced c True ad) default_ReferenceAdapters ad_categories)"
    by (simp add: coordinator_adapters_def Let_def ad_set_contract_def ad_set_resume_dependency_def ad_is_quiesced_def)
  then show "c \<in> set ad_categories \<Longrightarrow> ad_is_quiesced c coordinator_adapters" by (simp add: fold_set_quiesced)
qed

definition fresh_coordinator :: "(string \<Rightarrow> u64) \<Rightarrow> bool \<Rightarrow> Message \<Rightarrow> Coordinator" where
  "fresh_coordinator hash save_given reg = snd (coordinator_start hash None save_given reg)"

definition started_coordinator :: "(string \<Rightarrow> u64) \<Rightarrow> bool \<Rightarrow> Message \<Rightarrow> Coordinator" where
  "started_coordinator hash save_given reg = begin_runtime (fresh_coordinator hash save_given reg)"

lemmas start_defs = started_coordinator_def fresh_coordinator_def coordinator_start_def begin_runtime_def
  start_execution_def declare_safe_point_def set_worker_incarnation_def preemption_runtime_def

lemma started_drivable: "drivable (started_coordinator hash save_given reg)"
proof -
  let ?co = "started_coordinator hash save_given reg"
  have "rt_active_request (co_rt ?co) = None" "validate_authority (drive_request ?co) (co_rt ?co)"
    "rt_worker_boot (co_rt ?co) = co_boot ?co" "map_of (rt_safe_points (co_rt ?co)) safe_point \<noteq> None" "co_worker_open ?co"
    by (simp_all add: start_defs Let_def validate_authority_def drive_request_def)
  moreover have "is_quiesced_all (co_rt ?co)"
    using coordinator_adapters_fields(8)
    by (simp add: start_defs Let_def is_quiesced_all_def ad_set_authoritative_def ad_is_quiesced_def list_all_iff)
  moreover have "capture_will_validate (co_rt ?co)"
    using coordinator_adapters_fields(1-4)
    by (simp add: start_defs Let_def capture_will_validate_def ad_set_authoritative_def gen_next_def gen_default_def kMaxValue_def)
  moreover have "contract_is_ours (co_rt ?co)"
    using coordinator_adapters_fields(5,6)
    by (simp add: start_defs Let_def contract_is_ours_def ad_set_authoritative_def map_wf_def)
  ultimately show ?thesis by (simp add: drivable_def)
qed

definition honest_segment :: "worker_io \<Rightarrow> bool" where
  "honest_segment io \<longleftrightarrow> io_sent io = Sent \<and> is_Got (io_first io) \<and> is_Got (io_second io)"

lemma publish_frame:
  "\<exists>a b c d. snd (publish_progress pos kind r) =
     r\<lparr>rt_current_position := a, rt_progress_generation := b, rt_durable_position := c, rt_durable_progress_generation := d\<rparr>"
  by (cases r) (auto simp: publish_progress_def Let_def)

lemma run_segment_completes:
  assumes "drivable co" "honest_segment io"
  shows "\<exists>evs co'. run_segment target io co = (Inr True, evs, co') \<and> drivable co' \<and>
     rt_adapters (co_rt co') = rt_adapters (co_rt co) \<and> rt_execution_id (co_rt co') = rt_execution_id (co_rt co) \<and>
     rt_attempt_id (co_rt co') = rt_attempt_id (co_rt co)"
proof -
  obtain prog reach where io: "io_sent io = Sent" "io_first io = Got prog" "io_second io = Got reach"
    using assms(2) by (auto simp: honest_segment_def is_Got_def)
  obtain sp where sp: "map_of (rt_safe_points (co_rt co)) safe_point = Some sp" using assms(1) by (auto simp: drivable_def)
  define r where "r = apply_op (OpReach safe_point (m_safe_point_position reach) False) (co_rt co)"
  have r: "rt_active_request r = rt_active_request (co_rt co)" "rt_worker_boot r = rt_worker_boot (co_rt co)"
    "rt_adapters r = rt_adapters (co_rt co)" "rt_checkpoint_generation r = rt_checkpoint_generation (co_rt co)"
    "rt_execution_id r = rt_execution_id (co_rt co)" "rt_attempt_id r = rt_attempt_id (co_rt co)" "rt_epoch r = rt_epoch (co_rt co)"
    "rt_execution_generation r = rt_execution_generation (co_rt co)" "rt_attempt_generation r = rt_attempt_generation (co_rt co)"
    "map_of (rt_safe_points r) safe_point \<noteq> None"
    using sp by (simp_all add: r_def apply_op_def rt_effect Let_def map_of_map_assign del: perform.simps)
  obtain a b c d where pub: "snd (publish_progress (m_progress_position prog) (m_progress_kind prog) r) =
     r\<lparr>rt_current_position := a, rt_progress_generation := b, rt_durable_position := c, rt_durable_progress_generation := d\<rparr>"
    using publish_frame by blast
  let ?co = "co\<lparr>co_rt := snd (publish_progress (m_progress_position prog) (m_progress_kind prog) r),
     co_last_progress := m_progress_position prog\<rparr>"
  have "run_segment target io co = (Inr True, [SentToWorker (segment_command target co)], ?co)"
    using assms(1) io sp
    by (simp add: run_segment_def drivable_def reach_call emit_def case_prod_unfold flip: r_def)
  moreover have "drivable ?co"
    using assms(1) r unfolding pub
    by (simp add: drivable_def validate_authority_iff drive_request_def is_quiesced_all_def capture_will_validate_def contract_is_ours_def)
  ultimately show ?thesis using r(3,5,6) by (simp add: pub)
qed

section \<open>Preempting and resuming\<close>

lemma drive_resume_completes:
  assumes "rt_machine (co_rt co) = LifecycleState.kPreempted" "\<not> checkpoint_stale (co_rt co)"
    and "\<not> dependency_blocked (ad_resume_dep (rt_adapters (co_rt co)))"
  shows "drive_resume co = (Inr True, [ResumedLine True LifecycleState.kResumed],
     co\<lparr>co_rt := run_ops resume_calls (co_rt co)\<rparr>)"
proof -
  define r where "r = apply_op OpRestore (apply_op OpRevalidate (apply_op OpRequestResume (co_rt co)))"
  have "rt_machine r = LifecycleState.kResumeReady"
    using assms by (simp add: r_def apply_op_def rt_effect del: perform.simps)
  then obtain rm where rm: "confirm_resumed r = (Inr rm, apply_op OpConfirm r)"
    "res_outcome rm = PreemptionOutcome.kSafePreemptionCompleted"
    using confirm_resumed_result by blast
  have last: "apply_op OpConfirm r = run_ops resume_calls (co_rt co)" by (simp add: r_def resume_calls_def run_ops_def)
  have "rt_machine (run_ops resume_calls (co_rt co)) = LifecycleState.kResumed"
    using resume_completes [OF assms] by simp
  then show ?thesis
    using rm last by (simp add: drive_resume_def call_rt_ops flip: r_def) (simp add: call_rt_def)
qed

lemma emit_eq: "emit evs (res, evs', co) = (res, evs @ evs', co)"
  by (simp add: emit_def)

lemma emit_Nil: "emit [] x = x"
  by (cases x) (simp add: emit_eq)

lemma emit_emit: "emit a (emit b x) = emit (a @ b) x"
  by (cases x) (simp add: emit_eq)

definition segment_commands :: "(Message \<times> worker_io) list \<Rightarrow> bool" where
  "segment_commands segs \<longleftrightarrow> (\<forall>(cmd, io) \<in> set segs. m_type cmd = MessageType.kPublishProgress \<and> honest_segment io)"

lemma command_loop_segments:
  assumes "segment_commands segs" "drivable co"
  shows "\<exists>evs co'. command_loop final (segs @ rest) co = emit evs (command_loop final rest co') \<and> drivable co' \<and>
     rt_adapters (co_rt co') = rt_adapters (co_rt co)"
  using assms
proof (induction segs arbitrary: co)
  case Nil
  then show ?case by (intro exI [of _ "[]"] exI [of _ co]) (simp add: emit_Nil)
next
  case (Cons seg segs)
  obtain cmd io where seg: "seg = (cmd, io)" by (cases seg)
  have cmd: "m_type cmd = MessageType.kPublishProgress" "honest_segment io" and rest: "segment_commands segs"
    using Cons.prems(1) by (auto simp: seg segment_commands_def)
  obtain evs1 co1 where run: "run_segment (m_progress_position cmd) io co = (Inr True, evs1, co1)" "drivable co1"
    "rt_adapters (co_rt co1) = rt_adapters (co_rt co)"
    using run_segment_completes [OF Cons.prems(2) cmd(2)] by blast
  obtain evs2 co2 where "command_loop final (segs @ rest) co1 = emit evs2 (command_loop final rest co2)" "drivable co2"
    "rt_adapters (co_rt co2) = rt_adapters (co_rt co1)"
    using Cons.IH [OF rest run(2)] by blast
  then show ?case using run cmd(1) seg
    by (intro exI [of _ "(evs1 @ [Segment (m_progress_position cmd)]) @ evs2"] exI [of _ co2])
      (simp add: handle_command_def report_ok_def emit_emit)
qed

lemma preempt_then_resume:
  assumes "drivable co" "responsive io" "m_type preempt = MessageType.kRequestPreemption"
    and "m_type resume = MessageType.kRequestResume"
    and "\<not> dependency_blocked (ad_resume_dep (rt_adapters (co_rt co)))"
  defines "p \<equiv> preempted_runtime (drive_report co) (at_boundary co)"
  shows "\<exists>evs co'. command_loop Closes [(preempt, io), (resume, io')] co = (Inr (), evs, co') \<and>
     DrivePreemption True \<in> set evs \<and> DriveResume True \<in> set evs \<and> co_rt co' = run_ops resume_calls p"
proof -
  note ready = at_boundary_ready [OF assms(1)]
  note facts = preempted_runtime_facts [OF ready(1,2,3), folded p_def]
  obtain evs where pre: "drive_preemption io co = (Inr True, evs, co\<lparr>co_rt := p\<rparr>)"
    using drive_preemption_completes [OF assms(1,2)] by (auto simp: p_def preempted_runtime_def)
  have "drive_resume (co\<lparr>co_rt := p\<rparr>) = (Inr True, [ResumedLine True LifecycleState.kResumed],
      co\<lparr>co_rt := run_ops resume_calls p\<rparr>)"
    using drive_resume_completes [of "co\<lparr>co_rt := p\<rparr>"] facts(1,3,4) ready(4) assms(5) by simp
  then show ?thesis using pre assms(3,4) by (auto simp: handle_command_def report_ok_def emit_eq)
qed

lemma begin_execution_returns:
  assumes "io_sent io \<in> {Sent, NotSent}"
  shows "\<exists>evs. begin_execution io co = (Inr (), evs, begin_runtime co)"
  using assms by (auto simp: begin_execution_def Let_def emit_eq)

lemma started_adapters:
  "rt_adapters (co_rt (started_coordinator hash save_given reg)) =
     ad_set_authoritative exec_id attempt_id exec_gen attempt_gen co_epoch (coordinator_boot hash (m_detail reg)) coordinator_adapters"
  by (simp add: start_defs Let_def ad_set_authoritative_def)

section \<open>Properties\<close>

text \<open>
  C5: the reference scenario end to end. A coordinator started without a stored image, with a worker
  that answers, that is told to begin, to run any number of segments, to preempt and then to
  resume reports success for both, whatever the worker's messages say and whatever the value of
  the hash that picks the boot id; it ends in RESUMED with every unit of the contract released and
  an attempt generation one above the preempted one.
\<close>
theorem coordinator_preempts_and_resumes:
  assumes "segment_commands segs" "responsive io" "io_sent io0 \<in> {Sent, NotSent}"
    and "m_type begin_cmd = MessageType.kBeginExecution" "m_type preempt = MessageType.kRequestPreemption"
    and "m_type resume = MessageType.kRequestResume"
  shows "\<exists>evs co'. command_loop Closes ((begin_cmd, io0) # segs @ [(preempt, io), (resume, io1)]) (fresh_coordinator hash save_given reg)
       = (Inr (), evs, co') \<and> DrivePreemption True \<in> set evs \<and> DriveResume True \<in> set evs \<and>
     rt_machine (co_rt co') = LifecycleState.kResumed \<and> (\<forall>c. ad_reserved c (rt_adapters (co_rt co')) = 0) \<and>
     is_attempt_authoritative (co_rt co') \<and> ad_attempt_attempt_gen (rt_adapters (co_rt co')) = GenV 2"
proof -
  let ?s = "started_coordinator hash save_given reg"
  obtain evs0 where begin_ex: "begin_execution io0 (fresh_coordinator hash save_given reg) = (Inr (), evs0, ?s)"
    using begin_execution_returns [OF assms(3)] by (auto simp: started_coordinator_def)
  obtain evs1 co1 where segs: "command_loop Closes (segs @ [(preempt, io), (resume, io1)]) ?s
      = emit evs1 (command_loop Closes [(preempt, io), (resume, io1)] co1)" "drivable co1"
      "rt_adapters (co_rt co1) = rt_adapters (co_rt ?s)"
    using command_loop_segments [OF assms(1) started_drivable] by blast
  let ?p = "preempted_runtime (drive_report co1) (at_boundary co1)"
  have dep: "\<not> dependency_blocked (ad_resume_dep (rt_adapters (co_rt co1)))"
    using coordinator_adapters_fields(7) by (simp add: segs(3) started_adapters ad_set_authoritative_def)
  obtain evs2 co' where run: "command_loop Closes [(preempt, io), (resume, io1)] co1 = (Inr (), evs2, co')"
    "DrivePreemption True \<in> set evs2" "DriveResume True \<in> set evs2" "co_rt co' = run_ops resume_calls ?p"
    using preempt_then_resume [OF segs(2) assms(2,5,6) dep] by blast
  note ready = at_boundary_ready [OF segs(2)]
  note facts = preempted_runtime_facts [OF ready(1,2,3)]
  have "\<not> dependency_blocked (ad_resume_dep (rt_adapters ?p))" using dep facts(4) ready(4) by simp
  note resumed = resume_completes [OF facts(1,3) this]
  have gen: "ad_attempt_attempt_gen (rt_adapters ?p) = GenV 1"
    by (simp add: facts(5) ready(4) segs(3) started_adapters ad_set_authoritative_def)
  have "rt_machine (co_rt co') = LifecycleState.kResumed" "\<forall>c. ad_reserved c (rt_adapters (co_rt co')) = 0"
    "is_attempt_authoritative (co_rt co')" "ad_attempt_attempt_gen (rt_adapters (co_rt co')) = GenV 2"
    using facts(6) by (simp_all add: run(4) resumed is_attempt_authoritative_def ad_grant_fresh_attempt_authority_def
        ad_current_attempt_authority_def ad_reserved_def Let_def gen gen_next_def kMaxValue_def)
  then show ?thesis using begin_ex segs(1) run(1-3) assms(4) by (auto simp: handle_command_def emit_eq)
qed

definition answering :: worker_io where
  "answering = \<lparr>io_sent = Sent, io_first = Got default_Message, io_second = Got default_Message, io_accepted = Connected\<rparr>"

definition command :: "MessageType \<Rightarrow> Message" where
  "command t = default_Message\<lparr>m_type := t\<rparr>"

theorem coordinator_preempts_and_resumes_witness:
  "\<exists>evs co'. command_loop Closes ((command MessageType.kBeginExecution, answering)
         # [(command MessageType.kPublishProgress, answering)]
         @ [(command MessageType.kRequestPreemption, answering), (command MessageType.kRequestResume, answering)])
       (fresh_coordinator (\<lambda>_. 7) True default_Message)
       = (Inr (), evs, co') \<and> DrivePreemption True \<in> set evs \<and> DriveResume True \<in> set evs \<and>
     rt_machine (co_rt co') = LifecycleState.kResumed \<and> (\<forall>c. ad_reserved c (rt_adapters (co_rt co')) = 0) \<and>
     is_attempt_authoritative (co_rt co') \<and> ad_attempt_attempt_gen (rt_adapters (co_rt co')) = GenV 2"
  by (rule coordinator_preempts_and_resumes)
    (simp_all add: segment_commands_def honest_segment_def responsive_def answering_def command_def)

text \<open>
  A preemption command that arrives before the execution has been started reaches an
  undeclared safe point; the runtime throws, nothing catches it and the coordinator dies.
\<close>
theorem preempt_before_begin_crashes:
  assumes "m_type preempt = MessageType.kRequestPreemption"
  shows "fst (command_loop final ((preempt, io) # cmds) (fresh_coordinator hash save_given reg))
     = Inl (Uncaught \<lparr>err_code = ''unknown_safe_point'', err_message = ''unknown safe point''\<rparr>)"
proof -
  let ?co = "fresh_coordinator hash save_given reg"
  have r: "rt_machine (co_rt ?co) = LifecycleState.kInvalid" "rt_safe_points (co_rt ?co) = []" "co_worker_open ?co"
    "\<not> validate_authority (drive_request ?co) (co_rt ?co)"
    by (simp_all add: start_defs Let_def validate_authority_def drive_request_def id_default_def)
  have "apply_op (OpRequest (drive_request ?co)) (co_rt ?co) = co_rt ?co"
    using r(4) by (simp add: apply_op_def rt_effect del: perform.simps)
  moreover have "apply_op OpBeginQuiesce (co_rt ?co) = co_rt ?co"
    using r(1) by (simp add: apply_op_def rt_effect del: perform.simps)
  ultimately have "fst (drive_preemption io ?co) = Inl (Uncaught \<lparr>err_code = ''unknown_safe_point'', err_message = ''unknown safe point''\<rparr>)"
    using r by (simp add: drive_preemption_def call_rt_ops begin_quiesce_call) (simp add: call_rt_def reach_safe_point_def)
  then show ?thesis using assms by (cases "drive_preemption io ?co") (simp add: handle_command_def report_ok_def)
qed

theorem preempt_before_begin_crashes_witness:
  "fst (command_loop Closes [(command MessageType.kRequestPreemption, answering)] (fresh_coordinator (\<lambda>_. 7) False default_Message))
     = Inl (Uncaught \<lparr>err_code = ''unknown_safe_point'', err_message = ''unknown safe point''\<rparr>)"
  by (rule preempt_before_begin_crashes) (simp add: command_def)

text \<open>
  The coordinator does not look at the authority context of the worker's messages: two replies
  that agree on the reported positions and the progress kind have the same effect, whatever type,
  epoch, boot id, attempt or sequence number they carry.
\<close>
theorem segment_ignores_authority:
  assumes "io_first io = Got prog" "io_second io = Got reach" "io_first io' = Got prog'" "io_second io' = Got reach'"
    and "io_sent io = io_sent io'" "m_progress_position prog = m_progress_position prog'"
    and "m_progress_kind prog = m_progress_kind prog'" "m_safe_point_position reach = m_safe_point_position reach'"
  shows "run_segment target io co = run_segment target io' co"
  using assms by (cases "io_sent io'") (simp_all add: run_segment_def)

theorem segment_ignores_authority_witness:
  "run_segment 5 answering (fresh_coordinator (\<lambda>_. 7) False default_Message) =
   run_segment 5 (answering\<lparr>io_first := Got (default_Message\<lparr>m_worker_boot_id := IdV 666, m_coordinator_epoch := GenV 1\<rparr>)\<rparr>)
     (fresh_coordinator (\<lambda>_. 7) False default_Message)"
  by (rule segment_ignores_authority [where prog = default_Message and reach = default_Message
        and prog' = "default_Message\<lparr>m_worker_boot_id := IdV 666, m_coordinator_epoch := GenV 1\<rparr>" and reach' = default_Message])
    (simp_all add: answering_def)

end
