(* ===== verification/PF_Process.thy ===== *)
theory PF_Process
  imports PF_Connection PF_Worker PF_Coordinator
begin

text \<open>
  The processes around the command loops: opening sockets on the loopback interface
  (\<^verbatim>\<open>src/protocol/connection.cpp\<close>), the parsing of the command lines of the coordinator and the worker,
  and the worker process down to the bytes it exchanges. Every system call is an argument of the
  definition that makes it, as its result; the descriptors that are open are a set, so that a
  leak is visible. The worker process is shown to be its message loop (\<open>worker_loop\<close>) seen through
  the frame codec and the partial reads and writes of the socket.
\<close>

section \<open>Sockets\<close>

definition ensure_winsock :: bool where
  "ensure_winsock = True"

definition set_reuse :: "int \<Rightarrow> bool" where
  "set_reuse setsockopt_result \<longleftrightarrow> setsockopt_result = 0"

definition close_socket :: "int \<Rightarrow> int set \<Rightarrow> int set" where
  "close_socket s opened = (if s \<noteq> -1 then opened - {s} else opened)"

text \<open>\<^verbatim>\<open>::socket\<close> with its result: a descriptor that is open from now on, or \<open>-1\<close>.\<close>

definition open_socket :: "int \<Rightarrow> int set \<Rightarrow> int set" where
  "open_socket s opened = (if s = -1 then opened else insert s opened)"

record Listener =
  l_sock :: int
  l_port :: u16

definition default_Listener :: Listener where
  "default_Listener = \<lparr>l_sock = -1, l_port = 0\<rparr>"

text \<open>The results of the calls; that of \<^verbatim>\<open>getsockname\<close> is the port it stored, if it succeeded.\<close>

record listen_calls =
  lc_socket :: int
  lc_setsockopt :: int
  lc_bind :: int
  lc_listen :: int
  lc_getsockname :: "u16 option"

definition listen_loopback :: "u16 \<Rightarrow> listen_calls \<Rightarrow> int set \<Rightarrow> Listener \<times> int set" where
  "listen_loopback port os opened =
     (let l = default_Listener
      in if \<not> ensure_winsock then (l, opened)
         else let s = lc_socket os; opened = open_socket s opened
         in if s = -1 then (l, opened)
         else let reused = set_reuse (lc_setsockopt os)
         in if lc_bind os \<noteq> 0 then (l, close_socket s opened)
         else if lc_listen os \<noteq> 0 then (l, close_socket s opened)
         else let l = (if port = 0
                       then case lc_getsockname os of None \<Rightarrow> l | Some p \<Rightarrow> l\<lparr>l_port := p\<rparr>
                       else l\<lparr>l_port := port\<rparr>)
              in (l\<lparr>l_sock := s\<rparr>, opened))"

definition accept_connection :: "int \<Rightarrow> int set \<Rightarrow> int \<times> int set" where
  "accept_connection accept_result opened = (accept_result, open_socket accept_result opened)"

definition connect_loopback :: "int \<Rightarrow> int \<Rightarrow> int set \<Rightarrow> int \<times> int set" where
  "connect_loopback socket_result connect_result opened =
     (if \<not> ensure_winsock then (-1, opened)
      else let s = socket_result; opened = open_socket s opened
      in if s = -1 then (s, opened)
      else if connect_result \<noteq> 0 then (-1, close_socket s opened)
      else (s, opened))"

text \<open>
  \<open>read_exact results n\<close>: the results of successive \<^verbatim>\<open>::recv\<close> calls, the return value, the bytes
  stored and the results not used; a call that is still blocked is \<open>None\<close>.
\<close>

fun read_exact :: "recv_result list \<Rightarrow> nat \<Rightarrow> bool option \<times> byte list \<times> recv_result list" where
  "read_exact results 0 = (Some True, [], results)"
| "read_exact [] (Suc n) = (None, [], [])"
| "read_exact (RecvClosed # results) (Suc n) = (Some False, [], results)"
| "read_exact (RecvFailed # results) (Suc n) = (Some False, [], results)"
| "read_exact (RecvData d # results) (Suc n) =
     (if d = [] then (Some False, [], results)
      else let (ok, got, rest) = read_exact results (Suc n - length d) in (ok, d @ got, rest))"

text \<open>What \<^verbatim>\<open>::recv\<close> promises: at most the number of bytes asked for.\<close>

fun recv_contract :: "recv_result list \<Rightarrow> nat \<Rightarrow> bool" where
  "recv_contract results 0 = True"
| "recv_contract [] (Suc n) = True"
| "recv_contract (RecvData d # results) (Suc n) =
     (length d \<le> min kChunk (Suc n) \<and> recv_contract results (Suc n - length d))"
| "recv_contract (_ # results) (Suc n) = True"

lemma read_exact_bounded:
  assumes "recv_contract results n" "read_exact results n = (ok, got, rest)"
  shows "length got \<le> n \<and> (ok = Some True \<longrightarrow> length got = n)"
  using assms
proof (induction results n arbitrary: ok got rest rule: read_exact.induct)
  case (5 d results n)
  obtain ok' got' rest' where step: "read_exact results (Suc n - length d) = (ok', got', rest')" by (metis prod_cases3)
  have le: "length d \<le> Suc n" using 5(2) by simp
  have "length got' \<le> Suc n - length d \<and> (ok' = Some True \<longrightarrow> length got' = Suc n - length d)"
    if "d \<noteq> []" using 5(1) [OF that _ step] 5(2) by simp
  then show ?case using 5(3) step le by (auto simp: Let_def split: if_splits)
qed auto

section \<open>Command lines\<close>

text \<open>
  \<^verbatim>\<open>std::atoi\<close> and its relatives: white space, an optional sign, decimal digits; what follows is
  ignored. A value that does not fit the type is undefined behaviour of \<^verbatim>\<open>atoi\<close> and \<^verbatim>\<open>atoll\<close>: \<open>None\<close>.
\<close>

definition is_space :: "char \<Rightarrow> bool" where
  "is_space c \<longleftrightarrow> of_char c \<in> {9, 10, 11, 12, 13, 32 :: nat}"

definition is_digit :: "char \<Rightarrow> bool" where
  "is_digit c \<longleftrightarrow> 48 \<le> (of_char c :: nat) \<and> of_char c \<le> (57 :: nat)"

definition digits_value :: "string \<Rightarrow> nat" where
  "digits_value s = foldl (\<lambda>v c. 10 * v + (of_char c - 48)) 0 (takeWhile is_digit s)"

definition c_integer :: "string \<Rightarrow> int" where
  "c_integer s =
     (case dropWhile is_space s of
        [] \<Rightarrow> 0
      | c # cs \<Rightarrow> if of_char c = (45 :: nat) then - int (digits_value cs)
                  else if of_char c = (43 :: nat) then int (digits_value cs)
                  else int (digits_value (c # cs)))"

definition atoi :: "string \<Rightarrow> int option" where
  "atoi s = (let v = c_integer s in if - (2 ^ 31) \<le> v \<and> v < 2 ^ 31 then Some v else None)"

definition atoll :: "string \<Rightarrow> int option" where
  "atoll s = (let v = c_integer s in if - (2 ^ 63) \<le> v \<and> v < 2 ^ 63 then Some v else None)"

definition parse_port :: "string \<Rightarrow> u16 option" where
  "parse_port s = map_option word_of_int (atoi s)"

text \<open>\<^verbatim>\<open>std::strtoull\<close> has no undefined behaviour: it saturates, and negates modulo the width.\<close>

definition parse_u64 :: "string \<Rightarrow> u64" where
  "parse_u64 s = (let v = c_integer s in if \<bar>v\<bar> < 2 ^ 64 then word_of_int v else - 1)"

record coordinator_options =
  opt_port :: u16
  opt_recover :: string
  opt_save :: string

fun coordinator_args :: "string list \<Rightarrow> coordinator_options \<Rightarrow> coordinator_options option" where
  "coordinator_args [] opts = Some opts"
| "coordinator_args [a] opts = Some opts"
| "coordinator_args (a # b # rest) opts =
     (if a = ''--port''
      then case parse_port b of None \<Rightarrow> None | Some p \<Rightarrow> coordinator_args rest (opts\<lparr>opt_port := p\<rparr>)
      else if a = ''--recover'' then coordinator_args rest (opts\<lparr>opt_recover := b\<rparr>)
      else if a = ''--save'' then coordinator_args rest (opts\<lparr>opt_save := b\<rparr>)
      else coordinator_args (b # rest) opts)"

section \<open>The worker process\<close>

text \<open>
  A process exits, waits for ever for a system call to return, is ended by an uncaught exception or
  by a signal, or has undefined behaviour (a number on the command line that does not fit). The
  worker's own sends are given by their results, as where \<^verbatim>\<open>SIGPIPE\<close> is ignored (or on Windows);
  with the default disposition its process ends where the model has a failed send.
\<close>

datatype process_end = Exited int | Blocked | Terminated | Signalled | Undefined

text \<open>The connection with the results of the calls still to come and the bytes sent so far.\<close>

record wire =
  wi_conn :: TcpConnection
  wi_sends :: "int list"
  wi_recvs :: "recv_result list"
  wi_sent :: "byte list"

definition send_message :: "Message \<Rightarrow> wire \<Rightarrow> (process_end + bool) \<times> wire" where
  "send_message m s =
     (case send (wi_sends s) m (wi_conn s) of
        None \<Rightarrow> (Inl Terminated, s)
      | Some (ok, sent, rest) \<Rightarrow>
          (case ok of None \<Rightarrow> Inl Blocked | Some ok \<Rightarrow> Inr ok, s\<lparr>wi_sends := rest, wi_sent := wi_sent s @ sent\<rparr>))"

definition receive_message :: "wire \<Rightarrow> (process_end + Message option) \<times> wire" where
  "receive_message s =
     (case receive (wi_recvs s) (wi_conn s) of
        (res, c, rest) \<Rightarrow>
          (case res of None \<Rightarrow> Inl Blocked | Some r \<Rightarrow> Inr r, s\<lparr>wi_conn := c, wi_recvs := rest\<rparr>))"

text \<open>The branches send without looking at the result.\<close>

fun send_all :: "Message list \<Rightarrow> wire \<Rightarrow> (process_end + unit) \<times> wire" where
  "send_all [] s = (Inr (), s)"
| "send_all (m # ms) s =
     (case send_message m s of (Inl e, s) \<Rightarrow> (Inl e, s) | (Inr _, s) \<Rightarrow> send_all ms s)"

text \<open>The bytes a connection can still deliver bound the number of messages it can receive.\<close>

fun recv_size :: "recv_result \<Rightarrow> nat" where
  "recv_size (RecvData d) = length d"
| "recv_size RecvClosed = 0"
| "recv_size RecvFailed = 0"

definition undelivered :: "wire \<Rightarrow> nat" where
  "undelivered s = length (fd_buffer (tc_decoder (wi_conn s))) + sum_list (map recv_size (wi_recvs s))"

lemma pop_keeps: "pop d = (None, d') \<Longrightarrow> length (fd_buffer d') \<le> length (fd_buffer d)"
  by (auto simp: pop_def set_fatal_def Let_def split: if_splits option.splits sum.splits prod.splits)

lemma receive_loop_consumes:
  assumes "receive_loop inputs d = (Some (Some m), d', rest)"
  shows "length (fd_buffer d') + sum_list (map recv_size rest) < length (fd_buffer d) + sum_list (map recv_size inputs)"
  using assms
proof (induction inputs arbitrary: d)
  case Nil
  then show ?case using pop_shrinks [of d m] by (auto split: if_splits prod.splits option.splits)
next
  case (Cons i inputs)
  obtain res d1 where p: "pop d = (res, d1)" by (cases "pop d")
  show ?case
  proof (cases res)
    case (Some m1)
    then show ?thesis using Cons.prems p pop_shrinks [of d m1 d1] by (auto split: if_splits)
  next
    case None
    then obtain buf where i: "i = RecvData buf" using Cons.prems p by (cases i) (auto split: if_splits)
    then have "receive_loop inputs (feed buf d1) = (Some (Some m), d', rest)"
      using Cons.prems p None by (auto split: if_splits)
    from Cons.IH [OF this] show ?thesis using i pop_keeps [of d d1] p None by (auto simp: feed_def split: if_splits)
  qed
qed

lemma receive_message_consumes:
  "receive_message s = (Inr (Some m), s') \<Longrightarrow> undelivered s' < undelivered s"
  using receive_loop_consumes [of "wi_recvs s" "tc_decoder (wi_conn s)" m]
  by (auto simp: receive_message_def receive_def undelivered_def split: prod.splits option.splits if_splits)

lemma send_message_keeps: "send_message m s = (res, s') \<Longrightarrow> undelivered s' = undelivered s"
  by (auto simp: send_message_def undelivered_def split: option.splits prod.splits)

lemma send_all_keeps: "send_all ms s = (res, s') \<Longrightarrow> undelivered s' = undelivered s"
  by (induction ms arbitrary: s) (auto split: prod.splits sum.splits dest!: send_message_keeps)

function worker_commands :: "Worker \<Rightarrow> wire \<Rightarrow> process_end \<times> wire" where
  "worker_commands w s =
     (case receive_message s of
        (Inl e, s) \<Rightarrow> (e, s)
      | (Inr None, s) \<Rightarrow> (Exited 0, s)
      | (Inr (Some cmd), s1) \<Rightarrow>
          (case worker_handle cmd w of
             (code, out, w1) \<Rightarrow>
               (case send_all out s1 of
                  (Inl e, s2) \<Rightarrow> (e, s2)
                | (Inr _, s2) \<Rightarrow> (case code of Some c \<Rightarrow> (Exited c, s2) | None \<Rightarrow> worker_commands w1 s2))))"
  by pat_completeness auto
termination
  by (relation "measure (undelivered \<circ> snd)")
    (auto dest!: sym [of _ "receive_message _"] sym [of _ "send_all _ _"] receive_message_consumes send_all_keeps)

declare worker_commands.simps [simp del]

definition worker_session :: "Worker \<Rightarrow> wire \<Rightarrow> process_end \<times> wire" where
  "worker_session w s =
     (let (msgs, w) = worker_register w
      in case send_message (msgs ! 0) s of
           (Inl e, s) \<Rightarrow> (e, s)
         | (Inr hello_sent, s) \<Rightarrow>
             if \<not> hello_sent then (Exited 1, s)
             else case send_message (msgs ! 1) s of
                    (Inl e, s) \<Rightarrow> (e, s)
                  | (Inr reg_sent, s) \<Rightarrow>
                      if \<not> reg_sent then (Exited 1, s)
                      else case receive_message s of
                             (Inl e, s) \<Rightarrow> (e, s)
                           | (Inr None, s) \<Rightarrow> (Exited 1, s)
                           | (Inr (Some reg_ack), s) \<Rightarrow> worker_commands (worker_registered reg_ack w) s)"

text \<open>
  \<^verbatim>\<open>main\<close>: the arguments after the program name, the results of \<^verbatim>\<open>::socket\<close> and \<^verbatim>\<open>::connect\<close>, and
  those of the calls on the connection. The descriptor is closed by the destructor of the
  connection; it is the last component of the result.
\<close>

definition worker_main ::
  "string list \<Rightarrow> int \<Rightarrow> int \<Rightarrow> int list \<Rightarrow> recv_result list \<Rightarrow> int set \<Rightarrow> process_end \<times> byte list \<times> int set" where
  "worker_main args socket_result connect_result sends recvs opened =
     (case args of
        port # worker_id # label # _ \<Rightarrow>
          (case (parse_port port, atoll worker_id) of
             (Some port, Some i) \<Rightarrow>
               (let (s, opened) = connect_loopback socket_result connect_result opened
                in if s = -1 then (Exited 1, [], opened)
                   else let (e, wi) = worker_session (worker_start (IdV (word_of_int i)) label)
                              \<lparr>wi_conn = tcp_connection s, wi_sends = sends, wi_recvs = recvs, wi_sent = []\<rparr>
                        in (e, wi_sent wi, case e of Exited _ \<Rightarrow> close_socket s opened | _ \<Rightarrow> opened))
           | _ \<Rightarrow> (Undefined, [], opened))
      | _ \<Rightarrow> (Exited 2, [], opened))"

section \<open>Printed ports are parsed back\<close>

lemma digit_char:
  assumes "d < 10"
  shows "(of_char (char_of (48 + d) :: char) :: nat) = 48 + d" "is_digit (char_of (48 + d))" "\<not> is_space (char_of (48 + d))"
proof -
  show code: "(of_char (char_of (48 + d) :: char) :: nat) = 48 + d" using assms by simp
  show "is_digit (char_of (48 + d))" unfolding is_digit_def code using assms by simp
  show "\<not> is_space (char_of (48 + d))" unfolding is_space_def code by simp
qed

lemma nat_to_string_digits: "(\<forall>c \<in> set (nat_to_string n). is_digit c) \<and> nat_to_string n \<noteq> [] \<and> is_digit (hd (nat_to_string n))"
proof (induction n rule: nat_to_string.induct)
  case (1 n)
  then show ?case by (subst (1 2 3) nat_to_string.simps) (simp add: digit_char)
qed

lemma digits_value_snoc:
  assumes "\<forall>c \<in> set s. is_digit c" "is_digit c"
  shows "digits_value (s @ [c]) = 10 * digits_value s + (of_char c - 48)"
proof -
  have all: "takeWhile is_digit s = s" using assms(1) by (simp add: takeWhile_eq_all_conv)
  show ?thesis using assms by (simp add: digits_value_def takeWhile_append2 all)
qed

lemma digits_value_nat_to_string: "digits_value (nat_to_string n) = n"
proof (induction n rule: nat_to_string.induct)
  case (1 n)
  show ?case
  proof (cases "n < 10")
    case True
    then show ?thesis by (simp add: nat_to_string.simps [of n] digits_value_def digit_char)
  next
    case False
    have "digits_value (nat_to_string (n div 10) @ [char_of (48 + n mod 10)]) = 10 * (n div 10) + n mod 10"
      using digits_value_snoc [of "nat_to_string (n div 10)" "char_of (48 + n mod 10)"] nat_to_string_digits [of "n div 10"]
        1 [OF False] digit_char(1,2) [of "n mod 10"] by simp
    then show ?thesis using False by (simp add: nat_to_string.simps [of n])
  qed
qed

lemma c_integer_nat_to_string: "c_integer (nat_to_string n) = int n"
proof -
  obtain c cs where s: "nat_to_string n = c # cs" "is_digit c"
    using nat_to_string_digits [of n] by (cases "nat_to_string n") auto
  then have "\<not> is_space c" "(of_char c :: nat) \<noteq> 45" "(of_char c :: nat) \<noteq> 43" by (auto simp: is_digit_def is_space_def)
  then show ?thesis using digits_value_nat_to_string [of n] s by (simp add: c_integer_def)
qed

lemma parse_printed_port: "parse_port (nat_to_string (unat p)) = Some p"
proof -
  have "uint p < 65536" using unsigned_less [where 'a = int, of p] by simp
  then have "uint p < 2147483648" "- 2147483648 \<le> uint p" using uint_ge_0 [of p] by linarith+
  then show ?thesis by (simp add: parse_port_def atoi_def c_integer_nat_to_string Let_def)
qed

section \<open>A network that takes every frame\<close>

text \<open>The results of the \<^verbatim>\<open>::send\<close> calls that move one frame, in pieces of any size.\<close>

definition accepts :: "int list \<Rightarrow> byte list \<Rightarrow> bool" where
  "accepts results f \<longleftrightarrow> (\<forall>r \<in> set results. 0 < r \<and> r \<le> int kChunk) \<and> sum_list results = int (length f)"

lemma sum_list_positive: "\<forall>r \<in> set rs. 0 < (r :: int) \<Longrightarrow> 0 \<le> sum_list rs"
  by (induction rs) auto

lemma write_all_accepts: "accepts results f \<Longrightarrow> write_all (results @ rest) f = (Some True, f, rest)"
proof (induction results arbitrary: f)
  case (Cons r results)
  have r: "0 < r" "r \<le> int kChunk" "0 \<le> sum_list results" "r + sum_list results = int (length f)"
    using Cons.prems sum_list_positive [of results] by (auto simp: accepts_def)
  then obtain b bs where f: "f = b # bs" by (cases f) auto
  have "accepts results (drop (nat r) f)" using Cons.prems r by (auto simp: accepts_def)
  note ih = Cons.IH [OF this]
  have "take (nat r) (take (if length f > kChunk then kChunk else length f) f) = take (nat r) f"
    using r by (simp add: min_absorb1)
  then show ?case using ih r(1) unfolding f append_Cons write_all.simps Let_def by (simp del: take_take)
qed (cases rest; auto simp: accepts_def)

lemma send_message_accepts:
  assumes "sendable m" "accepts results (frame_bytes m)" "wi_sends s = results @ rest" "tc_sock (wi_conn s) \<noteq> kInvalidSocket"
  shows "send_message m s = (Inr True, s\<lparr>wi_sends := rest, wi_sent := wi_sent s @ frame_bytes m\<rparr>)"
  using assms write_all_accepts [OF assms(2)] encode_frame_eq [of m] sendable_body(1) [of m]
  by (simp add: send_message_def send_def)

definition wire_at :: "int \<Rightarrow> int list \<Rightarrow> byte list \<Rightarrow> byte list list \<Rightarrow> byte list \<Rightarrow> wire" where
  "wire_at sock sends b cs sent = \<lparr>wi_conn = \<lparr>tc_sock = sock, tc_decoder = buffered b\<rparr>, wi_sends = sends,
     wi_recvs = map RecvData cs @ [RecvClosed], wi_sent = sent\<rparr>"

lemma send_message_wire:
  assumes "sendable m" "accepts results (frame_bytes m)" "sock \<noteq> kInvalidSocket"
  shows "send_message m (wire_at sock (results @ rest) b cs sent) = (Inr True, wire_at sock rest b cs (sent @ frame_bytes m))"
  using send_message_accepts [OF assms(1,2), of "wire_at sock (results @ rest) b cs sent"] assms(3) by (simp add: wire_at_def)

lemma send_all_wire:
  assumes "list_all2 (\<lambda>rs m. accepts rs (frame_bytes m)) rss ms" "\<forall>m \<in> set ms. sendable m" "sock \<noteq> kInvalidSocket"
  shows "send_all ms (wire_at sock (concat rss @ rest) b cs sent) = (Inr (), wire_at sock rest b cs (sent @ frames ms))"
  using assms(1,2)
proof (induction arbitrary: sent rule: list_all2_induct)
  case (Cons rs rss m ms)
  then show ?case using send_message_wire [of m rs sock "concat rss @ rest" b cs sent] assms(3) by simp
qed simp

lemma receive_message_wire:
  assumes "\<forall>x \<in> set (m # ms). sendable x" "b @ concat cs = frames (m # ms)" "sock \<noteq> kInvalidSocket"
  shows "\<exists>b' cs'. receive_message (wire_at sock sends b cs sent) = (Inr (Some m), wire_at sock sends b' cs' sent) \<and>
     b' @ concat cs' = frames ms"
  using receive_one [OF assms(1,2), of "[RecvClosed]"] assms(3) by (auto simp: receive_message_def receive_def wire_at_def)

lemma receive_message_closed:
  assumes "b @ concat cs = []" "sock \<noteq> kInvalidSocket"
  shows "\<exists>s'. receive_message (wire_at sock sends b cs sent) = (Inr None, s') \<and> wi_sent s' = sent"
proof -
  have "pop (buffered []) = (None, buffered [])" by (simp add: pop_short)
  then have "receive_loop (map RecvData cs @ [RecvClosed]) (buffered []) = (Some None, buffered [], [])" if "concat cs = []" for cs
    using that by (induction cs) (simp_all add: feed_def)
  then show ?thesis using assms by (auto simp: receive_message_def receive_def wire_at_def)
qed

section \<open>The process refines the message loop\<close>

lemma worker_handle_sendable: "worker_handle cmd w = (code, out, w') \<Longrightarrow> \<forall>m \<in> set out. sendable m"
  by (auto simp: worker_handle_def next_seq_def sendable_def default_Message_def Let_def split: MessageType.splits)

lemma worker_commands_loop:
  assumes "\<forall>m \<in> set cmds. sendable m" "b @ concat cs = frames cmds" "sock \<noteq> kInvalidSocket"
    and "worker_loop cmds w = (code, out, w')" "list_all2 (\<lambda>rs m. accepts rs (frame_bytes m)) rss out"
  shows "\<exists>s'. worker_commands w (wire_at sock (concat rss) b cs sent) = (Exited code, s') \<and> wi_sent s' = sent @ frames out"
  using assms(1,2,4,5)
proof (induction cmds arbitrary: w b cs rss sent out code w')
  case Nil
  then have "rss = []" "out = []" "code = 0" by auto
  then show ?case using receive_message_closed [of b cs sock "[]" sent] Nil(2) assms(3)
    by (auto simp: worker_commands.simps [of w])
next
  case (Cons cmd cmds)
  obtain c o1 w1 where h: "worker_handle cmd w = (c, o1, w1)" by (metis prod_cases3)
  obtain code2 o2 w2 where l: "worker_loop cmds w1 = (code2, o2, w2)" by (metis prod_cases3)
  define o3 where "o3 = (if c = None then o2 else [])"
  have out: "out = o1 @ o3" "code = (case c of Some c \<Rightarrow> c | None \<Rightarrow> code2)"
    using Cons.prems(3) h l by (auto simp: o3_def split: option.splits)
  obtain rs1 rs3 where rss: "rss = rs1 @ rs3" "list_all2 (\<lambda>rs m. accepts rs (frame_bytes m)) rs1 o1"
    "list_all2 (\<lambda>rs m. accepts rs (frame_bytes m)) rs3 o3"
    using Cons.prems(4) unfolding out(1) list_all2_append2 by blast
  obtain b1 cs1 where recv: "receive_message (wire_at sock (concat rss) b cs sent) = (Inr (Some cmd), wire_at sock (concat rss) b1 cs1 sent)"
    "b1 @ concat cs1 = frames cmds"
    using receive_message_wire [OF Cons.prems(1,2) assms(3)] by blast
  have replies: "send_all o1 (wire_at sock (concat rss) b1 cs1 sent) = (Inr (), wire_at sock (concat rs3) b1 cs1 (sent @ frames o1))"
    using send_all_wire [OF rss(2) worker_handle_sendable [OF h] assms(3)] rss(1) by simp
  show ?case
  proof (cases c)
    case (Some code')
    then show ?thesis using recv(1) h replies out by (simp add: worker_commands.simps [of w] o3_def wire_at_def)
  next
    case None
    have "\<exists>s'. worker_commands w1 (wire_at sock (concat rs3) b1 cs1 (sent @ frames o1)) = (Exited code2, s') \<and>
        wi_sent s' = (sent @ frames o1) @ frames o2"
      using Cons.IH [OF _ recv(2) l, of rs3 "sent @ frames o1"] Cons.prems(1) rss(3) None by (simp add: o3_def)
    then show ?thesis using recv(1) h replies out None by (simp add: worker_commands.simps [of w] o3_def)
  qed
qed

lemma worker_loop_sendable: "worker_loop cmds w = (code, out, w') \<Longrightarrow> \<forall>m \<in> set out. sendable m"
proof (induction cmds arbitrary: w code out)
  case (Cons cmd cmds)
  then show ?case
    by (auto split: prod.splits option.splits dest: worker_handle_sendable [THEN bspec])
qed simp

lemma the_encode_frame: "sendable m \<Longrightarrow> the (encode_frame m) = frame_bytes m"
  using encode_frame_eq [of m] sendable_body(1) [of m] by simp

lemma frames_encode: "\<forall>m \<in> set ms. sendable m \<Longrightarrow> concat (map (the \<circ> encode_frame) ms) = frames ms"
  by (induction ms) (simp_all add: the_encode_frame)

lemma frame_bytes_small: "sendable m \<Longrightarrow> 0 < length (frame_bytes m) \<and> length (frame_bytes m) \<le> 65560"
  unfolding sendable_def frame_bytes_length body_bytes_length by simp

lemma greeting_facts:
  assumes "worker_register (worker_start i label) = (greeting, w)" "245 + length label \<le> 64 * 1024"
  shows "\<forall>m \<in> set greeting. sendable m" "greeting = [greeting ! 0, greeting ! 1]"
    "sendable (greeting ! 0)" "sendable (greeting ! 1)"
  using assms
  by (auto simp: worker_register_def worker_start_def next_seq_def sendable_def default_Message_def)

section \<open>Properties\<close>

lemma open_close:
  assumes "s \<notin> opened"
  shows "close_socket s (open_socket s opened) = opened" "s \<noteq> -1 \<Longrightarrow> close_socket s (insert s opened) = opened"
  using assms by (auto simp: close_socket_def open_socket_def)

lemma listen_loopback_result:
  assumes "lc_socket os \<notin> opened"
  shows "listen_loopback port os opened =
     (if lc_socket os \<noteq> -1 \<and> lc_bind os = 0 \<and> lc_listen os = 0
      then (\<lparr>l_sock = lc_socket os, l_port = if port = 0 then case_option 0 id (lc_getsockname os) else port\<rparr>,
            insert (lc_socket os) opened)
      else (default_Listener, opened))"
  using open_close(2) [OF assms]
  by (cases "lc_getsockname os") (simp_all add: listen_loopback_def ensure_winsock_def default_Listener_def open_socket_def Let_def)

lemma connect_loopback_result:
  assumes "s \<notin> opened"
  shows "connect_loopback s c opened = (if s \<noteq> -1 \<and> c = 0 then (s, insert s opened) else (-1, opened))"
  using open_close(2) [OF assms] by (simp add: connect_loopback_def ensure_winsock_def open_socket_def)

lemma worker_main_closes:
  assumes "worker_main args s c sends recvs opened = (Exited code, sent, opened')" "s \<notin> opened"
  shows "opened' = opened"
  using assms open_close [OF assms(2)]
  by (auto simp: worker_main_def connect_loopback_def open_socket_def Let_def
      split: list.splits option.splits prod.splits if_splits process_end.splits)

text \<open>
  C35: sockets are not leaked. With descriptors that the operating system did not hand out before,
  opening a listener succeeds exactly when all of its calls do; it then owns one new descriptor and
  has the requested port, and a failure leaves no descriptor open. The same holds of connecting, and
  a worker that exits, whatever its arguments, its peer and the calls on its connection, has closed
  what it opened.
\<close>
theorem sockets_not_leaked:
  assumes "lc_socket os \<notin> opened" "s \<notin> opened"
    and "listen_loopback port os opened = (l, listening)" "connect_loopback s c opened = (k, connected)"
    and "worker_main args s c sends recvs opened = (Exited code, sent, finished)"
  shows "(l_sock l \<noteq> -1 \<longleftrightarrow> lc_socket os \<noteq> -1 \<and> lc_bind os = 0 \<and> lc_listen os = 0) \<and>
     (if l_sock l = -1 then listening = opened else listening = insert (l_sock l) opened \<and> (port \<noteq> 0 \<longrightarrow> l_port l = port)) \<and>
     (k \<noteq> -1 \<longleftrightarrow> s \<noteq> -1 \<and> c = 0) \<and> (if k = -1 then connected = opened else connected = insert k opened) \<and>
     finished = opened"
proof (intro conjI)
  show "l_sock l \<noteq> -1 \<longleftrightarrow> lc_socket os \<noteq> -1 \<and> lc_bind os = 0 \<and> lc_listen os = 0"
    "if l_sock l = -1 then listening = opened else listening = insert (l_sock l) opened \<and> (port \<noteq> 0 \<longrightarrow> l_port l = port)"
    using assms(3) unfolding listen_loopback_result [OF assms(1)] by (auto simp: default_Listener_def split: if_splits)
  show "k \<noteq> -1 \<longleftrightarrow> s \<noteq> -1 \<and> c = 0" "if k = -1 then connected = opened else connected = insert k opened"
    using assms(4) unfolding connect_loopback_result [OF assms(2)] by (auto split: if_splits)
  show "finished = opened" by (rule worker_main_closes [OF assms(5,2)])
qed

theorem sockets_not_leaked_witness:
  "l_sock (fst (listen_loopback 0 \<lparr>lc_socket = 3, lc_setsockopt = 0, lc_bind = 0, lc_listen = 0, lc_getsockname = Some 4711\<rparr> {0})) \<noteq> -1 \<and>
   snd (connect_loopback 5 1 {0}) = {0}"
proof -
  let ?os = "\<lparr>lc_socket = 3, lc_setsockopt = 0, lc_bind = 0, lc_listen = 0, lc_getsockname = Some 4711\<rparr>"
  have "worker_main [''80'', ''1'', ''w''] 5 1 [] [] {0} = (Exited 1, [], {0})" by code_simp
  moreover obtain l listening where "listen_loopback 0 ?os {0} = (l, listening)" by (cases "listen_loopback 0 ?os {0}")
  moreover obtain k connected where "connect_loopback 5 1 {0} = (k, connected)" by (cases "connect_loopback 5 1 {0}")
  ultimately show ?thesis using sockets_not_leaked [of ?os "{0}" 5 0 l listening 1 k connected] by (auto split: if_splits)
qed

text \<open>
  C16: the worker process is its message loop over the wire. Let the connection succeed, let the
  frames of the acknowledgement and of the commands arrive in any chunks before the peer closes, and
  let the network take every frame the worker sends, in pieces of any size. Then the process, from
  the parsed arguments through the partial reads and writes to its exit, returns the exit code of the
  message loop, and the bytes on the wire are the frames of the registration and of the replies of
  the loop, in order; the port a coordinator printed is parsed back to the same port.
\<close>
theorem worker_process_refines_loop:
  assumes "atoll worker_id = Some i" "s \<noteq> -1" "s \<notin> opened" "245 + length label \<le> 64 * 1024"
    and "\<forall>m \<in> set (ack # cmds). sendable m" "concat chunks = concat (map (the \<circ> encode_frame) (ack # cmds))"
    and "worker_register (worker_start (IdV (word_of_int i)) label) = (greeting, w)"
    and "worker_loop cmds (worker_registered ack w) = (code, out, w')"
    and "list_all2 (\<lambda>results m. accepts results (the (encode_frame m))) rss (greeting @ out)"
  shows "parse_port (nat_to_string (unat port)) = Some port \<and>
     worker_main (nat_to_string (unat port) # worker_id # label # others) s 0 (concat rss) (map RecvData chunks @ [RecvClosed]) opened
       = (Exited code, concat (map (the \<circ> encode_frame) (greeting @ out)), opened)"
proof -
  note reg = greeting_facts [OF assms(7,4)]
  have sendable: "\<forall>m \<in> set (greeting @ out). sendable m"
    using reg(1) worker_loop_sendable [OF assms(8)] by auto
  have "list_all2 (\<lambda>results m. accepts results (frame_bytes m)) rss (greeting @ out)"
    using sendable by (intro list.rel_mono_strong [OF assms(9)]) (simp add: the_encode_frame)
  then obtain r1 r2 rs where rss: "rss = r1 # r2 # rs" "accepts r1 (frame_bytes (greeting ! 0))"
    "accepts r2 (frame_bytes (greeting ! 1))" "list_all2 (\<lambda>results m. accepts results (frame_bytes m)) rs out"
    by (subst (asm) reg(2)) (auto simp: list_all2_Cons2)
  let ?f1 = "frame_bytes (greeting ! 0)" and ?f2 = "frame_bytes (greeting ! 1)"
  have sock: "s \<noteq> kInvalidSocket" using assms(2) by (simp add: kInvalidSocket_def)
  have "[] @ concat chunks = frames (ack # cmds)"
    using assms(6) frames_encode [OF assms(5)] by simp
  then obtain b cs where recv: "receive_message (wire_at s (concat rs) [] chunks (?f1 @ ?f2))
      = (Inr (Some ack), wire_at s (concat rs) b cs (?f1 @ ?f2))" "b @ concat cs = frames cmds"
    using receive_message_wire [OF assms(5) _ sock] by blast
  obtain s' where loop: "worker_commands (worker_registered ack w) (wire_at s (concat rs) b cs (?f1 @ ?f2)) = (Exited code, s')"
    "wi_sent s' = (?f1 @ ?f2) @ frames out"
    using worker_commands_loop [OF _ recv(2) sock assms(8) rss(4), of "?f1 @ ?f2"] assms(5) by auto
  have "worker_session (worker_start (IdV (word_of_int i)) label) (wire_at s (concat rss) [] chunks []) = (Exited code, s')"
    using assms(7) send_message_wire [OF reg(3) rss(2) sock, of "r2 @ concat rs" "[]" chunks "[]"]
      send_message_wire [OF reg(4) rss(3) sock, of "concat rs" "[]" chunks ?f1] recv(1) loop(1) rss(1)
    by (simp add: worker_session_def)
  moreover have "concat (map (the \<circ> encode_frame) (greeting @ out)) = wi_sent s'"
    using frames_encode [OF sendable] loop(2) by (subst (asm) (2) reg(2)) simp
  ultimately show ?thesis
    using assms(1-3) open_close [OF assms(3)]
    by (simp add: parse_printed_port worker_main_def connect_loopback_def ensure_winsock_def wire_at_def tcp_connection_def
        frame_decoder_def)
qed

definition quiesce_message :: Message where
  "quiesce_message = default_Message\<lparr>m_type := MessageType.kQuiesced, m_execution_id := IdV 20\<rparr>"

definition ack_message :: Message where
  "ack_message = default_Message\<lparr>m_type := MessageType.kRegister, m_worker_boot_id := IdV 1007, m_coordinator_epoch := GenV 100\<rparr>"

definition one_piece :: "Message \<Rightarrow> int list" where
  "one_piece m = [int (length (the (encode_frame m)))]"

definition sample_greeting :: "Message list \<times> Worker" where
  "sample_greeting = worker_register (worker_start (IdV (word_of_int 40)) ''alpha'')"

definition sample_replies :: "int \<times> Message list \<times> Worker" where
  "sample_replies = worker_loop [quiesce_message] (worker_registered ack_message (snd sample_greeting))"

definition sample_sends :: "int list list" where
  "sample_sends = map one_piece (fst sample_greeting @ fst (snd sample_replies))"

lemma one_piece_accepts: "sendable m \<Longrightarrow> accepts (one_piece m) (the (encode_frame m))"
  using frame_bytes_small [of m] by (simp add: accepts_def one_piece_def the_encode_frame kChunk_def)

theorem worker_process_refines_loop_witness:
  "worker_main [nat_to_string (unat (4711 :: u16)), ''40'', ''alpha''] 3 0 (concat sample_sends)
     [RecvData (the (encode_frame ack_message) @ the (encode_frame quiesce_message)), RecvClosed] {0}
     = (Exited 0, concat (map (the \<circ> encode_frame) (fst sample_greeting @ fst (snd sample_replies))), {0})"
proof -
  obtain greeting w where reg: "sample_greeting = (greeting, w)" by (cases sample_greeting)
  obtain code out w' where loop: "sample_replies = (code, out, w')" by (metis prod_cases3)
  have code: "code = 0" using loop by (simp add: sample_replies_def worker_handle_def quiesce_message_def next_seq_def)
  have ok: "\<forall>m \<in> set (greeting @ out). sendable m"
    using greeting_facts(1) [of "IdV (word_of_int 40)" "''alpha''" greeting w] worker_loop_sendable [of _ _ code out w']
      reg loop unfolding sample_greeting_def sample_replies_def by (auto simp del: worker_loop.simps)
  have "list_all2 (\<lambda>results m. accepts results (the (encode_frame m))) sample_sends (greeting @ out)"
    unfolding sample_sends_def reg loop fst_conv snd_conv list_all2_map1 list_all2_same
    using ok by (blast intro: one_piece_accepts)
  moreover have "\<forall>m \<in> set [ack_message, quiesce_message]. sendable m"
    by (simp add: ack_message_def quiesce_message_def sendable_def default_Message_def)
  moreover have "atoll ''40'' = Some 40" by code_simp
  ultimately show ?thesis
    using worker_process_refines_loop [of "''40''" 40 3 "{0}" "''alpha''" ack_message "[quiesce_message]"
        "[the (encode_frame ack_message) @ the (encode_frame quiesce_message)]" greeting w code out w' sample_sends 4711 "[]"]
      reg loop code
    by (simp add: sample_greeting_def sample_replies_def del: worker_loop.simps)
qed

end
