(* ===== verification/PF_Coordinator_Exit.thy ===== *)
theory PF_Coordinator_Exit
  imports PF_Process
begin

text \<open>
  How the coordinator process ends. \<open>coordinator_main\<close> composes the command line, the listening
  socket, the registration and the command loop of \<^verbatim>\<open>src/coordinator/coordinator.cpp\<close>. The runtime
  methods throw in two situations only, and nothing in \<^verbatim>\<open>main\<close> catches; a call on a socket may wait
  for ever, and a send to a lost worker may raise \<^verbatim>\<open>SIGPIPE\<close>. The theory settles for every sequence
  of commands and every behaviour of the worker and the controller how the process ends. Writing to
  the standard output is taken to succeed.
\<close>

section \<open>The process\<close>

text \<open>
  \<^verbatim>\<open>!worker->receive(hello) || !worker->receive(reg) || reg.type != MessageType::kRegister\<close>, with \<open>None\<close>
  for a condition that is true and \<open>Inl\<close> for a receive that does not return.
\<close>

definition accepted_registration :: "recv_io \<Rightarrow> recv_io \<Rightarrow> process_end + Message option" where
  "accepted_registration hello reg =
     (case hello of Lost \<Rightarrow> Inr None
      | Silent \<Rightarrow> Inl Blocked
      | Got _ \<Rightarrow> (case reg of Lost \<Rightarrow> Inr None
                 | Silent \<Rightarrow> Inl Blocked
                 | Got reg \<Rightarrow> if m_type reg \<noteq> MessageType.kRegister then Inr None else Inr (Some reg)))"

primrec stopped :: "co_stop \<Rightarrow> process_end" where
  "stopped (Uncaught err) = Terminated"
| "stopped Waits = Blocked"
| "stopped KilledBySignal = Signalled"

text \<open>
  \<open>ws\<close> and \<open>cs\<close> are the results of the two \<^verbatim>\<open>accept\<close> calls (\<open>None\<close>: it never returns), \<open>ack\<close> is what
  becomes of the send of the registration reply, \<open>files\<close> are the contents of the files.
\<close>

definition coordinator_main ::
  "string list \<Rightarrow> (string \<Rightarrow> byte list option) \<Rightarrow> (string \<Rightarrow> u64) \<Rightarrow> listen_calls \<Rightarrow> int option \<Rightarrow>
   recv_io \<Rightarrow> recv_io \<Rightarrow> send_io \<Rightarrow> int option \<Rightarrow> (Message \<times> worker_io) list \<Rightarrow> controller_end \<Rightarrow>
   process_end \<times> co_event list" where
  "coordinator_main args files hash os ws hello reg ack cs cmds final =
     (case coordinator_args args \<lparr>opt_port = 0, opt_recover = [], opt_save = []\<rparr> of
        None \<Rightarrow> (Undefined, [])
      | Some opts \<Rightarrow>
          let recover = (if opt_recover opts \<noteq> [] then Some (files (opt_recover opts)) else None);
              (listener, opened) = listen_loopback (opt_port opts) os {}
          in if l_sock listener = -1 then (Exited 1, [])
             else case ws of None \<Rightarrow> (Blocked, [])
             | Some ws \<Rightarrow>
             if ws = -1 then (Exited 1, [])
             else case accepted_registration hello reg of
               Inl e \<Rightarrow> (e, [])
             | Inr None \<Rightarrow> (Exited 1, [])
             | Inr (Some reg) \<Rightarrow>
                 let (evs, co) = coordinator_start hash recover (opt_save opts \<noteq> []) reg
                 in case after_send ack co (\<lambda>_. (Inr (), [], co)) of
                      (Inl stop, _, _) \<Rightarrow> (stopped stop, evs)
                    | (Inr _, _, _) \<Rightarrow>
                        (case cs of None \<Rightarrow> (Blocked, evs)
                         | Some cs \<Rightarrow>
                             if cs = -1 then (Exited 1, evs)
                             else case command_loop final cmds co of
                                    (Inl stop, evs', co) \<Rightarrow> (stopped stop, evs @ evs')
                                  | (Inr _, evs', co) \<Rightarrow> (Exited 0, evs @ evs')))"

text \<open>
  How a command ends the process, if it does, told without the runtime: from the messages and the
  socket calls alone, and from whether BEGIN has been handled.
\<close>

primrec send_end :: "send_io \<Rightarrow> process_end option" where
  "send_end Sent = None"
| "send_end NotSent = None"
| "send_end SendWaits = Some Blocked"
| "send_end SigPipe = Some Signalled"

definition segment_end :: "bool \<Rightarrow> worker_io \<Rightarrow> process_end option" where
  "segment_end started io =
     (if io_sent io \<noteq> Sent then send_end (io_sent io)
      else if io_first io = Lost then None
      else if Silent \<in> {io_first io, io_second io} then Some Blocked
      else if io_second io = Lost \<or> started then None
      else Some Terminated)"

definition preemption_end :: "bool \<Rightarrow> worker_io \<Rightarrow> process_end option" where
  "preemption_end started io =
     (if \<not> started then Some Terminated
      else if io_sent io \<noteq> Sent then send_end (io_sent io)
      else if io_first io = Silent then Some Blocked
      else None)"

definition register_end :: "worker_io \<Rightarrow> process_end option" where
  "register_end io =
     (case io_accepted io of
        NobodyConnects \<Rightarrow> Some Blocked
      | NotConnected \<Rightarrow> None
      | Connected \<Rightarrow>
          if io_first io = Lost then None
          else if Silent \<in> {io_first io, io_second io} then Some Blocked
          else case io_second io of
                 Got nr \<Rightarrow> if m_type nr = MessageType.kRegister then send_end (io_sent io) else None
               | _ \<Rightarrow> None)"

definition command_end :: "bool \<Rightarrow> Message \<Rightarrow> worker_io \<Rightarrow> process_end option" where
  "command_end started cmd io =
     (case m_type cmd of
        MessageType.kShutdown \<Rightarrow> Some (Exited 0)
      | MessageType.kBeginExecution \<Rightarrow> send_end (io_sent io)
      | MessageType.kPublishProgress \<Rightarrow> segment_end started io
      | MessageType.kRequestPreemption \<Rightarrow> preemption_end started io
      | MessageType.kRegister \<Rightarrow> register_end io
      | _ \<Rightarrow> None)"

fun fate :: "bool \<Rightarrow> controller_end \<Rightarrow> (Message \<times> worker_io) list \<Rightarrow> process_end" where
  "fate started Closes [] = Exited 0"
| "fate started StaysIdle [] = Blocked"
| "fate started final ((cmd, io) # cmds) =
     (case command_end started cmd io of
        Some e \<Rightarrow> e
      | None \<Rightarrow> fate (started \<or> m_type cmd = MessageType.kBeginExecution) final cmds)"

section \<open>How a step ends\<close>

text \<open>The worker is connected, the machine is not DEFERRED, and the boundary is declared or not.\<close>

definition steady :: "bool \<Rightarrow> Coordinator \<Rightarrow> bool" where
  "steady declared co \<longleftrightarrow> co_worker_open co \<and> rt_machine (co_rt co) \<noteq> LifecycleState.kDeferred \<and>
     (map_of (rt_safe_points (co_rt co)) safe_point \<noteq> None) = declared"

text \<open>A step ends the process as told, or comes back in a steady state.\<close>

definition ends :: "bool \<Rightarrow> 'a co_outcome \<Rightarrow> process_end option \<Rightarrow> bool" where
  "ends declared outcome e \<longleftrightarrow>
     (case outcome of
        (Inl stop, _, _) \<Rightarrow> e = Some (stopped stop)
      | (Inr _, _, co) \<Rightarrow> e = None \<and> steady declared co)"

lemma ends_simps [simp]:
  "ends d (Inl stop, evs, co) e \<longleftrightarrow> e = Some (stopped stop)"
  "ends d (Inr x, evs, co) e \<longleftrightarrow> e = None \<and> steady d co"
  by (simp_all add: ends_def)

lemma ends_emit [simp]: "ends d (emit evs outcome) e \<longleftrightarrow> ends d outcome e"
proof (cases outcome)
  case (fields res evs' co)
  then show ?thesis by (cases res) (simp_all add: emit_eq)
qed

lemma ends_report [simp]: "ends d (report_ok line outcome) e \<longleftrightarrow> ends d outcome e"
proof (cases outcome)
  case (fields res evs co)
  then show ?thesis by (cases res) (simp_all add: report_ok_def)
qed

text \<open>The methods the drivers call.\<close>

fun driver_op :: "runtime_op \<Rightarrow> bool" where
  "driver_op (OpStart w wg e eg a ag worker boot) = False"
| "driver_op (OpDeclare sp) = False"
| "driver_op (OpRestoreBytes bs) = False"
| "driver_op (OpRestoreState s) = False"
| "driver_op op = True"

lemma driver_op_steady:
  assumes "steady d co" "driver_op op"
  shows "steady d (co\<lparr>co_rt := apply_op op (co_rt co)\<rparr>)"
  using assms
  by (cases op) (auto simp: steady_def apply_op_def rt_effect map_of_map_assign Let_def
      set_priority_generation_def set_worker_incarnation_def simp del: perform.simps(3-18) split: option.splits)

lemma ends_call:
  assumes "steady d co" "perform op (co_rt co) = apfst error_of outcome" "driver_op op" "fst (perform op (co_rt co)) = None"
    and "\<And>x co'. steady d co' \<Longrightarrow> ends d (k x co') e"
  shows "ends d (call_rt outcome co k) e"
proof (cases outcome)
  case (Pair res rt)
  then have rt: "rt = apply_op op (co_rt co)" and "error_of res = None" using assms(2,4) by (simp_all add: apply_op_def)
  then obtain x where "res = Inr x" by (cases res) (simp_all add: error_of_def)
  then show ?thesis using assms(5) driver_op_steady [OF assms(1,3)] Pair rt by (simp add: call_rt_def)
qed

lemma quiet_commit: "fst (perform OpCommit r) = None" "fst (perform OpConfirm r) = None"
  by (simp_all add: rt_effect del: perform.simps)

lemmas ends_calls =
  ends_call [OF _ perform.simps(5) _ never_throws(1)] ends_call [OF _ perform.simps(7) _ never_throws(2)]
  ends_call [OF _ perform.simps(8) _ never_throws(3)] ends_call [OF _ perform.simps(9) _ never_throws(4)]
  ends_call [OF _ perform.simps(10) _ never_throws(5)] ends_call [OF _ perform.simps(11) _ never_throws(6)]
  ends_call [OF _ perform.simps(12) _ quiet_commit(1)] ends_call [OF _ perform.simps(13) _ never_throws(7)]
  ends_call [OF _ perform.simps(14) _ never_throws(8)] ends_call [OF _ perform.simps(15) _ never_throws(9)]
  ends_call [OF _ perform.simps(16) _ quiet_commit(2)]

lemma ends_begin_quiesce:
  assumes "steady d co" "\<And>x co'. steady d co' \<Longrightarrow> ends d (k x co') e"
  shows "ends d (call_rt (begin_quiesce (co_rt co)) co k) e"
  using assms begin_quiesce_error [of "co_rt co"]
  by (intro ends_call [where op = OpBeginQuiesce]) (simp_all add: steady_def)

text \<open>Reaching the boundary throws exactly when it has not been declared.\<close>

lemma ends_reach:
  assumes "steady d co" "\<And>x co'. d \<Longrightarrow> steady d co' \<Longrightarrow> ends d (k x co') e"
  shows "ends d (call_rt (reach_safe_point safe_point pos cap (co_rt co)) co k) (if d then e else Some Terminated)"
proof (cases d)
  case True
  have "ends d (call_rt (reach_safe_point safe_point pos cap (co_rt co)) co k) e"
  proof (rule ends_call [where op = "OpReach safe_point pos cap"])
    show "fst (perform (OpReach safe_point pos cap) (co_rt co)) = None"
      using assms(1) True perform_error [of "OpReach safe_point pos cap" "co_rt co"]
      by (auto simp: steady_def simp del: perform.simps)
  qed (use assms True in simp_all)
  then show ?thesis using True by simp
next
  case False
  then show ?thesis using assms(1) by (simp add: steady_def call_rt_def reach_safe_point_def)
qed

section \<open>The drivers\<close>

lemma ends_commit: "steady d co \<Longrightarrow> ends d (drive_commit co) None"
  unfolding drive_commit_def by (intro ends_calls) (simp_all add: Let_def)

lemma ends_capture: "steady d co \<Longrightarrow> ends d (drive_capture co) None"
  unfolding drive_capture_def
  by (intro ends_calls) (auto intro: ends_calls ends_commit split: option.splits)

lemma ends_resume: "steady d co \<Longrightarrow> ends d (drive_resume co) None"
  unfolding drive_resume_def by (intro ends_calls) (simp_all add: Let_def)

lemma ends_replay: "steady d co \<Longrightarrow> ends d (replay_stale cmd co) None"
  unfolding replay_stale_def by (intro ends_calls) simp_all

lemma ends_quiesce_ack:
  assumes "steady True co"
  shows "ends True (after_send (io_sent io) co (\<lambda>sent. if \<not> sent then (Inr False, [WorkerLost], co) else
     after_recv (io_first io) co (\<lambda>received. case received of
       None \<Rightarrow> (Inr False, [WorkerLost], co) | Some qack \<Rightarrow> drive_capture co))) (preemption_end True io)"
  using assms ends_capture [OF assms]
  by (cases "io_sent io"; cases "io_first io") (simp_all add: preemption_end_def)

lemma preemption_end_unfold: "preemption_end d io = (if d then preemption_end True io else Some Terminated)"
  by (simp add: preemption_end_def)

lemma ends_preemption:
  assumes "steady d co"
  shows "ends d (drive_preemption io co) (preemption_end d io)"
proof -
  have "co_worker_open co" using assms by (simp add: steady_def)
  then have "ends d (drive_preemption io co) (if d then preemption_end True io else Some Terminated)"
    unfolding drive_preemption_def
    by (simp only: not_True_eq_False if_False)
      (intro ends_calls(1) ends_begin_quiesce ends_reach; simp add: assms ends_quiesce_ack)
  then show ?thesis by (simp only: preemption_end_unfold [of d])
qed

lemma published_steady:
  assumes "steady d co" "publish_progress pos kind (co_rt co) = (ok, rt)"
  shows "steady d (co\<lparr>co_rt := rt, co_last_progress := p\<rparr>)"
  using driver_op_steady [OF assms(1), of "OpPublish pos kind"] assms(2) by (simp add: steady_def apply_op_def)

lemma ends_segment:
  assumes "steady d co"
  shows "ends d (run_segment target io co) (segment_end d io)"
proof -
  have opened: "co_worker_open co" using assms by (simp add: steady_def)
  have "ends d (call_rt (reach_safe_point safe_point pos False (co_rt co)) co (\<lambda>_ co.
      let (ok, rt) = publish_progress (m_progress_position prog) (m_progress_kind prog) (co_rt co)
      in (Inr True, [], co\<lparr>co_rt := rt, co_last_progress := m_progress_position prog\<rparr>)))
     (if d then None else Some Terminated)" for pos prog
    using assms by (intro ends_reach) (auto intro!: published_steady split: prod.splits)
  then show ?thesis using assms opened
    by (cases d; cases "io_sent io"; cases "io_first io"; cases "io_second io") (simp_all add: run_segment_def segment_end_def)
qed

lemma ends_re_register:
  assumes "steady d co"
  shows "ends d (re_register io co) (register_end io)"
proof -
  have "steady d (co\<lparr>co_worker_id := i, co_boot := b, co_boot_counter := n, co_rt := set_worker_incarnation i b (co_rt co),
      co_worker_open := True\<rparr>)" for i b n
    using assms by (simp add: steady_def set_worker_incarnation_def)
  then show ?thesis using assms
    by (cases "io_accepted io"; cases "io_first io"; cases "io_second io"; cases "io_sent io")
      (simp_all add: re_register_def register_end_def Let_def)
qed

lemma ends_begin:
  assumes "steady d co"
  shows "ends True (begin_execution io co) (send_end (io_sent io))"
proof -
  have "steady True (begin_runtime co)"
    using assms
    by (simp add: begin_runtime_def steady_def Let_def declare_safe_point_def start_execution_def map_of_map_assign)
  then show ?thesis by (cases "io_sent io") (simp_all add: begin_execution_def Let_def)
qed

lemma ends_handle:
  assumes "steady d co" "m_type cmd \<noteq> MessageType.kShutdown"
  shows "ends (d \<or> m_type cmd = MessageType.kBeginExecution) (handle_command cmd io co) (command_end d cmd io)"
  using assms ends_begin [OF assms(1)] ends_segment [OF assms(1)] ends_preemption [OF assms(1)] ends_resume [OF assms(1)]
    ends_re_register [OF assms(1)] ends_replay [OF assms(1)]
  by (cases "m_type cmd") (simp_all add: handle_command_def command_end_def)

section \<open>The whole loop\<close>

primrec loop_end :: "co_stop + unit \<Rightarrow> process_end" where
  "loop_end (Inl stop) = stopped stop"
| "loop_end (Inr _) = Exited 0"

lemma loop_fate: "steady d co \<Longrightarrow> loop_end (fst (command_loop final cmds co)) = fate d final cmds"
proof (induction cmds arbitrary: d co)
  case Nil
  then show ?case by (cases final) simp_all
next
  case (Cons c cmds)
  obtain cmd io where c: "c = (cmd, io)" by (cases c)
  show ?case
  proof (cases "m_type cmd = MessageType.kShutdown")
    case False
    obtain res evs co1 where h: "handle_command cmd io co = (res, evs, co1)" by (metis prod_cases3)
    note step = ends_handle [OF Cons.prems False, of io, unfolded h]
    show ?thesis
    proof (cases res)
      case (Inl stop)
      then show ?thesis using step False c h by simp
    next
      case (Inr u)
      then have "loop_end (fst (command_loop final cmds co1)) = fate (d \<or> m_type cmd = MessageType.kBeginExecution) final cmds"
        using step Cons.IH by simp
      moreover have "fst (emit evs outcome) = fst outcome" for outcome :: "unit co_outcome" by (cases outcome) (simp add: emit_eq)
      ultimately show ?thesis using step False c h Inr by simp
    qed
  qed (simp add: c command_end_def)
qed

lemma fresh_steady: "steady False (snd (coordinator_start hash None save_given reg))"
  by (simp add: coordinator_start_def steady_def Let_def set_worker_incarnation_def preemption_runtime_def)

section \<open>When a coordinator dies of an exception\<close>

text \<open>Before the first BEGIN and the first SHUTDOWN: a preemption, or a segment that the worker answers.\<close>

definition crashes :: "(Message \<times> worker_io) list \<Rightarrow> bool" where
  "crashes cmds \<longleftrightarrow>
     list_ex (\<lambda>(cmd, io). m_type cmd = MessageType.kRequestPreemption \<or>
         m_type cmd = MessageType.kPublishProgress \<and> io_sent io = Sent \<and> is_Got (io_first io) \<and> is_Got (io_second io))
       (takeWhile (\<lambda>(cmd, io). m_type cmd \<notin> {MessageType.kBeginExecution, MessageType.kShutdown}) cmds)"

definition calls_return :: "worker_io \<Rightarrow> bool" where
  "calls_return io \<longleftrightarrow> io_sent io \<in> {Sent, NotSent} \<and> io_first io \<noteq> Silent \<and> io_second io \<noteq> Silent \<and>
     io_accepted io \<noteq> NobodyConnects"

lemmas end_defs = command_end_def segment_end_def preemption_end_def register_end_def

lemma send_not_terminated [simp]: "send_end x \<noteq> Some Terminated"
  by (cases x) simp_all

lemma started_not_terminated: "command_end True cmd io \<noteq> Some Terminated"
  by (auto simp: end_defs split: MessageType.split accept_io.split recv_io.split)

lemma fate_started: "fate True final cmds \<noteq> Terminated"
  by (induction "True" final cmds rule: fate.induct) (auto simp: started_not_terminated split: option.split)

lemma fate_terminated: "fate False final cmds = Terminated \<Longrightarrow> crashes cmds"
proof (induction cmds)
  case Nil
  then show ?case by (cases final) simp_all
next
  case (Cons c cmds)
  obtain cmd io where c: "c = (cmd, io)" by (cases c)
  show ?case
    using Cons fate_started [of final cmds]
    by (cases "m_type cmd"; cases "io_first io"; cases "io_second io")
      (auto simp: c crashes_def end_defs split: option.splits if_splits accept_io.splits)
qed

lemma returning_end:
  assumes "calls_return io" "m_type cmd \<noteq> MessageType.kShutdown"
  shows "command_end d cmd io = (if \<not> d \<and> crashes [(cmd, io)] then Some Terminated else None)"
proof -
  have "send_end (io_sent io) = None" using assms(1) by (auto simp: calls_return_def)
  then show ?thesis using assms
    by (cases "m_type cmd"; cases "io_first io"; cases "io_second io")
      (simp_all add: end_defs calls_return_def crashes_def split: accept_io.split)
qed

lemma fate_started_returns: "\<forall>(cmd, io) \<in> set cmds. calls_return io \<Longrightarrow> fate True Closes cmds = Exited 0"
proof (induction cmds)
  case (Cons c cmds)
  obtain cmd io where c: "c = (cmd, io)" by (cases c)
  show ?case
    using Cons c returning_end [of io cmd True] by (cases "m_type cmd = MessageType.kShutdown") (auto simp: command_end_def)
qed simp

lemma fate_returns:
  "\<forall>(cmd, io) \<in> set cmds. calls_return io \<Longrightarrow> fate False Closes cmds = (if crashes cmds then Terminated else Exited 0)"
proof (induction cmds)
  case Nil
  show ?case by (simp add: crashes_def)
next
  case (Cons c cmds)
  obtain cmd io where c: "c = (cmd, io)" by (cases c)
  have rest: "\<forall>(cmd, io) \<in> set cmds. calls_return io" and io: "calls_return io" using Cons.prems c by auto
  show ?case
  proof (cases "m_type cmd = MessageType.kShutdown")
    case True
    then show ?thesis by (simp add: c command_end_def crashes_def)
  next
    case False
    note step = returning_end [OF io False, of False]
    show ?thesis
    proof (cases "m_type cmd = MessageType.kBeginExecution")
      case True
      then show ?thesis using step fate_started_returns [OF rest] by (simp add: c crashes_def)
    next
      case began: False
      then have "crashes (c # cmds) \<longleftrightarrow> crashes [(cmd, io)] \<or> crashes cmds" using False by (simp add: c crashes_def)
      then show ?thesis using step began Cons.IH [OF rest] by (simp add: c)
    qed
  qed
qed

section \<open>Properties\<close>

text \<open>
  C15: how a coordinator that does not recover an image ends, for every sequence of commands and
  whatever the worker and the controller do. Once its sockets are open, a worker has registered and
  the reply to it has been handed over, its end is \<open>fate\<close>, which looks at no runtime state: it is
  killed by the signal at a send to a worker that is gone, waits for ever at a send, a receive or
  an accept that does not return, dies of an uncaught exception, or exits with 0 at SHUTDOWN or when
  the controller closes. The exception needs a preemption, or a segment that the worker answers,
  before the first BEGIN and the first SHUTDOWN; after BEGIN no command and no reply can cause it.
  When every call returns and the controller closes, that condition is exact, and the coordinator
  exits with 0 otherwise.
\<close>
theorem coordinator_exit:
  fixes files :: "string \<Rightarrow> byte list option" and hash :: "string \<Rightarrow> u64" and hello :: Message
    and cmds :: "(Message \<times> worker_io) list" and final :: controller_end
  assumes "coordinator_args args \<lparr>opt_port = 0, opt_recover = [], opt_save = []\<rparr> = Some opts" "opt_recover opts = []"
    and "l_sock (fst (listen_loopback (opt_port opts) os {})) \<noteq> -1" "ws \<noteq> -1" "cs \<noteq> -1"
    and "m_type reg = MessageType.kRegister" "ack \<in> {Sent, NotSent}"
  defines "result \<equiv> fst (coordinator_main args files hash os (Some ws) (Got hello) (Got reg) ack (Some cs) cmds final)"
  shows "result = fate False final cmds \<and> (result = Terminated \<longrightarrow> crashes cmds) \<and>
     (final = Closes \<and> (\<forall>(cmd, io) \<in> set cmds. calls_return io) \<longrightarrow> result = (if crashes cmds then Terminated else Exited 0))"
proof -
  obtain evs co where start: "coordinator_start hash None (opt_save opts \<noteq> []) reg = (evs, co)"
    by (cases "coordinator_start hash None (opt_save opts \<noteq> []) reg")
  then have "steady False co" using fresh_steady [of hash "opt_save opts \<noteq> []" reg] by simp
  note loop = loop_fate [OF this, of final cmds]
  obtain res evs' co' where run: "command_loop final cmds co = (res, evs', co')" by (metis prod_cases3)
  have returned: "after_send ack co (\<lambda>_. x) = x" for x :: "unit co_outcome" using assms(7) by auto
  have "accepted_registration (Got hello) (Got reg) = Inr (Some reg)" using assms(6) by (simp add: accepted_registration_def)
  then have "result = loop_end res"
    using assms(1-5) start run
    by (cases res) (simp_all add: result_def returned coordinator_main_def case_prod_unfold Let_def)
  then have fate: "result = fate False final cmds" using loop run by simp
  have "fate False final cmds = (if crashes cmds then Terminated else Exited 0)"
    if "final = Closes \<and> (\<forall>(cmd, io) \<in> set cmds. calls_return io)" using that fate_returns by simp
  then show ?thesis unfolding fate using fate_terminated by blast
qed

definition mute :: worker_io where
  "mute = \<lparr>io_sent = Sent, io_first = Silent, io_second = Silent, io_accepted = NobodyConnects\<rparr>"

theorem coordinator_exit_witness:
  "fst (coordinator_main [''--port'', ''4711''] (\<lambda>_. None) (\<lambda>_. 7)
     \<lparr>lc_socket = 3, lc_setsockopt = 0, lc_bind = 0, lc_listen = 0, lc_getsockname = None\<rparr> (Some 4)
     (Got (command MessageType.kHello)) (Got (command MessageType.kRegister)) Sent (Some 5)
     [(command MessageType.kBeginExecution, answering), (command MessageType.kRequestPreemption, answering)] Closes) = Exited 0 \<and>
   fst (coordinator_main [''--port'', ''4711''] (\<lambda>_. None) (\<lambda>_. 7)
     \<lparr>lc_socket = 3, lc_setsockopt = 0, lc_bind = 0, lc_listen = 0, lc_getsockname = None\<rparr> (Some 4)
     (Got (command MessageType.kHello)) (Got (command MessageType.kRegister)) Sent (Some 5)
     [(command MessageType.kBeginExecution, answering), (command MessageType.kRequestPreemption, mute)] Closes) = Blocked"
proof -
  have port: "parse_port ''4711'' = Some 4711" by code_simp
  have "fst (coordinator_main [''--port'', ''4711''] (\<lambda>_. None) (\<lambda>_. 7)
     \<lparr>lc_socket = 3, lc_setsockopt = 0, lc_bind = 0, lc_listen = 0, lc_getsockname = None\<rparr> (Some 4)
     (Got (command MessageType.kHello)) (Got (command MessageType.kRegister)) Sent (Some 5) cmds Closes) = fate False Closes cmds" for cmds
    using port coordinator_exit [where args = "[''--port'', ''4711'']"
      and opts = "\<lparr>opt_port = 4711, opt_recover = [], opt_save = []\<rparr>"
      and os = "\<lparr>lc_socket = 3, lc_setsockopt = 0, lc_bind = 0, lc_listen = 0, lc_getsockname = None\<rparr>"
      and ws = 4 and cs = 5 and reg = "command MessageType.kRegister" and ack = Sent and files = "\<lambda>_. None"
      and hash = "\<lambda>_. 7" and hello = "command MessageType.kHello" and cmds = cmds and final = Closes]
    by (simp add: listen_loopback_result command_def)
  then show ?thesis by (simp add: end_defs command_def answering_def mute_def)
qed

end
