(* ===== verification/PF_Session.thy ===== *)
theory PF_Session
  imports PF_Coordinator_Exit
begin

text \<open>
  The two reference processes together. Each message that one of them sends goes through the
  frame encoder of the sender and the streaming decoder of the receiver; the worker's answers are
  those its command loop computes from the command it received. The theory composes the
  registration (\<^verbatim>\<open>worker.cpp\<close> lines 38 to 57 with \<^verbatim>\<open>coordinator.cpp\<close> lines 50 to 69) and the command
  loops, and shows the reference scenario end to end.
\<close>

section \<open>The wire\<close>

text \<open>One message through \<^verbatim>\<open>TcpConnection::send\<close> and \<^verbatim>\<open>TcpConnection::receive\<close> on drained connections.\<close>

definition transmit :: "Message \<Rightarrow> Message option" where
  "transmit m = (case encode_frame m of None \<Rightarrow> None | Some f \<Rightarrow> fst (pop (feed f frame_decoder)))"

lemma transmit_sendable [simp]: "sendable m \<Longrightarrow> transmit m = Some m"
  using pop_frame [of m "[]"] encode_frame_eq [of m] sendable_body(1) [of m]
  by (simp add: transmit_def feed_def frame_decoder_def)

text \<open>A frame that cannot be built ends the sender, so the receiver sees the connection close.\<close>

definition delivery :: "Message option \<Rightarrow> recv_io" where
  "delivery m = (case m of None \<Rightarrow> Lost | Some m \<Rightarrow> Got m)"

lemma delivery_simps [simp]: "delivery None = Lost" "delivery (Some m) = Got m"
  by (simp_all add: delivery_def)

section \<open>The processes together\<close>

definition session_start ::
  "(string \<Rightarrow> u64) \<Rightarrow> byte list option option \<Rightarrow> bool \<Rightarrow> WorkerId \<Rightarrow> string \<Rightarrow> (Coordinator \<times> Worker) option" where
  "session_start hash recover save_given i label =
     (let (out, w) = worker_register (worker_start i label)
      in case accepted_registration (delivery (transmit (out ! 0))) (delivery (transmit (out ! 1))) of
           Inr (Some reg) \<Rightarrow>
             (case coordinator_start hash recover save_given reg of
                (SentToWorker reg_ack # _, co) \<Rightarrow>
                  (case transmit reg_ack of None \<Rightarrow> None | Some ack \<Rightarrow> Some (co, worker_registered ack w))
              | _ \<Rightarrow> None)
         | _ \<Rightarrow> None)"

text \<open>What the coordinator sends to the worker while it handles a command.\<close>

definition asked :: "Message \<Rightarrow> Coordinator \<Rightarrow> Message option" where
  "asked cmd co =
     (case m_type cmd of
        MessageType.kBeginExecution \<Rightarrow> Some (begin_message (begin_runtime co))
      | MessageType.kPublishProgress \<Rightarrow> Some (segment_command (m_progress_position cmd) co)
      | MessageType.kRequestPreemption \<Rightarrow> Some (quiesce_command co)
      | _ \<Rightarrow> None)"

text \<open>
  The messages the coordinator then receives. Where the worker has sent fewer than are asked for,
  the coordinator waits, unless the worker has exited and with it the connection has closed. There
  is one worker, so nobody connects when the coordinator accepts another.
\<close>

definition nth_reply :: "nat \<Rightarrow> int option \<Rightarrow> Message list \<Rightarrow> recv_io" where
  "nth_reply k code out =
     (if k < length out then delivery (transmit (out ! k)) else if code = None then Silent else Lost)"

definition answers :: "Message \<Rightarrow> Worker \<Rightarrow> worker_io \<times> Worker" where
  "answers m w =
     (case transmit m of
        None \<Rightarrow> (\<lparr>io_sent = NotSent, io_first = Lost, io_second = Lost, io_accepted = NobodyConnects\<rparr>, w)
      | Some cmd \<Rightarrow>
          (let (code, out, w) = worker_handle cmd w
           in (\<lparr>io_sent = Sent, io_first = nth_reply 0 code out, io_second = nth_reply 1 code out,
                io_accepted = NobodyConnects\<rparr>, w)))"

definition exchange :: "Message \<Rightarrow> Coordinator \<Rightarrow> Worker \<Rightarrow> worker_io \<times> Worker" where
  "exchange cmd co w =
     (case asked cmd co of
        None \<Rightarrow> (\<lparr>io_sent = Sent, io_first = Silent, io_second = Silent, io_accepted = NobodyConnects\<rparr>, w)
      | Some m \<Rightarrow> answers m w)"

fun session :: "Message list \<Rightarrow> Coordinator \<Rightarrow> Worker \<Rightarrow> unit co_outcome \<times> Worker" where
  "session [] co w = (command_loop Closes [] co, w)"
| "session (cmd # cmds) co w =
     (if m_type cmd = MessageType.kShutdown then (command_loop Closes [] co, w)
      else let (io, w) = exchange cmd co w
           in case handle_command cmd io co of
                (Inl stop, evs, co) \<Rightarrow> ((Inl stop, evs, co), w)
              | (Inr _, evs, co) \<Rightarrow> apfst (emit evs) (session cmds co w))"

text \<open>Every session is a run of the coordinator's own loop, with the inputs the worker computes.\<close>

lemma session_command_loop:
  "\<exists>ios w'. length ios = length cmds \<and> session cmds co w = (command_loop Closes (zip cmds ios) co, w')"
proof (induction cmds arbitrary: co w)
  case (Cons cmd cmds)
  obtain io w1 where io: "exchange cmd co w = (io, w1)" by (cases "exchange cmd co w")
  obtain res evs co1 where h: "handle_command cmd io co = (res, evs, co1)" by (metis prod_cases3)
  obtain ios w' where rest: "length ios = length cmds" "session cmds co1 w1 = (command_loop Closes (zip cmds ios) co1, w')"
    using Cons by blast
  show ?case using io h rest by (intro exI [of _ "io # ios"]) (cases res; simp)
qed simp

section \<open>What a segment does\<close>

text \<open>The two processes agree, the attempt may publish, and the durable position is the last target.\<close>

definition linked :: "Coordinator \<Rightarrow> Worker \<Rightarrow> bool" where
  "linked co w \<longleftrightarrow> drivable co \<and> wk_boot w = co_boot co \<and> wk_epoch w = co_epoch \<and>
     is_attempt_authoritative (co_rt co) \<and> ad_attempt_boot (rt_adapters (co_rt co)) = rt_worker_boot (co_rt co) \<and>
     rt_durable_position (co_rt co) = co_last_progress co"

lemma segment_exchange:
  assumes "m_type cmd = MessageType.kPublishProgress"
  shows "\<exists>prog reach w'. exchange cmd co w =
     (\<lparr>io_sent = Sent, io_first = Got prog, io_second = Got reach, io_accepted = NobodyConnects\<rparr>, w') \<and>
     m_progress_position prog = m_progress_position cmd \<and> m_progress_kind prog = ProgressKind.kDurable \<and>
     wk_boot w' = wk_boot w \<and> wk_epoch w' = wk_epoch w"
proof -
  have "sendable (segment_command (m_progress_position cmd) co)"
    by (simp add: sendable_def segment_command_def default_Message_def)
  then show ?thesis using assms
    by (simp add: exchange_def asked_def answers_def worker_handle_def next_seq_def nth_reply_def Let_def
        segment_command_def sendable_def default_Message_def)
qed

lemma quiesce_exchange:
  assumes "m_type cmd = MessageType.kRequestPreemption"
  shows "\<exists>io w'. exchange cmd co w = (io, w') \<and> responsive io \<and> wk_boot w' = wk_boot w \<and> wk_epoch w' = wk_epoch w"
proof -
  have "sendable (quiesce_command co)" by (simp add: sendable_def quiesce_command_def default_Message_def)
  then show ?thesis using assms
    by (simp add: exchange_def asked_def answers_def worker_handle_def next_seq_def nth_reply_def Let_def
        responsive_def quiesce_command_def sendable_def default_Message_def)
qed

lemma begin_exchange:
  assumes "m_type cmd = MessageType.kBeginExecution"
  shows "\<exists>io. exchange cmd co w = (io, w) \<and> io_sent io = Sent"
  using assms
  by (simp add: exchange_def asked_def begin_message_def answers_def sendable_def default_Message_def worker_handle_def)

lemma segment_publishes:
  assumes "linked co w" "co_last_progress co \<le> pos"
    and "io = \<lparr>io_sent = Sent, io_first = Got prog, io_second = Got reach, io_accepted = NobodyConnects\<rparr>"
    and "m_progress_position prog = pos" "m_progress_kind prog = ProgressKind.kDurable"
    and "run_segment target io co = (Inr True, evs, co')"
  shows "rt_durable_position (co_rt co') = pos \<and> co_last_progress co' = pos \<and> co_boot co' = co_boot co \<and>
     rt_worker_boot (co_rt co') = rt_worker_boot (co_rt co)"
proof -
  obtain sp where sp: "map_of (rt_safe_points (co_rt co)) safe_point = Some sp"
    using assms(1) by (auto simp: linked_def drivable_def)
  define r where "r = apply_op (OpReach safe_point (m_safe_point_position reach) False) (co_rt co)"
  have r: "rt_adapters r = rt_adapters (co_rt co)" "rt_durable_position r = rt_durable_position (co_rt co)"
    "rt_execution_id r = rt_execution_id (co_rt co)" "rt_attempt_id r = rt_attempt_id (co_rt co)"
    "rt_worker_boot r = rt_worker_boot (co_rt co)"
    using sp by (simp_all add: r_def apply_op_def rt_effect Let_def del: perform.simps)
  have pub: "rt_durable_position (snd (publish_progress pos ProgressKind.kDurable r)) = pos"
    "rt_worker_boot (snd (publish_progress pos ProgressKind.kDurable r)) = rt_worker_boot r"
    using assms(1,2) r
    by (auto simp: linked_def publish_progress_def is_attempt_authoritative_def ad_current_attempt_authority_def Let_def)
  have "co' = co\<lparr>co_rt := snd (publish_progress pos ProgressKind.kDurable r), co_last_progress := pos\<rparr>"
    using assms(3-6) assms(1) sp
    by (simp add: run_segment_def linked_def drivable_def reach_call emit_def case_prod_unfold flip: r_def)
  then show ?thesis using pub r(5) by simp
qed

lemma session_segment:
  assumes "linked co w" "m_type cmd = MessageType.kPublishProgress" "co_last_progress co \<le> m_progress_position cmd"
  shows "\<exists>evs co' w'. session (cmd # cmds) co w = apfst (emit evs) (session cmds co' w') \<and> linked co' w' \<and>
     co_last_progress co' = m_progress_position cmd \<and> rt_adapters (co_rt co') = rt_adapters (co_rt co)"
proof -
  obtain prog reach w' io where ex: "exchange cmd co w = (io, w')"
    "io = \<lparr>io_sent = Sent, io_first = Got prog, io_second = Got reach, io_accepted = NobodyConnects\<rparr>"
    "m_progress_position prog = m_progress_position cmd" "m_progress_kind prog = ProgressKind.kDurable"
    "wk_boot w' = wk_boot w" "wk_epoch w' = wk_epoch w"
    using segment_exchange [OF assms(2)] by metis
  have honest: "honest_segment io" by (simp add: honest_segment_def ex(2))
  have driv: "drivable co" using assms(1) by (simp add: linked_def)
  obtain evs co' where run: "run_segment (m_progress_position cmd) io co = (Inr True, evs, co')" "drivable co'"
    "rt_adapters (co_rt co') = rt_adapters (co_rt co)" "rt_execution_id (co_rt co') = rt_execution_id (co_rt co)"
    "rt_attempt_id (co_rt co') = rt_attempt_id (co_rt co)"
    using run_segment_completes [OF driv honest] by blast
  note pub = segment_publishes [OF assms(1,3) ex(2,3,4) run(1)]
  have "linked co' w'"
    using assms(1) run(2-5) pub ex(5,6)
    by (simp add: linked_def is_attempt_authoritative_def ad_current_attempt_authority_def)
  moreover have "session (cmd # cmds) co w = apfst (emit (evs @ [Segment (m_progress_position cmd)])) (session cmds co' w')"
    using ex(1) run(1) assms(2) by (simp add: handle_command_def report_ok_def)
  ultimately show ?thesis using pub run(3) by blast
qed

lemma session_segments:
  assumes "linked co w" "\<forall>cmd \<in> set segs. m_type cmd = MessageType.kPublishProgress"
    and "sorted (co_last_progress co # map m_progress_position segs)"
  shows "\<exists>evs co' w'. session (segs @ cmds) co w = apfst (emit evs) (session cmds co' w') \<and> linked co' w' \<and>
     co_last_progress co' = last (co_last_progress co # map m_progress_position segs) \<and>
     rt_adapters (co_rt co') = rt_adapters (co_rt co)"
  using assms
proof (induction segs arbitrary: co w)
  case Nil
  have "session cmds co w = apfst (emit []) (session cmds co w)"
    by (cases "session cmds co w") (simp add: emit_Nil)
  then show ?case using Nil(1) by (metis append_Nil last.simps list.map_disc_iff)
next
  case (Cons cmd segs)
  have le: "co_last_progress co \<le> m_progress_position cmd" using Cons.prems(3) by simp
  have ty: "m_type cmd = MessageType.kPublishProgress" using Cons.prems(2) by simp
  obtain evs1 co1 w1 where one: "session (cmd # segs @ cmds) co w = apfst (emit evs1) (session (segs @ cmds) co1 w1)"
    "linked co1 w1" "co_last_progress co1 = m_progress_position cmd" "rt_adapters (co_rt co1) = rt_adapters (co_rt co)"
    using session_segment [OF Cons.prems(1) ty le, of "segs @ cmds"] by blast
  have "sorted (co_last_progress co1 # map m_progress_position segs)" using Cons.prems(3) one(3) by simp
  then obtain evs2 co2 w2 where rest: "session (segs @ cmds) co1 w1 = apfst (emit evs2) (session cmds co2 w2)" "linked co2 w2"
    "co_last_progress co2 = last (co_last_progress co1 # map m_progress_position segs)"
    "rt_adapters (co_rt co2) = rt_adapters (co_rt co1)"
    using Cons.IH [OF one(2)] Cons.prems(2) by auto
  have "session ((cmd # segs) @ cmds) co w = apfst (emit (evs1 @ evs2)) (session cmds co2 w2)"
    using one(1) rest(1) by (cases "session cmds co2 w2") (simp add: emit_emit)
  then show ?case using rest(2-4) one(3,4) by (intro exI [of _ "evs1 @ evs2"] exI [of _ co2] exI [of _ w2]) simp
qed

section \<open>Preempting and resuming\<close>

lemma at_boundary_durable: "rt_durable_position (at_boundary co) = rt_durable_position (co_rt co)"
proof -
  have "rt_durable_position (apply_op op r) = rt_durable_position r"
    if "op \<in> {OpRequest (drive_request co), OpBeginQuiesce, OpReach safe_point (co_last_progress co) True}" for op r
    using that by (auto simp: apply_op_def rt_effect Let_def simp del: perform.simps split: option.splits)
  then show ?thesis by (simp add: at_boundary_def run_ops_def)
qed

lemma session_preempt_resume:
  assumes "linked co w" "m_type preempt = MessageType.kRequestPreemption" "m_type resume = MessageType.kRequestResume"
    and "\<not> dependency_blocked (ad_resume_dep (rt_adapters (co_rt co)))"
  shows "\<exists>evs co' w'. session [preempt, resume] co w = ((Inr (), evs, co'), w') \<and>
     DrivePreemption True \<in> set evs \<and> DriveResume True \<in> set evs \<and>
     rt_machine (co_rt co') = LifecycleState.kResumed \<and> is_attempt_authoritative (co_rt co') \<and>
     rt_durable_position (co_rt co') = co_last_progress co \<and> wk_boot w' = co_boot co'"
proof -
  let ?b = "at_boundary co" and ?p = "preempted_runtime (drive_report co) (at_boundary co)"
  have driv: "drivable co" using assms(1) by (simp add: linked_def)
  obtain io w' where ex: "exchange preempt co w = (io, w')" "responsive io" "wk_boot w' = wk_boot w"
    using quiesce_exchange [OF assms(2)] by blast
  note ready = at_boundary_ready [OF driv]
  note facts = preempted_runtime_facts [OF ready(1,2,3)]
  obtain evs where pre: "drive_preemption io co = (Inr True, evs, co\<lparr>co_rt := ?p\<rparr>)"
    using drive_preemption_completes [OF driv ex(2)] by (auto simp: preempted_runtime_def)
  have dep: "\<not> dependency_blocked (ad_resume_dep (rt_adapters ?p))" using assms(4) facts(4) ready(4) by simp
  have res: "drive_resume (co\<lparr>co_rt := ?p\<rparr>) = (Inr True, [ResumedLine True LifecycleState.kResumed],
      co\<lparr>co_rt := run_ops resume_calls ?p\<rparr>)"
    using drive_resume_completes [of "co\<lparr>co_rt := ?p\<rparr>"] facts(1,3) dep by simp
  have "rt_durable_position ?p = co_last_progress co"
    using facts(7) at_boundary_durable [of co] assms(1) by (simp add: linked_def)
  then have "rt_machine (run_ops resume_calls ?p) = LifecycleState.kResumed"
    "is_attempt_authoritative (run_ops resume_calls ?p)" "rt_durable_position (run_ops resume_calls ?p) = co_last_progress co"
    unfolding resume_completes [OF facts(1,3) dep]
    by (simp_all add: is_attempt_authoritative_def ad_current_attempt_authority_def ad_grant_fresh_attempt_authority_def Let_def)
  moreover have "exchange resume co1 w1 = (\<lparr>io_sent = Sent, io_first = Silent, io_second = Silent, io_accepted = NobodyConnects\<rparr>, w1)" for co1 w1
    using assms(3) by (simp add: exchange_def asked_def)
  ultimately show ?thesis
    using ex pre res assms(1-3) by (simp add: handle_command_def report_ok_def emit_eq linked_def)
qed

section \<open>The scenario\<close>

lemma session_start_links:
  fixes i :: WorkerId
  assumes "245 + length label \<le> 64 * 1024"
  defines "reg \<equiv> default_Message\<lparr>m_type := MessageType.kRegister, m_seq := 1, m_worker_id := i, m_detail := label\<rparr>"
  shows "\<exists>w. session_start hash None save_given i label = Some (fresh_coordinator hash save_given reg, w) \<and>
     wk_boot w = co_boot (fresh_coordinator hash save_given reg) \<and> wk_epoch w = co_epoch"
  using assms(1)
  by (simp add: reg_def session_start_def worker_register_def worker_start_def next_seq_def accepted_registration_def sendable_def
      default_Message_def Let_def coordinator_start_def fresh_coordinator_def worker_registered_def)

lemma started_linked:
  assumes "wk_boot w = co_boot (fresh_coordinator hash save_given reg)" "wk_epoch w = co_epoch"
  shows "linked (started_coordinator hash save_given reg) w" "co_last_progress (started_coordinator hash save_given reg) = 0"
proof -
  have "is_attempt_authoritative (co_rt (started_coordinator hash save_given reg))"
    "ad_attempt_boot (rt_adapters (co_rt (started_coordinator hash save_given reg)))
      = rt_worker_boot (co_rt (started_coordinator hash save_given reg))"
    by (simp_all add: start_defs Let_def is_attempt_authoritative_def ad_current_attempt_authority_def ad_set_authoritative_def)
  then show "linked (started_coordinator hash save_given reg) w"
    using started_drivable [of hash save_given reg] assms by (simp add: linked_def) (simp add: start_defs Let_def)
  show "co_last_progress (started_coordinator hash save_given reg) = 0" by (simp add: start_defs Let_def)
qed

lemma session_begin:
  assumes "m_type cmd = MessageType.kBeginExecution"
  shows "\<exists>evs. session (cmd # cmds) (fresh_coordinator hash save_given reg) w
     = apfst (emit evs) (session cmds (started_coordinator hash save_given reg) w)"
proof -
  obtain io where io: "exchange cmd (fresh_coordinator hash save_given reg) w = (io, w)" "io_sent io \<in> {Sent, NotSent}"
    using begin_exchange [OF assms] by blast
  moreover obtain evs where
    "begin_execution io (fresh_coordinator hash save_given reg) = (Inr (), evs, started_coordinator hash save_given reg)"
    using begin_execution_returns [OF io(2)] by (auto simp: started_coordinator_def)
  ultimately show ?thesis using assms by (auto simp: handle_command_def)
qed

text \<open>
  C6: the two processes together over the wire. A worker registers with a coordinator that has no
  stored image, and a controller tells the coordinator to begin, to run segments with any
  non-decreasing targets, to preempt and to resume. Every message passes through the frame
  encoder and the streaming decoder, and the worker answers as its own loop does. Then both the
  preemption and the resume succeed, the execution ends in RESUMED and authoritative, its durable
  progress is the target of the last segment, and both processes agree on the boot id.
\<close>
theorem processes_preempt_and_resume:
  assumes "245 + length label \<le> 64 * 1024" "m_type begin_cmd = MessageType.kBeginExecution"
    and "\<forall>cmd \<in> set segs. m_type cmd = MessageType.kPublishProgress" "sorted (map m_progress_position segs)"
    and "m_type preempt = MessageType.kRequestPreemption" "m_type resume = MessageType.kRequestResume"
  shows "\<exists>co w evs co' w'. session_start hash None save_given i label = Some (co, w) \<and>
     session (begin_cmd # segs @ [preempt, resume]) co w = ((Inr (), evs, co'), w') \<and>
     DrivePreemption True \<in> set evs \<and> DriveResume True \<in> set evs \<and>
     rt_machine (co_rt co') = LifecycleState.kResumed \<and> is_attempt_authoritative (co_rt co') \<and>
     rt_durable_position (co_rt co') = last (0 # map m_progress_position segs) \<and> wk_boot w' = co_boot co'"
proof -
  obtain reg w where start: "session_start hash None save_given i label = Some (fresh_coordinator hash save_given reg, w)"
    "wk_boot w = co_boot (fresh_coordinator hash save_given reg)" "wk_epoch w = co_epoch"
    using session_start_links [OF assms(1)] by blast
  let ?s = "started_coordinator hash save_given reg"
  note linked = started_linked [OF start(2,3)]
  obtain evs0 where first: "session (begin_cmd # segs @ [preempt, resume]) (fresh_coordinator hash save_given reg) w
      = apfst (emit evs0) (session (segs @ [preempt, resume]) ?s w)"
    using session_begin [OF assms(2)] by blast
  have sorted: "sorted (co_last_progress ?s # map m_progress_position segs)" using assms(4) linked(2) by simp
  obtain evs1 co1 w1 where segs: "session (segs @ [preempt, resume]) ?s w = apfst (emit evs1) (session [preempt, resume] co1 w1)"
    "linked co1 w1" "co_last_progress co1 = last (0 # map m_progress_position segs)"
    "rt_adapters (co_rt co1) = rt_adapters (co_rt ?s)"
    using session_segments [OF linked(1) assms(3) sorted] linked(2) by metis
  have "\<not> dependency_blocked (ad_resume_dep (rt_adapters (co_rt co1)))"
    using coordinator_adapters_fields(7) by (simp add: segs(4) started_adapters ad_set_authoritative_def)
  from session_preempt_resume [OF segs(2) assms(5,6) this] show ?thesis
    using start(1) first segs(1,3) by (auto simp: emit_eq)
qed

definition segment :: "u64 \<Rightarrow> Message" where
  "segment pos = (command MessageType.kPublishProgress)\<lparr>m_progress_position := pos\<rparr>"

theorem processes_preempt_and_resume_witness:
  "\<exists>co w evs co' w'. session_start (\<lambda>_. 7) None False (IdV 40) ''alpha'' = Some (co, w) \<and>
     session (command MessageType.kBeginExecution # [segment 100, segment 250]
       @ [command MessageType.kRequestPreemption, command MessageType.kRequestResume]) co w = ((Inr (), evs, co'), w') \<and>
     DrivePreemption True \<in> set evs \<and> DriveResume True \<in> set evs \<and>
     rt_machine (co_rt co') = LifecycleState.kResumed \<and> is_attempt_authoritative (co_rt co') \<and>
     rt_durable_position (co_rt co') = 250 \<and> wk_boot w' = co_boot co'"
proof -
  have last: "last (0 # map m_progress_position [segment 100, segment 250]) = 250" by (simp add: segment_def)
  show ?thesis
    using processes_preempt_and_resume [of "''alpha''" "command MessageType.kBeginExecution" "[segment 100, segment 250]"
        "command MessageType.kRequestPreemption" "command MessageType.kRequestResume" "\<lambda>_. 7" False "IdV 40", unfolded last]
    by (rule meta_mp) (simp_all add: segment_def command_def del: session.simps)
qed

end
