(* ===== verification/PF_Queries.thy ===== *)
theory PF_Queries
  imports PF_Runtime
begin

text \<open>
  The query methods of \<^verbatim>\<open>PreemptionRuntime\<close> (\<^verbatim>\<open>runtime.hpp\<close>, \<^verbatim>\<open>src/runtime.cpp\<close>) that return a field or
  a view of one; those with logic of their own are in \<open>PF_Runtime\<close>.
\<close>

definition lifecycle :: "PreemptionRuntime \<Rightarrow> LifecycleState" where
  "lifecycle r = rt_machine r"

definition durable_progress :: "PreemptionRuntime \<Rightarrow> u64" where
  "durable_progress r = rt_durable_position r"

definition current_position :: "PreemptionRuntime \<Rightarrow> u64" where
  "current_position r = rt_current_position r"

definition authoritative_request_generation :: "PreemptionRuntime \<Rightarrow> PreemptionRequestGeneration" where
  "authoritative_request_generation r = rt_authoritative_request_generation r"

definition safe_point_count :: "PreemptionRuntime \<Rightarrow> nat" where
  "safe_point_count r = length (rt_safe_points r)"

definition current_safe_point :: "PreemptionRuntime \<Rightarrow> SafePoint option" where
  "current_safe_point r = rt_current_safe_point r"

definition current_priority_generation :: "PreemptionRuntime \<Rightarrow> PriorityGeneration" where
  "current_priority_generation r = rt_priority_generation r"

definition runtime_preempted_durable :: "PreemptionRuntime \<Rightarrow> bool" where
  "runtime_preempted_durable r = is_preempted_durable (rt_machine r)"

definition current_epoch :: "PreemptionRuntime \<Rightarrow> CoordinatorEpoch" where
  "current_epoch r = rt_epoch r"

definition worker_boot :: "PreemptionRuntime \<Rightarrow> WorkerBootId" where
  "worker_boot r = rt_worker_boot r"

definition execution_generation :: "PreemptionRuntime \<Rightarrow> ExecutionGeneration" where
  "execution_generation r = rt_execution_generation r"

definition attempt_generation :: "PreemptionRuntime \<Rightarrow> AttemptGeneration" where
  "attempt_generation r = rt_attempt_generation r"

definition runtime_adapters :: "PreemptionRuntime \<Rightarrow> ReferenceAdapters" where
  "runtime_adapters r = rt_adapters r"

end
