(* ===== verification/PF_Programs.thy ===== *)
theory PF_Programs
  imports PF_Runtime_Persist PF_Queries
begin

text \<open>
  The programs that drive the runtime in one process: the inspection tool
  (\<^verbatim>\<open>src/tools/inspect.cpp\<close>), the two examples and the downstream consumer. A program is a sequence of
  calls of the runtime, in which an exception skips the rest; what it prints is a list of lines.
\<close>

section \<open>Sequences of calls\<close>

definition then_call :: "'a rt_outcome \<Rightarrow> ('a \<Rightarrow> PreemptionRuntime \<Rightarrow> 'b rt_outcome) \<Rightarrow> 'b rt_outcome" where
  "then_call outcome k = (case outcome of (Inl err, r) \<Rightarrow> (Inl err, r) | (Inr x, r) \<Rightarrow> k x r)"

text \<open>
  \<^verbatim>\<open>*ad.last_capture()\<close>: dereferencing an empty optional is undefined behaviour, which the model
  keeps apart as an error of its own.
\<close>

definition report_last_capture :: "PreemptionRuntime \<Rightarrow> PreemptionResult rt_outcome" where
  "report_last_capture r =
     (case ad_last_capture (rt_adapters r) of
        None \<Rightarrow> (Inl \<lparr>err_code = ''undefined'', err_message = ''empty optional dereferenced''\<rparr>, r)
      | Some c \<Rightarrow> report_state_captured c r)"

text \<open>\<^verbatim>\<open>if (ad.last_capture()) rt.report_state_captured(*ad.last_capture());\<close>\<close>

definition report_capture_if_any :: "PreemptionRuntime \<Rightarrow> unit rt_outcome" where
  "report_capture_if_any r =
     (case ad_last_capture (rt_adapters r) of
        None \<Rightarrow> (Inr (), r)
      | Some c \<Rightarrow> then_call (report_state_captured c r) (\<lambda>_ r. (Inr (), r)))"

section \<open>The inspection tool\<close>

subsection \<open>The report\<close>

definition u64_to_string :: "u64 \<Rightarrow> string" where
  "u64_to_string v = nat_to_string (unat v)"

definition yes_no :: "bool \<Rightarrow> string" where
  "yes_no b = (if b then ''yes'' else ''no'')"

definition dump :: "PreemptionRuntime \<Rightarrow> string \<Rightarrow> string list" where
  "dump r kind =
     [''=== Preemption Fabric inspection ('' @ kind @ '') ==='',
      ''lifecycle: '' @ LifecycleState_to_string (lifecycle r),
      ''preemptibility: '' @ PreemptibilityClass_to_string (current_preemptibility r),
      ''durable progress: '' @ u64_to_string (durable_progress r),
      ''current position: '' @ u64_to_string (current_position r),
      ''attempt authoritative: '' @ yes_no (is_attempt_authoritative r),
      ''authoritative request generation: '' @ u64_to_string (gen_value (authoritative_request_generation r)),
      (case current_safe_point r of
         Some sp \<Rightarrow> ''current safe point: id='' @ u64_to_string (id_value (sp_id sp)) @ '' gen=''
                    @ u64_to_string (gen_value (sp_generation sp)) @ '' pos='' @ u64_to_string (sp_progress_position sp)
                    @ '' capture='' @ yes_no (sp_state_capture_required sp)
       | None \<Rightarrow> ''current safe point: (none)''),
      ''safe points declared: '' @ nat_to_string (safe_point_count r),
      ''--- state evidence ---'']
     @ map (\<lambda>e. ''  '' @ ex_message e @ '': '' @ ex_detail e) (explain_state r)
     @ [''--- why not preemptible ---'']
     @ map (\<lambda>e. ''  '' @ ex_message e @ '' ('' @ EvidenceKind_to_string (ex_provenance e) @ ''): '' @ ex_detail e)
         (explain_why_not_preemptible r)
     @ [''--- resume blockers ---'']
     @ map (\<lambda>e. ''  '' @ ex_message e @ '': '' @ ex_detail e) (explain_resume_blockers r)"

subsection \<open>The program\<close>

text \<open>The loop over the arguments: the mode and the state file; the last option wins.\<close>

fun inspect_args :: "string list \<Rightarrow> string \<times> string \<Rightarrow> string \<times> string" where
  "inspect_args [] (mode, file) = (mode, file)"
| "inspect_args [a] (mode, file) = (if a = ''--scenario'' then ''scenario'' else mode, file)"
| "inspect_args (a # b # rest) (mode, file) =
     (if a = ''--state'' then inspect_args rest (''inspect'', b)
      else if a = ''--scenario'' then inspect_args (b # rest) (''scenario'', file)
      else inspect_args (b # rest) (mode, file))"

definition reference_setup :: "u64 \<Rightarrow> ReferenceAdapters" where
  "reference_setup units =
     (let ad = foldl (\<lambda>ad c. ad_set_quiesced c True ad) default_ReferenceAdapters ad_categories;
          ad = ad_set_contract (IdV 20) (GenV 1) [\<lparr>lease_resource = ResourceClass.kDeviceMemory, lease_units = units\<rparr>] ad
      in ad_set_resume_dependency
           \<lparr>dv_status = DependencyStatus.kCurrent, dv_generation = GenV 1,
            dv_revalidation_required = False, dv_recompute_required = False\<rparr> ad)"

text \<open>The execution every program starts, and the boundary and request they share.\<close>

definition start_reference :: "PreemptionRuntime \<Rightarrow> PreemptionRuntime" where
  "start_reference r =
     start_execution (IdV 10) (GenV 1) (IdV 20) (GenV 1) (IdV 30) (GenV 1) (IdV 40) (IdV 50) r"

definition reference_point :: "string \<Rightarrow> EvidenceKind \<Rightarrow> SafePoint" where
  "reference_point invariant provenance = default_SafePoint\<lparr>sp_id := IdV 80, sp_generation := GenV 1,
     sp_execution_id := IdV 20, sp_attempt_id := IdV 30, sp_worker_id := IdV 40, sp_worker_boot_id := IdV 50,
     sp_state_capture_required := True, sp_checkpoint_required := True, sp_invariant := invariant,
     sp_provenance := provenance\<rparr>"

definition reference_request :: "u64 \<Rightarrow> PreemptionRequest" where
  "reference_request i = default_PreemptionRequest\<lparr>req_id := IdV i, req_generation := GenV 1,
     req_execution_id := IdV 20, req_execution_generation := GenV 1, req_attempt_id := IdV 30,
     req_attempt_generation := GenV 1, req_coordinator_epoch := GenV 1, req_worker_id := IdV 40,
     req_worker_boot_id := IdV 50, req_policy_generation := GenV 1\<rparr>"

definition inspect_scenario :: "PreemptionRuntime \<Rightarrow> string list rt_outcome" where
  "inspect_scenario r =
     (let r = start_reference r;
          r = snd (declare_safe_point (reference_point ''boundary after segment 3'' EvidenceKind.kReal) r);
          r = snd (publish_progress 100 ProgressKind.kDurable r);
          running = dump r ''running'';
          req = (reference_request 100)\<lparr>req_workload_id := IdV 10, req_workload_generation := GenV 1,
                  req_authority_generation := GenV 1\<rparr>
      in then_call (request_preemption req r) (\<lambda>_ r. (Inr (running @ dump r ''requested''), r)))"

definition inspect_main :: "string list \<Rightarrow> (string \<Rightarrow> byte list option) \<Rightarrow> PreemptionError + string list" where
  "inspect_main args files =
     (let (mode, state_file) = inspect_args args (''scenario'', []);
          r = preemption_runtime (GenV 1) (GenV 1) (reference_setup 100)
      in if mode = ''inspect''
         then let (ok, r) = load (files state_file) r
              in if ok then Inr (dump r ''persisted state'')
                 else Inr [''could not load state file '' @ state_file]
         else fst (inspect_scenario r))"

section \<open>The examples and the downstream consumer\<close>

definition full_report :: QuiescenceReport where
  "full_report = default_QuiescenceReport\<lparr>qr_generation := GenV 1, qr_worker_id := IdV 40,
     qr_worker_boot_id := IdV 50, qr_fully_quiesced := True\<rparr>"

definition outcome_line :: "string \<Rightarrow> PreemptionResult \<Rightarrow> PreemptionRuntime \<Rightarrow> string" where
  "outcome_line what res r =
     what @ '' outcome='' @ PreemptionOutcome_to_string (res_outcome res) @ '' lifecycle='' @ LifecycleState_to_string (lifecycle r)"

text \<open>From the request at position 100 to the commit at the boundary 500, as three programs do it.\<close>

definition preempt_at_500 :: "PreemptionRuntime \<Rightarrow> PreemptionResult rt_outcome" where
  "preempt_at_500 r =
     then_call (begin_quiesce r) (\<lambda>_ r.
     then_call (reach_safe_point (IdV 80) 500 True r) (\<lambda>_ r.
     then_call (begin_quiesce r) (\<lambda>_ r.
     then_call (report_quiesced full_report r) (\<lambda>_ r.
     then_call (request_state_capture r) (\<lambda>_ r.
     then_call (report_last_capture r) (\<lambda>_ r.
     then_call (request_release r) (\<lambda>_ r.
     then_call (report_released r) (\<lambda>_ r.
     commit_preempted r))))))))"

definition resume_sequence :: "PreemptionRuntime \<Rightarrow> PreemptionResult rt_outcome" where
  "resume_sequence r =
     then_call (request_resume r) (\<lambda>_ r.
     then_call (revalidate r) (\<lambda>_ r.
     then_call (restore r) (\<lambda>_ r.
     confirm_resumed r)))"

definition basic_preemption :: "string list rt_outcome" where
  "basic_preemption =
     (let r = start_reference (preemption_runtime (GenV 1) (GenV 1) (reference_setup 100));
          r = snd (declare_safe_point (reference_point ''boundary after segment 3'' EvidenceKind.kUnknown) r);
          r = snd (publish_progress 100 ProgressKind.kDurable r)
      in then_call (request_preemption ((reference_request 100)\<lparr>req_reason := PreemptionReason.kCapacityPressure\<rparr>) r) (\<lambda>_ r.
         then_call (preempt_at_500 r) (\<lambda>cp r.
           let line1 = outcome_line ''preempted'' cp r;
               (published, r) = publish_progress 900 ProgressKind.kDurable r;
               line2 = ''outcome publish_progress while fenced='' @ nat_to_string (if published then 1 else 0)
           in then_call (resume_sequence r) (\<lambda>rm r.
              let line3 = outcome_line ''resumed'' rm r;
                  r = snd (publish_progress 600 ProgressKind.kDurable r)
              in (Inr [line1, line2, line3, ''durable progress after resume='' @ u64_to_string (durable_progress r)], r)))))"

definition downstream_consumer :: "(int \<times> string list) rt_outcome" where
  "downstream_consumer =
     (let r = start_reference (preemption_runtime (GenV 1) (GenV 1) (reference_setup 100));
          r = snd (declare_safe_point (reference_point [] EvidenceKind.kUnknown) r);
          r = snd (publish_progress 100 ProgressKind.kDurable r)
      in then_call (request_preemption (reference_request 1) r) (\<lambda>adm r.
         then_call (preempt_at_500 r) (\<lambda>cp r.
           (Inr (if res_outcome cp = PreemptionOutcome.kSafePreemptionCompleted then 0 else 1,
             [''downstream consumer: request=''
              @ (if adm_code adm = RequestAdmissionCode.kAccepted then ''accepted'' else ''rejected'')
              @ '' preempted='' @ PreemptionOutcome_to_string (res_outcome cp)
              @ '' lifecycle='' @ LifecycleState_to_string (lifecycle r)
              @ '' durable='' @ u64_to_string (durable_progress r)]), r))))"

definition forced_termination :: "string list rt_outcome" where
  "forced_termination =
     (let ad = foldl (\<lambda>ad c. ad_set_quiesced c False ad) default_ReferenceAdapters ad_categories;
          ad = ad_set_contract (IdV 20) (GenV 1) [\<lparr>lease_resource = ResourceClass.kDeviceMemory, lease_units = 100\<rparr>] ad;
          r = start_reference (preemption_runtime (GenV 1) (GenV 1) ad);
          r = snd (declare_safe_point (reference_point [] EvidenceKind.kUnknown) r);
          r = snd (publish_progress 100 ProgressKind.kDurable r)
      in then_call (request_preemption (reference_request 1) r) (\<lambda>_ r.
         then_call (begin_quiesce r) (\<lambda>_ r.
         then_call (reach_safe_point (IdV 80) 500 True r) (\<lambda>_ r.
         then_call (begin_quiesce r) (\<lambda>_ r.
         then_call (report_quiesced (full_report\<lparr>qr_fully_quiesced := False\<rparr>) r) (\<lambda>qr r.
         then_call (commit_preempted r) (\<lambda>cp r.
           (Inr [''forced termination: quiesce outcome='' @ PreemptionOutcome_to_string (res_outcome qr)
                 @ '', PREEMPTED outcome='' @ PreemptionOutcome_to_string (res_outcome cp)
                 @ '', lifecycle='' @ LifecycleState_to_string (lifecycle r),
                 ''safe preemption claimed? ''
                 @ (if lifecycle r = LifecycleState.kPreempted then ''YES (BUG)'' else ''no (correct)'')], r))))))))"

section \<open>Programs stay within the reachable runtimes\<close>

lemma reachable_then:
  assumes "reachable (snd outcome)" "\<And>x r. reachable r \<Longrightarrow> reachable (snd (k x r))"
  shows "reachable (snd (then_call outcome k))"
proof (cases outcome)
  case (Pair res r)
  then show ?thesis using assms by (cases res) (simp_all add: then_call_def)
qed

lemma reachable_call:
  assumes "reachable r"
  shows "reachable (snd (request_preemption req r))" "reachable (snd (begin_quiesce r))"
    "reachable (snd (reach_safe_point i pos cap r))" "reachable (snd (report_quiesced rep r))"
    "reachable (snd (request_state_capture r))" "reachable (snd (report_state_captured c r))"
    "reachable (snd (request_release r))" "reachable (snd (report_released r))" "reachable (snd (commit_preempted r))"
    "reachable (snd (declare_safe_point sp r))" "reachable (snd (publish_progress pos kind r))"
    "reachable (start_execution w wg e eg a ag worker boot r)"
  using reachable.op [OF assms, of "OpRequest req"] reachable.op [OF assms, of OpBeginQuiesce]
    reachable.op [OF assms, of "OpReach i pos cap"] reachable.op [OF assms, of "OpReportQuiesced rep"]
    reachable.op [OF assms, of OpRequestCapture] reachable.op [OF assms, of "OpReportCaptured c"]
    reachable.op [OF assms, of OpRequestRelease] reachable.op [OF assms, of OpReportReleased]
    reachable.op [OF assms, of OpCommit] reachable.op [OF assms, of "OpDeclare sp"]
    reachable.op [OF assms, of "OpPublish pos kind"] reachable.op [OF assms, of "OpStart w wg e eg a ag worker boot"]
  by (simp_all add: apply_op_def)

lemma reachable_capture_if_any: "reachable r \<Longrightarrow> reachable (snd (report_capture_if_any r))"
  by (auto simp: report_capture_if_any_def intro!: reachable_then reachable_call split: option.splits)

lemma then_call_Inr: "fst outcome = Inr x \<Longrightarrow> then_call outcome k = k x (snd outcome)"
  by (cases outcome) (simp add: then_call_def)

section \<open>Properties\<close>

text \<open>
  The examples and the downstream consumer do what they say: the basic example is preempted
  safely, refuses the fenced publication, resumes and continues from the preserved boundary; the
  program whose work never quiesces does not claim a safe preemption; the consumer of the
  installed package exits with 0. None of them throws or dereferences a missing capture.
\<close>
theorem reference_programs_print:
  "fst basic_preemption =
     Inr [''preempted outcome=SAFE_PREEMPTION_COMPLETED lifecycle=PREEMPTED'', ''outcome publish_progress while fenced=0'',
       ''resumed outcome=SAFE_PREEMPTION_COMPLETED lifecycle=RESUMED'', ''durable progress after resume=600''] \<and>
   fst forced_termination =
     Inr [''forced termination: quiesce outcome=CANNOT_PREEMPT_SAFELY, PREEMPTED outcome=CANNOT_PREEMPT_SAFELY, lifecycle=QUIESCING'',
       ''safe preemption claimed? no (correct)''] \<and>
   fst downstream_consumer =
     Inr (0, [''downstream consumer: request=accepted preempted=SAFE_PREEMPTION_COMPLETED lifecycle=PREEMPTED durable=100''])"
proof (intro conjI)
  show "fst basic_preemption =
     Inr [''preempted outcome=SAFE_PREEMPTION_COMPLETED lifecycle=PREEMPTED'', ''outcome publish_progress while fenced=0'',
       ''resumed outcome=SAFE_PREEMPTION_COMPLETED lifecycle=RESUMED'', ''durable progress after resume=600'']"
    by code_simp
  show "fst forced_termination =
     Inr [''forced termination: quiesce outcome=CANNOT_PREEMPT_SAFELY, PREEMPTED outcome=CANNOT_PREEMPT_SAFELY, lifecycle=QUIESCING'',
       ''safe preemption claimed? no (correct)'']"
    by code_simp
  show "fst downstream_consumer =
     Inr (0, [''downstream consumer: request=accepted preempted=SAFE_PREEMPTION_COMPLETED lifecycle=PREEMPTED durable=100''])"
    by code_simp
qed

lemma dump_lines:
  "dump r kind ! 1 = ''lifecycle: '' @ LifecycleState_to_string (rt_machine r)"
  "dump r kind ! 3 = ''durable progress: '' @ u64_to_string (rt_durable_position r)"
  "dump r kind ! 5 = ''attempt authoritative: '' @ yes_no (is_attempt_authoritative r)"
  by (simp_all add: dump_def lifecycle_def durable_progress_def)

lemma inspect_file:
  "inspect_main [''--state'', f] files =
     (case load (files f) (preemption_runtime (GenV 1) (GenV 1) (reference_setup 100)) of
        (ok, r) \<Rightarrow> Inr (if ok then dump r ''persisted state'' else [''could not load state file '' @ f]))"
  by (simp add: inspect_main_def Let_def split: prod.splits)

text \<open>
  C38: the inspection tool reports a stored runtime as it was: given the file that any reachable,
  loadable runtime saved, it prints the lifecycle state and the durable progress of that runtime
  (and calls the attempt authoritative, which a restart makes it); a file that cannot be read is
  reported as such.
\<close>
theorem inspect_reports_saved:
  assumes "reachable r" "loadable r" "stored_size r < 2 ^ 32 + 16" "files f = Some (persist_bytes r)" "files g = None"
  shows "(\<exists>out. inspect_main [''--state'', f] files = Inr out \<and>
       out ! 1 = ''lifecycle: '' @ LifecycleState_to_string (rt_machine r) \<and>
       out ! 3 = ''durable progress: '' @ u64_to_string (rt_durable_position r) \<and>
       out ! 5 = ''attempt authoritative: '' @ yes_no True) \<and>
     inspect_main [''--state'', g] files = Inr [''could not load state file '' @ g]"
proof -
  define q where "q = restore_state (snapshot r) (preemption_runtime (GenV 1) (GenV 1) (reference_setup 100))"
  have "ps_durable_progress (snapshot r) = rt_durable_position r" by (simp add: snapshot_def)
  then have q: "rt_machine q = rt_machine r" "rt_durable_position q = rt_durable_position r" "is_attempt_authoritative q"
    by (simp_all add: q_def restore_state_fields restore_state_authoritative)
  have "inspect_main [''--state'', f] files = Inr (dump q ''persisted state'')"
    using restore_persist_bytes [OF assms(3) reachable_inv [OF assms(1)]] assms(2,4)
    by (simp add: inspect_file load_def q_def)
  moreover have "inspect_main [''--state'', g] files = Inr [''could not load state file '' @ g]"
    using assms(5) by (simp add: inspect_file load_def)
  ultimately show ?thesis using dump_lines [of q "''persisted state''"] q by metis
qed

definition example_preempted :: PreemptionRuntime where
  "example_preempted = snd (then_call
     (request_preemption (reference_request 100) (snd (publish_progress 100 ProgressKind.kDurable
       (snd (declare_safe_point (reference_point [] EvidenceKind.kUnknown)
         (start_reference (preemption_runtime (GenV 1) (GenV 1) (reference_setup 100))))))))
     (\<lambda>_. preempt_at_500))"

lemma example_preempted_reachable: "reachable example_preempted"
proof -
  have "reachable (snd (report_last_capture r))" if "reachable r" for r
    using that by (auto simp: report_last_capture_def intro: reachable_call split: option.split)
  then show ?thesis
    unfolding example_preempted_def preempt_at_500_def start_reference_def
    by (intro reachable_then reachable_call reachable.fresh)
qed

lemma example_preempted_stored: "loadable example_preempted" "stored_size example_preempted < 2 ^ 32 + 16"
proof -
  show "loadable example_preempted" by code_simp
  have "map fst (rt_safe_points example_preempted) = [IdV 80]" "rt_history example_preempted = []" by code_simp+
  then have "length (rt_safe_points example_preempted) = 1" "length (rt_history example_preempted) = 0"
    by (metis length_map list.size(3) One_nat_def length_Cons, simp)
  then show "stored_size example_preempted < 2 ^ 32 + 16" by (simp add: stored_size_def)
qed

theorem inspect_reports_saved_witness:
  "(\<exists>out. inspect_main [''--state'', ''s''] (\<lambda>f. if f = ''s'' then Some (persist_bytes example_preempted) else None) = Inr out \<and>
      out ! 1 = ''lifecycle: PREEMPTED'') \<and>
   inspect_main [''--state'', ''t''] (\<lambda>f. if f = ''s'' then Some (persist_bytes example_preempted) else None)
     = Inr [''could not load state file '' @ ''t'']"
proof -
  have shown: "''lifecycle: '' @ LifecycleState_to_string (rt_machine example_preempted) = ''lifecycle: PREEMPTED''" by code_simp
  from inspect_reports_saved [OF example_preempted_reachable example_preempted_stored, of "\<lambda>f. if f = ''s'' then Some (persist_bytes example_preempted) else None"
      "''s''" "''t''", unfolded shown] show ?thesis by auto
qed

end
