(* ===== verification/PF_Cuda.thy ===== *)
theory PF_Cuda
  imports PF_Programs
begin

text \<open>
  The CUDA proof program (\<^verbatim>\<open>cuda/cuda_proof.cu\<close>). The first part is the device: the kernel, the
  launches with their threads in any order, the reference computation and the parity check,
  over an arbitrary arithmetic, since single-precision floating point is not available in the
  logic. The second part is the host side: every scenario is a sequence of calls of the
  runtime, and what the device contributes to it (allocations, parity, returned memory) is a
  record. \<open>cuda_program\<close> joins the two.
\<close>

section \<open>The device\<close>

text \<open>
  Multiplication on the device and on the host, the constant \<^verbatim>\<open>1.0f\<close>, and the comparison
  \<^verbatim>\<open>!(std::fabs(a - b) > kTol)\<close>.
\<close>

record 'f arithmetic =
  ar_device_mul :: "'f \<Rightarrow> 'f \<Rightarrow> 'f"
  ar_host_mul :: "'f \<Rightarrow> 'f \<Rightarrow> 'f"
  ar_one :: 'f
  ar_close :: "'f \<Rightarrow> 'f \<Rightarrow> bool"

definition kN :: nat where
  "kN = 10000"

text \<open>
  One thread of the kernel; \<open>i\<close> is \<^verbatim>\<open>blockIdx.x * blockDim.x + threadIdx.x\<close>. The list is the allocation,
  and an access outside of it is \<open>None\<close>.
\<close>

definition scale_kernel :: "'f arithmetic \<Rightarrow> nat \<Rightarrow> 'f \<Rightarrow> nat \<Rightarrow> 'f list \<Rightarrow> 'f list option" where
  "scale_kernel ar n factor i state =
     (if i < n
      then if i < length state then Some (state[i := ar_device_mul ar (state ! i) factor]) else None
      else Some state)"

definition launch_threads :: nat where
  "launch_threads = (kN + 255) div 256 * 256"

text \<open>A launch runs every thread of the grid once, in an order the device chooses.\<close>

definition launch_order :: "nat list \<Rightarrow> bool" where
  "launch_order order \<longleftrightarrow> distinct order \<and> set order = {0..<launch_threads}"

definition device_segment :: "'f arithmetic \<Rightarrow> nat list \<Rightarrow> 'f \<Rightarrow> 'f list \<Rightarrow> 'f list option" where
  "device_segment ar order factor state =
     foldl (\<lambda>state i. Option.bind state (scale_kernel ar kN factor i)) (Some state) order"

definition cpu_reference :: "'f arithmetic \<Rightarrow> 'f list \<Rightarrow> 'f list \<Rightarrow> 'f list" where
  "cpu_reference ar input factors =
     (let prod = foldl (ar_host_mul ar) (ar_one ar) factors in map (\<lambda>x. ar_host_mul ar x prod) input)"

definition check_parity :: "'f arithmetic \<Rightarrow> 'f list \<Rightarrow> 'f list \<Rightarrow> bool" where
  "check_parity ar expected host = list_all (\<lambda>i. ar_close ar (host ! i) (expected ! i)) [0..<kN]"

text \<open>
  Scenario A: two segments, the memory is freed, the boundary is recomputed on the host and
  copied to a new allocation, and the remaining segments run.
\<close>

definition recompute :: "'f arithmetic \<Rightarrow> 'f list \<Rightarrow> 'f list \<Rightarrow> 'f list" where
  "recompute ar factors input = foldl (\<lambda>v f. map (\<lambda>x. ar_host_mul ar x f) v) input factors"

definition segments :: "'f arithmetic \<Rightarrow> (nat \<Rightarrow> nat list) \<Rightarrow> 'f list \<Rightarrow> nat list \<Rightarrow> 'f list \<Rightarrow> 'f list option" where
  "segments ar orders factors js state =
     foldl (\<lambda>state j. Option.bind state (device_segment ar (orders j) (factors ! j))) (Some state) js"

definition device_a :: "'f arithmetic \<Rightarrow> (nat \<Rightarrow> nat list) \<Rightarrow> 'f list \<Rightarrow> 'f list \<Rightarrow> 'f list option" where
  "device_a ar orders factors input = segments ar orders factors [2..<length factors] (recompute ar (take 2 factors) input)"

text \<open>Scenario B: the state after two segments is copied back, and later copied to a new allocation.\<close>

definition device_b :: "'f arithmetic \<Rightarrow> (nat \<Rightarrow> nat list) \<Rightarrow> 'f list \<Rightarrow> 'f list \<Rightarrow> 'f list option" where
  "device_b ar orders factors input =
     Option.bind (segments ar orders factors [0, 1] input) (\<lambda>captured. device_segment ar (orders 2) (factors ! 2) captured)"

section \<open>The CUDA scenarios, host side\<close>

record cuda_device =
  cu_alloc :: "nat \<Rightarrow> bool"
  cu_parity_a :: bool
  cu_baseline :: bool
  cu_parity_b :: bool

definition failure_if :: "bool \<Rightarrow> nat" where
  "failure_if b = (if b then 1 else 0)"

abbreviation kN_bytes :: u64 where
  "kN_bytes \<equiv> 10000 * 4"

definition make_req :: PreemptionRequest where
  "make_req = (reference_request 100)\<lparr>req_workload_id := IdV 10, req_workload_generation := GenV 1,
     req_reason := PreemptionReason.kCapacityPressure, req_authority_generation := GenV 1\<rparr>"

definition declare_boundary :: "PreemptionRuntime \<Rightarrow> PreemptionRuntime" where
  "declare_boundary r = snd (declare_safe_point
     (reference_point ''runtime safe point between real kernel segments'' EvidenceKind.kReal) r)"

definition cuda_runtime :: "ReferenceAdapters \<Rightarrow> PreemptionRuntime" where
  "cuda_runtime ad = declare_boundary (start_reference (preemption_runtime (GenV 1) (GenV 1) ad))"

text \<open>The tail that the scenarios share: quiescence, capture if any, release and commit.\<close>

definition quiesce_to_commit :: "PreemptionRuntime \<Rightarrow> PreemptionResult rt_outcome" where
  "quiesce_to_commit r =
     then_call (report_quiesced full_report r) (\<lambda>_ r.
     then_call (request_state_capture r) (\<lambda>_ r.
     then_call (report_capture_if_any r) (\<lambda>_ r.
     then_call (request_release r) (\<lambda>_ r.
     then_call (report_released r) (\<lambda>_ r.
     commit_preempted r)))))"

definition not_completed :: "PreemptionResult \<Rightarrow> nat" where
  "not_completed res = failure_if (res_outcome res \<noteq> PreemptionOutcome.kSafePreemptionCompleted)"

text \<open>A scenario gives its failures, or nothing when a failed allocation ends the program.\<close>

definition two_segments :: "bool \<Rightarrow> PreemptionRuntime \<Rightarrow> unit rt_outcome" where
  "two_segments first_capture r =
     then_call (reach_safe_point (IdV 80) 100 first_capture r) (\<lambda>_ r.
     let r = snd (publish_progress 100 ProgressKind.kDurable r) in
     then_call (reach_safe_point (IdV 80) 200 True r) (\<lambda>_ r.
     (Inr (), snd (publish_progress 200 ProgressKind.kDurable r))))"

definition scenario_a :: "cuda_device \<Rightarrow> nat option rt_outcome" where
  "scenario_a dev =
     (let r = cuda_runtime (reference_setup kN_bytes)
      in if \<not> cu_alloc dev 0 then (Inr None, r)
         else then_call (two_segments False r) (\<lambda>_ r.
              then_call (request_preemption make_req r) (\<lambda>_ r.
              then_call (begin_quiesce r) (\<lambda>_ r.
              then_call (quiesce_to_commit r) (\<lambda>cp r.
                if \<not> cu_alloc dev 1 then (Inr None, r)
                else then_call (resume_sequence r) (\<lambda>rm r.
                  (Inr (Some (not_completed cp + failure_if (\<not> cu_parity_a dev) + failure_if (\<not> cu_baseline dev))), r)))))))"

definition scenario_b :: "cuda_device \<Rightarrow> nat option rt_outcome" where
  "scenario_b dev =
     (let r = cuda_runtime (reference_setup kN_bytes)
      in if \<not> cu_alloc dev 2 then (Inr None, r)
         else then_call (two_segments True r) (\<lambda>_ r.
              then_call (request_preemption make_req r) (\<lambda>_ r.
              then_call (begin_quiesce r) (\<lambda>_ r.
              then_call (quiesce_to_commit r) (\<lambda>_ r.
                if \<not> cu_alloc dev 3 then (Inr None, r)
                else then_call (resume_sequence r) (\<lambda>_ r.
                  (Inr (Some (failure_if (\<not> cu_parity_b dev))), r)))))))"

definition scenario_d :: "cuda_device \<Rightarrow> nat option rt_outcome" where
  "scenario_d dev =
     (let r = cuda_runtime (reference_setup kN_bytes)
      in if \<not> cu_alloc dev 4 then (Inr None, r)
         else then_call (request_preemption make_req r) (\<lambda>_ r.
              then_call (begin_quiesce r) (\<lambda>bq r.
              then_call (reach_safe_point (IdV 80) 100 False r) (\<lambda>_ r.
              then_call (begin_quiesce r) (\<lambda>_ r.
              then_call (report_quiesced full_report r) (\<lambda>_ r.
              then_call (request_state_capture r) (\<lambda>_ r.
              then_call (request_release r) (\<lambda>_ r.
              then_call (report_released r) (\<lambda>_ r.
              then_call (commit_preempted r) (\<lambda>cp r.
                (Inr (Some (failure_if (res_outcome bq \<noteq> PreemptionOutcome.kDeferToSafePoint) + not_completed cp)), r)))))))))))"

definition scenario_e :: "cuda_device \<Rightarrow> nat option rt_outcome" where
  "scenario_e dev =
     (let r = cuda_runtime (reference_setup kN_bytes)
      in if \<not> cu_alloc dev 5 then (Inr None, r)
         else let r = snd (publish_progress 100 ProgressKind.kDurable r) in
              then_call (request_preemption make_req r) (\<lambda>_ r.
              then_call (begin_quiesce r) (\<lambda>_ r.
              then_call (reach_safe_point (IdV 80) 100 False r) (\<lambda>_ r.
              then_call (begin_quiesce r) (\<lambda>_ r.
              then_call (quiesce_to_commit r) (\<lambda>cp r.
                let (old_authoritative, r) = publish_progress 900 ProgressKind.kDurable r in
                then_call (resume_sequence r) (\<lambda>rm r.
                  let resumed = (res_outcome rm = PreemptionOutcome.kSafePreemptionCompleted)
                  in (Inr (Some (failure_if (old_authoritative \<or> \<not> resumed))), r))))))))"

definition worker_loss :: "ReferenceAdapters \<Rightarrow> nat rt_outcome" where
  "worker_loss ad =
     (let r = cuda_runtime ad;
          r = snd (publish_progress 100 ProgressKind.kDurable r);
          r = set_worker_incarnation (IdV 40) (IdV 0) r
      in then_call (request_preemption make_req r) (\<lambda>_ r.
         then_call (begin_quiesce r) (\<lambda>_ r.
         then_call (report_quiesced full_report r) (\<lambda>_ r.
         then_call (commit_preempted r) (\<lambda>cp r.
           (Inr (failure_if (res_outcome cp = PreemptionOutcome.kSafePreemptionCompleted)), r))))))"

definition durable_preemption :: "ReferenceAdapters \<Rightarrow> PreemptionResult rt_outcome" where
  "durable_preemption ad =
     (let r = cuda_runtime ad;
          r = snd (publish_progress 100 ProgressKind.kDurable r)
      in then_call (request_preemption make_req r) (\<lambda>_ r.
         then_call (begin_quiesce r) (\<lambda>_ r.
         then_call (reach_safe_point (IdV 80) 200 True r) (\<lambda>_ r.
         then_call (begin_quiesce r) (\<lambda>_ r.
         quiesce_to_commit r)))))"

definition restart_and_resume :: "byte list \<Rightarrow> ReferenceAdapters \<Rightarrow> nat rt_outcome" where
  "restart_and_resume bytes ad =
     (let (recovered, r) = restore_bytes bytes (preemption_runtime (GenV 2) (GenV 1) ad);
          r = set_worker_incarnation (IdV 40) (IdV 600) r
      in then_call (resume_sequence r) (\<lambda>rm r.
           (Inr (failure_if (\<not> recovered \<or> res_outcome rm \<noteq> PreemptionOutcome.kSafePreemptionCompleted)), r)))"

definition scenario_fg :: "nat rt_outcome" where
  "scenario_fg =
     then_call (worker_loss (reference_setup kN_bytes)) (\<lambda>lost r.
     then_call (durable_preemption (rt_adapters r)) (\<lambda>_ r2.
     then_call (restart_and_resume (persist_bytes r2) (rt_adapters r2)) (\<lambda>restarted r3.
       (Inr (lost + restarted), r3))))"

definition cuda_main :: "cuda_device \<Rightarrow> PreemptionError + int" where
  "cuda_main dev =
     fst (then_call (scenario_a dev) (\<lambda>a r. case a of None \<Rightarrow> (Inr 1, r) | Some fa \<Rightarrow>
          then_call (scenario_b dev) (\<lambda>b r. case b of None \<Rightarrow> (Inr 1, r) | Some fb \<Rightarrow>
          then_call (scenario_d dev) (\<lambda>d r. case d of None \<Rightarrow> (Inr 1, r) | Some fd \<Rightarrow>
          then_call (scenario_e dev) (\<lambda>e r. case e of None \<Rightarrow> (Inr 1, r) | Some fe \<Rightarrow>
          then_call scenario_fg (\<lambda>fg r.
            (Inr (if fa + fb + fd + fe + fg = 0 then 0 else 1), r)))))))"

text \<open>
  The whole program: the parities are those of the device computations. \<open>None\<close> stands for a kernel that
  leaves its allocation, whose effect is not defined.
\<close>

definition cuda_program ::
  "'f arithmetic \<Rightarrow> 'f list \<Rightarrow> 'f list \<Rightarrow> 'f list \<Rightarrow> (nat \<Rightarrow> nat list) \<Rightarrow> (nat \<Rightarrow> nat list) \<Rightarrow> (nat \<Rightarrow> bool) \<Rightarrow> bool \<Rightarrow>
   (PreemptionError + int) option" where
  "cuda_program ar input factors_a factors_b orders_a orders_b alloc baseline =
     (case (device_a ar orders_a factors_a input, device_b ar orders_b factors_b input) of
        (Some state_a, Some state_b) \<Rightarrow>
          Some (cuda_main \<lparr>cu_alloc = alloc, cu_parity_a = check_parity ar (cpu_reference ar input factors_a) state_a,
            cu_baseline = baseline, cu_parity_b = check_parity ar (cpu_reference ar input factors_b) state_b\<rparr>)
      | _ \<Rightarrow> None)"

section \<open>The runtimes of the scenarios\<close>

lemma reachable_durable: "reachable (snd (durable_preemption ad))"
  unfolding durable_preemption_def quiesce_to_commit_def Let_def cuda_runtime_def declare_boundary_def start_reference_def
  by (intro reachable_then reachable_call reachable_capture_if_any reachable.fresh)

abbreviation device_with :: "(nat \<Rightarrow> bool) \<Rightarrow> bool \<Rightarrow> bool \<Rightarrow> bool \<Rightarrow> cuda_device" where
  "device_with al pa ba pb \<equiv> \<lparr>cu_alloc = al, cu_parity_a = pa, cu_baseline = ba, cu_parity_b = pb\<rparr>"

lemma scenario_a_result:
  "fst (scenario_a (device_with al pa ba pb)) = Inr (if al 0 \<and> al 1 then Some (failure_if (\<not> pa) + failure_if (\<not> ba)) else None)"
proof -
  have "fst (scenario_a (device_with (\<lambda>k. if k = 0 then a else b) pa ba pb))
      = Inr (if a \<and> b then Some (failure_if (\<not> pa) + failure_if (\<not> ba)) else None)" for a b
    by (induct a; induct b; code_simp)
  moreover have "scenario_a (device_with (\<lambda>k. if k = 0 then al 0 else al 1) pa ba pb) = scenario_a (device_with al pa ba pb)"
    by (simp add: scenario_a_def cong: if_cong)
  ultimately show ?thesis by metis
qed

lemma scenario_b_result: "fst (scenario_b (device_with al pa ba pb)) = Inr (if al 2 \<and> al 3 then Some (failure_if (\<not> pb)) else None)"
proof -
  have "fst (scenario_b (device_with (\<lambda>k. if k = 2 then a else b) pa ba pb))
      = Inr (if a \<and> b then Some (failure_if (\<not> pb)) else None)" for a b
    by (induct a; induct b; code_simp)
  moreover have "scenario_b (device_with (\<lambda>k. if k = 2 then al 2 else al 3) pa ba pb) = scenario_b (device_with al pa ba pb)"
    by (simp add: scenario_b_def cong: if_cong)
  ultimately show ?thesis by metis
qed

lemma scenario_d_result: "fst (scenario_d (device_with al pa ba pb)) = Inr (if al 4 then Some 0 else None)"
proof -
  have "fst (scenario_d (device_with (\<lambda>k. a) pa ba pb)) = Inr (if a then Some 0 else None)" for a by (induct a; code_simp)
  moreover have "scenario_d (device_with (\<lambda>k. al 4) pa ba pb) = scenario_d (device_with al pa ba pb)" by (simp add: scenario_d_def cong: if_cong)
  ultimately show ?thesis by metis
qed

lemma scenario_e_result: "fst (scenario_e (device_with al pa ba pb)) = Inr (if al 5 then Some 0 else None)"
proof -
  have "fst (scenario_e (device_with (\<lambda>k. a) pa ba pb)) = Inr (if a then Some 0 else None)" for a by (induct a; code_simp)
  moreover have "scenario_e (device_with (\<lambda>k. al 5) pa ba pb) = scenario_e (device_with al pa ba pb)" by (simp add: scenario_e_def cong: if_cong)
  ultimately show ?thesis by metis
qed

definition lost_adapters :: ReferenceAdapters where
  "lost_adapters = rt_adapters (snd (worker_loss (reference_setup kN_bytes)))"

definition durable_runtime :: PreemptionRuntime where
  "durable_runtime = snd (durable_preemption lost_adapters)"

lemma worker_loss_result: "fst (worker_loss (reference_setup kN_bytes)) = Inr 0"
  by code_simp

lemma durable_preemption_result: "map_sum id res_outcome (fst (durable_preemption lost_adapters)) =
    Inr PreemptionOutcome.kSafePreemptionCompleted"
  by code_simp

lemma durable_runtime_stored: "loadable durable_runtime" "stored_size durable_runtime < 2 ^ 32 + 16"
proof -
  show "loadable durable_runtime" by code_simp
  have "map fst (rt_safe_points durable_runtime) = [IdV 80]" "rt_history durable_runtime = []" by code_simp+
  then have "length (rt_safe_points durable_runtime) = 1" "length (rt_history durable_runtime) = 0"
    by (metis length_map list.size(3) One_nat_def length_Cons, simp)
  then show "stored_size durable_runtime < 2 ^ 32 + 16" by (simp add: stored_size_def)
qed

lemma restart_result: "fst (restart_and_resume (persist_bytes durable_runtime) (rt_adapters durable_runtime)) = Inr 0"
proof -
  have inv: "runtime_inv durable_runtime"
    unfolding durable_runtime_def by (rule reachable_inv [OF reachable_durable])
  have "fst (then_call (resume_sequence (set_worker_incarnation (IdV 40) (IdV 600)
      (restore_state (snapshot durable_runtime) (preemption_runtime (GenV 2) (GenV 1) (rt_adapters durable_runtime)))))
      (\<lambda>rm r. (Inr (failure_if (res_outcome rm \<noteq> PreemptionOutcome.kSafePreemptionCompleted)), r))) = Inr 0"
    by code_simp
  then show ?thesis
    using restore_persist_bytes [OF durable_runtime_stored(2) inv] durable_runtime_stored(1)
    by (simp add: restart_and_resume_def)
qed

lemma scenario_fg_result: "fst scenario_fg = Inr 0"
proof -
  obtain res where res: "fst (durable_preemption lost_adapters) = Inr res"
    using durable_preemption_result by (cases "fst (durable_preemption lost_adapters)") auto
  show ?thesis
    unfolding scenario_fg_def then_call_Inr [OF worker_loss_result] lost_adapters_def [symmetric]
      then_call_Inr [OF res] durable_runtime_def [symmetric] then_call_Inr [OF restart_result]
    by simp
qed

lemma cuda_main_result:
  "cuda_main (device_with al pa ba pb) = Inr (if (\<forall>k < 6. al k) \<and> pa \<and> ba \<and> pb then 0 else 1)"
proof -
  have all: "(\<forall>k < 6. al k) \<longleftrightarrow> (al 0 \<and> al 1) \<and> (al 2 \<and> al 3) \<and> al 4 \<and> al 5"
    by (auto simp: numeral_eq_Suc All_less_Suc)
  show ?thesis
    unfolding cuda_main_def then_call_Inr [OF scenario_a_result] all
    by (cases "al 0 \<and> al 1"; cases "al 2 \<and> al 3"; cases "al 4"; cases "al 5";
        simp add: then_call_Inr [OF scenario_b_result] then_call_Inr [OF scenario_d_result] then_call_Inr [OF scenario_e_result]
          then_call_Inr [OF scenario_fg_result] failure_if_def)
qed

section \<open>The device computations\<close>

text \<open>Threads that stay inside the allocation write different elements, so their order does not matter.\<close>

lemma threads_scale:
  assumes "distinct order" "\<forall>i \<in> set order. i < n \<longrightarrow> i < length st"
  shows "\<exists>st'. foldl (\<lambda>st i. Option.bind st (scale_kernel ar n f i)) (Some st) order = Some st' \<and> length st' = length st \<and>
     (\<forall>k < length st. st' ! k = (if k \<in> set order \<and> k < n then ar_device_mul ar (st ! k) f else st ! k))"
  using assms
proof (induction order arbitrary: st)
  case (Cons i order)
  obtain st1 where one: "scale_kernel ar n f i st = Some st1" "length st1 = length st"
    "\<forall>k < length st. st1 ! k = (if k = i \<and> k < n then ar_device_mul ar (st ! k) f else st ! k)"
    using Cons.prems(2) by (cases "i < n") (auto simp: scale_kernel_def nth_list_update)
  obtain st2 where "foldl (\<lambda>st i. Option.bind st (scale_kernel ar n f i)) (Some st1) order = Some st2" "length st2 = length st1"
    "\<forall>k < length st1. st2 ! k = (if k \<in> set order \<and> k < n then ar_device_mul ar (st1 ! k) f else st1 ! k)"
    using Cons.IH [of st1] Cons.prems one(2) by auto
  then show ?case using one Cons.prems(1) by (intro exI [of _ st2]) auto
qed simp

lemma device_segment_map:
  assumes "launch_order order" "length st = kN"
  shows "device_segment ar order f st = Some (map (\<lambda>x. ar_device_mul ar x f) st)"
proof -
  have dist: "distinct order" and all: "\<forall>k < kN. k \<in> set order"
    using assms(1) by (auto simp: launch_order_def launch_threads_def kN_def)
  obtain st' where st': "device_segment ar order f st = Some st'" "length st' = length st"
    "\<forall>k < length st. st' ! k = (if k \<in> set order \<and> k < kN then ar_device_mul ar (st ! k) f else st ! k)"
    using threads_scale [OF dist, of kN st ar f] assms(2) by (auto simp: device_segment_def)
  then have "st' = map (\<lambda>x. ar_device_mul ar x f) st" using all assms(2) by (intro nth_equalityI) auto
  then show ?thesis using st'(1) by simp
qed

lemma segments_map:
  assumes "\<forall>j \<in> set js. launch_order (orders j)" "length st = kN"
  shows "segments ar orders factors js st = Some (map (\<lambda>x. foldl (ar_device_mul ar) x (map ((!) factors) js)) st)"
  using assms
proof (induction js arbitrary: st)
  case (Cons j js)
  then show ?case by (simp add: segments_def device_segment_map)
qed (simp add: segments_def)

lemma recompute_map: "recompute ar factors input = map (\<lambda>x. foldl (ar_host_mul ar) x factors) input"
  by (induction factors arbitrary: input) (simp_all add: recompute_def)

lemma check_parity_map:
  assumes "length input = kN"
  shows "check_parity ar (cpu_reference ar input factors) (map f input)
     \<longleftrightarrow> (\<forall>x \<in> set input. ar_close ar (f x) (ar_host_mul ar x (foldl (ar_host_mul ar) (ar_one ar) factors)))"
  using assms by (auto simp: check_parity_def cpu_reference_def list_all_iff all_set_conv_all_nth Let_def)

lemma device_a_map:
  assumes "length input = kN" "2 \<le> length factors" "\<And>j. launch_order (orders j)" "ar_host_mul ar = ar_device_mul ar"
  shows "device_a ar orders factors input = Some (map (\<lambda>x. foldl (ar_device_mul ar) x factors) input)"
proof -
  have "map ((!) factors) [2..<length factors] = drop 2 factors"
    using assms(2) by (intro nth_equalityI) (simp_all add: nth_map_upt)
  then have "foldl (ar_device_mul ar) (foldl (ar_device_mul ar) x (take 2 factors)) (map ((!) factors) [2..<length factors])
      = foldl (ar_device_mul ar) x factors" for x
    by (metis append_take_drop_id foldl_append)
  then show ?thesis
    using assms by (simp add: device_a_def segments_map recompute_map)
qed

lemma device_b_map:
  assumes "length input = kN" "length factors = 3" "\<And>j. launch_order (orders j)"
  shows "device_b ar orders factors input = Some (map (\<lambda>x. foldl (ar_device_mul ar) x factors) input)"
proof -
  have "factors = [factors ! 0, factors ! 1, factors ! 2]"
    using assms(2) by (auto simp: length_Suc_conv numeral_3_eq_3)
  then have "foldl (ar_device_mul ar) x factors = ar_device_mul ar (ar_device_mul ar (ar_device_mul ar x (factors ! 0)) (factors ! 1)) (factors ! 2)" for x
    by (metis foldl_Cons foldl_Nil)
  then show ?thesis
    using assms by (simp add: device_b_def segments_map device_segment_map)
qed

lemma segments_all:
  assumes "length input = kN" "\<And>j. launch_order (orders j)"
  shows "segments ar orders factors [0..<length factors] input = Some (map (\<lambda>x. foldl (ar_device_mul ar) x factors) input)"
  using assms by (simp add: segments_map map_nth)

lemma launch_order_exists: "launch_order [0..<launch_threads]"
  by (simp add: launch_order_def)

text \<open>
  C36: preemption does not change what the device computes, and the exit code says so. For every
  arithmetic in which host and device multiply alike and every order in which the device runs the
  threads of each launch, no thread leaves the allocation, and the memory at the end of scenario A (boundary recomputed on the host) and of
  scenario B (state copied back and restored) holds exactly what an uninterrupted sequence of all
  segments computes from the input; and the program exits with 0 if and only if all six allocations
  succeed, the memory returned to its baseline and these values are within the tolerance of the
  reference product. No call of the runtime in any scenario causes a failure.
\<close>
theorem cuda_proof_result:
  assumes "length input = kN" "2 \<le> length factors_a" "length factors_b = 3"
    and "\<And>j. launch_order (orders_a j)" "\<And>j. launch_order (orders_b j)" "ar_host_mul ar = ar_device_mul ar"
  shows "device_a ar orders_a factors_a input \<noteq> None \<and> device_b ar orders_b factors_b input \<noteq> None \<and>
     device_a ar orders_a factors_a input = segments ar orders_a factors_a [0..<length factors_a] input \<and>
     device_b ar orders_b factors_b input = segments ar orders_b factors_b [0..<length factors_b] input \<and>
     cuda_program ar input factors_a factors_b orders_a orders_b alloc baseline =
       Some (Inr (if (\<forall>k < 6. alloc k) \<and> baseline \<and>
               (\<forall>factors \<in> {factors_a, factors_b}. \<forall>x \<in> set input.
                  ar_close ar (foldl (ar_device_mul ar) x factors)
                    (ar_host_mul ar x (foldl (ar_host_mul ar) (ar_one ar) factors)))
            then 0 else 1))"
  using segments_all [of input orders_a ar factors_a] segments_all [of input orders_b ar factors_b]
    device_a_map [of input factors_a orders_a ar] device_b_map [of input factors_b orders_b ar] assms
  by (simp add: cuda_program_def cuda_main_result check_parity_map)

text \<open>Over the natural numbers, where the reference product is exact, the program exits with 0.\<close>

theorem cuda_proof_result_witness:
  "cuda_program \<lparr>ar_device_mul = (*), ar_host_mul = (*), ar_one = 1, ar_close = (=)\<rparr>
     (replicate kN (3 :: nat)) [1, 2, 3, 4, 5] [1, 2, 3] (\<lambda>_. [0..<launch_threads]) (\<lambda>_. rev [0..<launch_threads])
     (\<lambda>_. True) True = Some (Inr 0)"
proof -
  let ?ar = "\<lparr>ar_device_mul = (*), ar_host_mul = (*), ar_one = 1, ar_close = (=)\<rparr> :: nat arithmetic"
  have "launch_order (rev [0..<launch_threads])" by (simp add: launch_order_def)
  note result = cuda_proof_result [where ar = ?ar and input = "replicate kN 3" and factors_a = "[1, 2, 3, 4, 5]"
      and factors_b = "[1, 2, 3]", OF _ _ _ launch_order_exists this]
  show ?thesis
    using result [of "\<lambda>_. True" True] by simp
qed

end
