(* ===== verification/PF_Mutex.thy ===== *)
theory PF_Mutex
  imports Main
begin

text \<open>
  Threads that call the methods of one object guarded by a \<^verbatim>\<open>std::shared_mutex\<close>. A method takes the
  mutex exclusively (\<^verbatim>\<open>std::unique_lock\<close>), shared (\<^verbatim>\<open>std::shared_lock\<close>) or not at all, and its body
  is not atomic: it loads the object's state and stores the result in separate steps, and other
  threads may step in between. The theory is generic in the methods. The locale \<open>locked_object\<close> has what
  a class must promise (const methods do not write, shared locks are taken by const methods only) and
  derives mutual exclusion, linearizability, absence of deadlock and termination once; the
  runtime is its instance.
\<close>

section \<open>The mutex and the threads\<close>

datatype lock_mode = NoLock | SharedLock | UniqueLock

datatype ('c, 's) phase = Idle | Entered 'c | Loaded 'c 's | Leaving 'c

record ('c, 's) thread_state =
  th_todo :: "'c list"
  th_phase :: "('c, 's) phase"

text \<open>The object, the owners of the mutex, the threads, and the calls in the order of their effects.\<close>

record ('c, 's, 'v) system =
  sy_state :: 's
  sy_writer :: "nat option"
  sy_readers :: "nat set"
  sy_threads :: "('c, 's) thread_state list"
  sy_trace :: "(nat \<times> 'c \<times> 'v) list"

definition start_threads :: "'s \<Rightarrow> 'c list list \<Rightarrow> ('c, 's, 'v) system" where
  "start_threads x programs = \<lparr>sy_state = x, sy_writer = None, sy_readers = {},
     sy_threads = map (\<lambda>p. \<lparr>th_todo = p, th_phase = Idle\<rparr>) programs, sy_trace = []\<rparr>"

definition acquire :: "lock_mode \<Rightarrow> nat \<Rightarrow> ('c, 's, 'v) system \<Rightarrow> ('c, 's, 'v) system option" where
  "acquire m i s =
     (case m of
        NoLock \<Rightarrow> Some s
      | SharedLock \<Rightarrow> if sy_writer s = None then Some (s\<lparr>sy_readers := insert i (sy_readers s)\<rparr>) else None
      | UniqueLock \<Rightarrow>
          if sy_writer s = None \<and> sy_readers s = {} then Some (s\<lparr>sy_writer := Some i\<rparr>) else None)"

definition unlock :: "lock_mode \<Rightarrow> nat \<Rightarrow> ('c, 's, 'v) system \<Rightarrow> ('c, 's, 'v) system" where
  "unlock m i s =
     (case m of
        NoLock \<Rightarrow> s
      | SharedLock \<Rightarrow> s\<lparr>sy_readers := sy_readers s - {i}\<rparr>
      | UniqueLock \<Rightarrow> s\<lparr>sy_writer := None\<rparr>)"

definition set_thread :: "nat \<Rightarrow> ('c, 's) thread_state \<Rightarrow> ('c, 's, 'v) system \<Rightarrow> ('c, 's, 'v) system" where
  "set_thread i t s = s\<lparr>sy_threads := (sy_threads s)[i := t]\<rparr>"

text \<open>The next step of thread \<open>i\<close>; \<open>None\<close> if it has none, or is blocked in \<^verbatim>\<open>lock\<close>.\<close>

definition advance ::
  "('c \<Rightarrow> 's \<Rightarrow> 'v \<times> 's) \<Rightarrow> ('c \<Rightarrow> lock_mode) \<Rightarrow> ('c \<Rightarrow> bool) \<Rightarrow> nat \<Rightarrow>
   ('c, 's, 'v) system \<Rightarrow> ('c, 's, 'v) system option" where
  "advance exec mode writes i s =
     (if i \<ge> length (sy_threads s) then None
      else let t = sy_threads s ! i
      in case th_phase t of
           Idle \<Rightarrow>
             (case th_todo t of
                [] \<Rightarrow> None
              | c # cs \<Rightarrow> map_option (set_thread i \<lparr>th_todo = cs, th_phase = Entered c\<rparr>) (acquire (mode c) i s))
         | Entered c \<Rightarrow> Some (set_thread i (t\<lparr>th_phase := Loaded c (sy_state s)\<rparr>) s)
         | Loaded c x \<Rightarrow>
             (let (v, y) = exec c x
              in Some ((set_thread i (t\<lparr>th_phase := Leaving c\<rparr>) s)
                   \<lparr>sy_state := if writes c then y else sy_state s, sy_trace := sy_trace s @ [(i, c, v)]\<rparr>))
         | Leaving c \<Rightarrow> Some (unlock (mode c) i (set_thread i (t\<lparr>th_phase := Idle\<rparr>) s)))"

text \<open>A schedule names the thread that makes each step.\<close>

fun run_schedule ::
  "('c \<Rightarrow> 's \<Rightarrow> 'v \<times> 's) \<Rightarrow> ('c \<Rightarrow> lock_mode) \<Rightarrow> ('c \<Rightarrow> bool) \<Rightarrow> nat list \<Rightarrow>
   ('c, 's, 'v) system \<Rightarrow> ('c, 's, 'v) system option" where
  "run_schedule exec mode writes [] s = Some s"
| "run_schedule exec mode writes (i # is) s =
     (case advance exec mode writes i s of None \<Rightarrow> None | Some s \<Rightarrow> run_schedule exec mode writes is s)"

text \<open>The calls one after the other, without threads.\<close>

fun replay :: "('c \<Rightarrow> 's \<Rightarrow> 'v \<times> 's) \<Rightarrow> 'c list \<Rightarrow> 's \<Rightarrow> 'v list \<times> 's" where
  "replay exec [] x = ([], x)"
| "replay exec (c # cs) x =
     (let (v, x) = exec c x; (vs, x) = replay exec cs x in (v # vs, x))"

lemma replay_snoc:
  "replay exec (cs @ [c]) x =
     (let (vs, x) = replay exec cs x; (v, x) = exec c x in (vs @ [v], x))"
  by (induction cs arbitrary: x) (auto split: prod.splits)

lemma run_schedule_append:
  "run_schedule exec mode writes (is @ js) s =
     (case run_schedule exec mode writes is s of None \<Rightarrow> None | Some s \<Rightarrow> run_schedule exec mode writes js s)"
  by (induction "is" arbitrary: s) (auto split: option.splits)

lemma run_schedule_induct [consumes 1, case_names start tick]:
  assumes "run_schedule exec mode writes is s = Some t" "P s"
    and "\<And>i u v. P u \<Longrightarrow> advance exec mode writes i u = Some v \<Longrightarrow> P v"
  shows "P t"
  using assms(1,2) by (induction "is" arbitrary: s) (auto split: option.splits intro: assms(3))

section \<open>What a thread holds\<close>

fun in_call :: "('c, 's) phase \<Rightarrow> 'c option" where
  "in_call Idle = None"
| "in_call (Entered c) = Some c"
| "in_call (Loaded c x) = Some c"
| "in_call (Leaving c) = Some c"

text \<open>The call whose body the thread is executing.\<close>

fun in_body :: "('c, 's) phase \<Rightarrow> 'c option" where
  "in_body (Entered c) = Some c"
| "in_body (Loaded c x) = Some c"
| "in_body _ = None"

lemma in_body_call: "in_body p = Some c \<Longrightarrow> in_call p = Some c"
  by (cases p) simp_all

definition holds :: "('c \<Rightarrow> lock_mode) \<Rightarrow> lock_mode \<Rightarrow> ('c, 's, 'v) system \<Rightarrow> nat \<Rightarrow> bool" where
  "holds mode m s i \<longleftrightarrow> i < length (sy_threads s) \<and>
     (\<exists>c. in_call (th_phase (sy_threads s ! i)) = Some c \<and> mode c = m)"

definition lock_inv :: "('c \<Rightarrow> lock_mode) \<Rightarrow> ('c, 's, 'v) system \<Rightarrow> bool" where
  "lock_inv mode s \<longleftrightarrow> (\<forall>i. holds mode UniqueLock s i \<longleftrightarrow> sy_writer s = Some i) \<and>
     (\<forall>i. holds mode SharedLock s i \<longleftrightarrow> i \<in> sy_readers s) \<and> (sy_writer s \<noteq> None \<longrightarrow> sy_readers s = {})"

text \<open>Two threads are in bodies at once, and one of them writes.\<close>

definition overlap :: "('c \<Rightarrow> bool) \<Rightarrow> ('c, 's, 'v) system \<Rightarrow> bool" where
  "overlap writes s \<longleftrightarrow> (\<exists>i < length (sy_threads s). \<exists>j < length (sy_threads s). i \<noteq> j \<and>
     (\<exists>c d. in_body (th_phase (sy_threads s ! i)) = Some c \<and> in_body (th_phase (sy_threads s ! j)) = Some d \<and> writes c))"

text \<open>The steps that are left.\<close>

fun phase_left :: "('c, 's) phase \<Rightarrow> nat" where
  "phase_left Idle = 0"
| "phase_left (Entered c) = 3"
| "phase_left (Loaded c x) = 2"
| "phase_left (Leaving c) = 1"

definition thread_left :: "('c, 's) thread_state \<Rightarrow> nat" where
  "thread_left t = 4 * length (th_todo t) + phase_left (th_phase t)"

definition steps_left :: "('c, 's, 'v) system \<Rightarrow> nat" where
  "steps_left s = sum_list (map thread_left (sy_threads s))"

definition finished :: "('c, 's, 'v) system \<Rightarrow> bool" where
  "finished s \<longleftrightarrow> (\<forall>t \<in> set (sy_threads s). th_todo t = [] \<and> th_phase t = Idle)"

text \<open>The calls of thread \<open>i\<close> that had their effect, and those that did not yet.\<close>

definition effects_of :: "nat \<Rightarrow> ('c, 's, 'v) system \<Rightarrow> 'c list" where
  "effects_of i s = map (fst \<circ> snd) (filter (\<lambda>e. fst e = i) (sy_trace s))"

definition pending_of :: "nat \<Rightarrow> ('c, 's, 'v) system \<Rightarrow> 'c list" where
  "pending_of i s = (case in_body (th_phase (sy_threads s ! i)) of None \<Rightarrow> [] | Some c \<Rightarrow> [c]) @ th_todo (sy_threads s ! i)"

section \<open>One step\<close>

lemma advance_cases [consumes 1, case_names enter load store leave]:
  assumes "advance exec mode writes i s = Some s'"
  obtains (enter) c cs u where "i < length (sy_threads s)" "th_phase (sy_threads s ! i) = Idle" "th_todo (sy_threads s ! i) = c # cs"
      "acquire (mode c) i s = Some u" "s' = set_thread i \<lparr>th_todo = cs, th_phase = Entered c\<rparr> u"
  | (load) c where "i < length (sy_threads s)" "th_phase (sy_threads s ! i) = Entered c"
      "s' = set_thread i ((sy_threads s ! i)\<lparr>th_phase := Loaded c (sy_state s)\<rparr>) s"
  | (store) c x where "i < length (sy_threads s)" "th_phase (sy_threads s ! i) = Loaded c x"
      "s' = (set_thread i ((sy_threads s ! i)\<lparr>th_phase := Leaving c\<rparr>) s)
         \<lparr>sy_state := if writes c then snd (exec c x) else sy_state s, sy_trace := sy_trace s @ [(i, c, fst (exec c x))]\<rparr>"
  | (leave) c where "i < length (sy_threads s)" "th_phase (sy_threads s ! i) = Leaving c"
      "s' = unlock (mode c) i (set_thread i ((sy_threads s ! i)\<lparr>th_phase := Idle\<rparr>) s)"
  using assms
  by (auto simp: advance_def Let_def split: if_splits phase.splits list.splits prod.splits option.splits)

lemma set_thread_simps [simp]:
  "sy_threads (set_thread i t s) = (sy_threads s)[i := t]" "sy_state (set_thread i t s) = sy_state s"
  "sy_writer (set_thread i t s) = sy_writer s" "sy_readers (set_thread i t s) = sy_readers s"
  "sy_trace (set_thread i t s) = sy_trace s"
  by (simp_all add: set_thread_def)

lemma unlock_simps [simp]:
  "sy_threads (unlock m i s) = sy_threads s" "sy_state (unlock m i s) = sy_state s" "sy_trace (unlock m i s) = sy_trace s"
  "sy_writer (unlock m i s) = (if m = UniqueLock then None else sy_writer s)"
  "sy_readers (unlock m i s) = (if m = SharedLock then sy_readers s - {i} else sy_readers s)"
  by (simp_all add: unlock_def split: lock_mode.split)

lemma acquire_Some:
  assumes "acquire m i s = Some u"
  shows "sy_threads u = sy_threads s" "sy_state u = sy_state s" "sy_trace u = sy_trace s"
    "sy_writer u = (if m = UniqueLock then Some i else sy_writer s)"
    "sy_readers u = (if m = SharedLock then insert i (sy_readers s) else sy_readers s)"
    "m \<noteq> NoLock \<Longrightarrow> sy_writer s = None" "m = UniqueLock \<Longrightarrow> sy_readers s = {}"
  using assms by (auto simp: acquire_def split: lock_mode.splits if_splits)

lemma holds_update:
  assumes "sy_threads s' = (sy_threads s)[i := t]"
  shows "holds mode m s' j \<longleftrightarrow>
     (if j = i then i < length (sy_threads s) \<and> (\<exists>c. in_call (th_phase t) = Some c \<and> mode c = m) else holds mode m s j)"
  using assms by (auto simp: holds_def nth_list_update)

lemma advance_lock_inv:
  assumes "lock_inv mode s" "advance exec mode writes i s = Some s'"
  shows "lock_inv mode s'"
  using assms(2)
proof (cases rule: advance_cases)
  case (enter c cs u)
  note acq = acquire_Some [OF enter(4)]
  have th: "sy_threads s' = (sy_threads s)[i := \<lparr>th_todo = cs, th_phase = Entered c\<rparr>]" by (simp add: enter(5) acq(1))
  have idle: "\<not> holds mode m s i" for m using enter(2) by (simp add: holds_def)
  show ?thesis using assms(1) enter(1) acq idle
    unfolding lock_inv_def holds_update [OF th] by (cases "mode c") (auto simp: enter(5))
next
  case (load c)
  have th: "sy_threads s' = (sy_threads s)[i := (sy_threads s ! i)\<lparr>th_phase := Loaded c (sy_state s)\<rparr>]" by (simp add: load(3))
  have "holds mode m s' = holds mode m s" for m using load(1,2) by (auto simp: fun_eq_iff holds_update [OF th]) (simp add: holds_def)+
  then show ?thesis using assms(1) by (simp add: lock_inv_def load(3))
next
  case (store c x)
  have th: "sy_threads s' = (sy_threads s)[i := (sy_threads s ! i)\<lparr>th_phase := Leaving c\<rparr>]" by (simp add: store(3))
  have "holds mode m s' = holds mode m s" for m using store(1,2) by (auto simp: fun_eq_iff holds_update [OF th]) (simp add: holds_def)+
  then show ?thesis using assms(1) by (simp add: lock_inv_def store(3))
next
  case (leave c)
  have th: "sy_threads s' = (sy_threads s)[i := (sy_threads s ! i)\<lparr>th_phase := Idle\<rparr>]" by (simp add: leave(3))
  have own: "holds mode m s i \<longleftrightarrow> mode c = m" for m using leave(1,2) by (simp add: holds_def)
  show ?thesis using assms(1) own
    unfolding lock_inv_def holds_update [OF th] by (cases "mode c") (auto simp: leave(3))
qed

lemma start_lock_inv: "lock_inv mode (start_threads x programs)"
  by (simp add: lock_inv_def start_threads_def holds_def)

lemma steps_left_update:
  assumes "i < length (sy_threads s)" "sy_threads s' = (sy_threads s)[i := t]" "Suc (thread_left t) = thread_left (sy_threads s ! i)"
  shows "Suc (steps_left s') = steps_left s"
proof -
  have "thread_left (sy_threads s ! i) \<le> steps_left s"
    using assms(1) elem_le_sum_list [of i "map thread_left (sy_threads s)"] by (simp add: steps_left_def)
  then show ?thesis
    using assms sum_list_update [of i "map thread_left (sy_threads s)" "thread_left t"]
    by (simp add: steps_left_def map_update)
qed

lemma advance_steps_left:
  assumes "advance exec mode writes i s = Some s'"
  shows "Suc (steps_left s') = steps_left s"
  using assms
proof (cases rule: advance_cases)
  case (enter c cs u)
  then show ?thesis
    using steps_left_update [of i s s' "\<lparr>th_todo = cs, th_phase = Entered c\<rparr>"] acquire_Some(1) [OF enter(4)]
    by (simp add: thread_left_def)
next
  case (load c)
  then show ?thesis
    using steps_left_update [of i s s' "(sy_threads s ! i)\<lparr>th_phase := Loaded c (sy_state s)\<rparr>"] by (simp add: thread_left_def)
next
  case (store c x)
  then show ?thesis
    using steps_left_update [of i s s' "(sy_threads s ! i)\<lparr>th_phase := Leaving c\<rparr>"] by (simp add: thread_left_def)
next
  case (leave c)
  then show ?thesis
    using steps_left_update [of i s s' "(sy_threads s ! i)\<lparr>th_phase := Idle\<rparr>"] by (simp add: thread_left_def)
qed

lemma run_steps_left: "run_schedule exec mode writes is s = Some t \<Longrightarrow> length is + steps_left t = steps_left s"
  by (induction "is" arbitrary: s) (auto split: option.splits dest: advance_steps_left)

lemma thread_left_0: "thread_left t = 0 \<longleftrightarrow> th_todo t = [] \<and> th_phase t = Idle"
  by (cases "th_phase t") (simp_all add: thread_left_def)

lemma finished_iff: "finished s \<longleftrightarrow> steps_left s = 0"
  by (simp add: finished_def steps_left_def sum_list_eq_0_iff thread_left_0)

text \<open>A call in progress never waits, and when there is none the mutex is free.\<close>

lemma not_stuck:
  assumes "lock_inv mode s" "\<not> finished s"
  shows "\<exists>i s'. advance exec mode writes i s = Some s'"
proof (cases "\<exists>i < length (sy_threads s). th_phase (sy_threads s ! i) \<noteq> Idle")
  case True
  then obtain i where "i < length (sy_threads s)" "th_phase (sy_threads s ! i) \<noteq> Idle" by blast
  then show ?thesis by (intro exI [of _ i]) (cases "th_phase (sy_threads s ! i)"; simp add: advance_def case_prod_unfold Let_def)
next
  case False
  then have "\<not> holds mode m s i" for m i by (auto simp: holds_def)
  then have free: "sy_writer s = None" "sy_readers s = {}" using assms(1) by (auto simp: lock_inv_def)
  obtain i where i: "i < length (sy_threads s)" "th_todo (sy_threads s ! i) \<noteq> [] \<or> th_phase (sy_threads s ! i) \<noteq> Idle"
    using assms(2) by (auto simp: finished_def in_set_conv_nth)
  then have "th_phase (sy_threads s ! i) = Idle" "th_todo (sy_threads s ! i) \<noteq> []" using False by blast+
  then show ?thesis using i(1) free
    by (intro exI [of _ i]) (auto simp: advance_def acquire_def neq_Nil_conv split: lock_mode.split)
qed

lemma can_finish:
  assumes "lock_inv mode s"
  shows "\<exists>is t. run_schedule exec mode writes is s = Some t \<and> finished t"
  using assms
proof (induction "steps_left s" arbitrary: s)
  case 0
  then show ?case using run_schedule.simps(1) finished_iff by metis
next
  case (Suc n)
  then obtain i s' where step: "advance exec mode writes i s = Some s'"
    using not_stuck [of mode s] finished_iff by (metis Zero_not_Suc)
  then obtain "is" t where "run_schedule exec mode writes is s' = Some t" "finished t"
    using Suc.hyps(1) [of s'] Suc.hyps(2) Suc.prems advance_lock_inv advance_steps_left by (metis Suc_inject)
  then show ?case using step by (intro exI [of _ "i # is"]) auto
qed

section \<open>The calls of a system\<close>

definition all_calls :: "('c \<Rightarrow> bool) \<Rightarrow> ('c, 's, 'v) system \<Rightarrow> bool" where
  "all_calls P s \<longleftrightarrow> (\<forall>t \<in> set (sy_threads s). (\<forall>c \<in> set (th_todo t). P c) \<and>
     (\<forall>c. in_call (th_phase t) = Some c \<longrightarrow> P c))"

lemma all_calls_update:
  assumes "all_calls P s" "sy_threads s' = (sy_threads s)[i := t]" "i < length (sy_threads s)"
    and "set (th_todo t) \<subseteq> set (th_todo (sy_threads s ! i))"
    and "\<And>c. in_call (th_phase t) = Some c \<Longrightarrow> P c"
  shows "all_calls P s'"
proof -
  have old: "\<forall>c \<in> set (th_todo (sy_threads s ! i)). P c" using assms(1) nth_mem [OF assms(3)] unfolding all_calls_def by blast
  show ?thesis
    unfolding all_calls_def
  proof
    fix u assume "u \<in> set (sy_threads s')"
    then consider "u = t" | "u \<in> set (sy_threads s)" using assms(2) set_update_subset_insert [of "sy_threads s" i t] by auto
    then show "(\<forall>c \<in> set (th_todo u). P c) \<and> (\<forall>c. in_call (th_phase u) = Some c \<longrightarrow> P c)"
      using old assms(1,4,5) by cases (auto simp: all_calls_def)
  qed
qed

lemma advance_all_calls:
  assumes "all_calls P s" "advance exec mode writes i s = Some s'"
  shows "all_calls P s'"
proof -
  have own: "P c" if "in_call (th_phase (sy_threads s ! i)) = Some c" "i < length (sy_threads s)" for c
    using assms(1) that by (auto simp: all_calls_def)
  show ?thesis using assms(2)
  proof (cases rule: advance_cases)
    case (enter c cs u)
    then have "P c" using assms(1) by (auto simp: all_calls_def dest!: nth_mem)
    then show ?thesis using enter acquire_Some(1) [OF enter(4)] by (intro all_calls_update [OF assms(1)]) auto
  next
    case (load c)
    then show ?thesis using own [of c]
      by (intro all_calls_update [OF assms(1), of s' i "(sy_threads s ! i)\<lparr>th_phase := Loaded c (sy_state s)\<rparr>"]) simp_all
  next
    case (store c x)
    then show ?thesis using own [of c]
      by (intro all_calls_update [OF assms(1), of s' i "(sy_threads s ! i)\<lparr>th_phase := Leaving c\<rparr>"]) simp_all
  next
    case (leave c)
    then show ?thesis
      by (intro all_calls_update [OF assms(1), of s' i "(sy_threads s ! i)\<lparr>th_phase := Idle\<rparr>"]) simp_all
  qed
qed

lemma start_all_calls: "all_calls P (start_threads x programs) \<longleftrightarrow> (\<forall>p \<in> set programs. \<forall>c \<in> set p. P c)"
  by (auto simp: all_calls_def start_threads_def)

section \<open>What locking gives\<close>

locale locked_object =
  fixes exec :: "'c \<Rightarrow> 's \<Rightarrow> 'v \<times> 's"
    and mode :: "'c \<Rightarrow> lock_mode"
    and writes :: "'c \<Rightarrow> bool"
  assumes const_keeps: "\<not> writes c \<Longrightarrow> snd (exec c x) = x"
    and shared_const: "mode c = SharedLock \<Longrightarrow> \<not> writes c"
begin

definition loads_current :: "('c, 's, 'v) system \<Rightarrow> bool" where
  "loads_current s \<longleftrightarrow> (\<forall>i < length (sy_threads s). \<forall>c x. th_phase (sy_threads s ! i) = Loaded c x \<longrightarrow> x = sy_state s)"

text \<open>While a writer is in its call no other thread is in one.\<close>

lemma writer_alone:
  assumes "lock_inv mode s" "all_calls (\<lambda>c. mode c \<noteq> NoLock) s" "i < length (sy_threads s)" "j < length (sy_threads s)" "i \<noteq> j"
    and "in_call (th_phase (sy_threads s ! i)) = Some c" "writes c"
  shows "in_call (th_phase (sy_threads s ! j)) = None"
proof (rule ccontr)
  assume "in_call (th_phase (sy_threads s ! j)) \<noteq> None"
  then obtain d where d: "in_call (th_phase (sy_threads s ! j)) = Some d" by blast
  have "mode c \<noteq> NoLock" "mode d \<noteq> NoLock" using assms(2,3,4,6) d by (auto simp: all_calls_def)
  moreover have "mode c \<noteq> SharedLock" using shared_const assms(7) by blast
  ultimately have "mode c = UniqueLock" "mode d = SharedLock \<or> mode d = UniqueLock" by (cases "mode c", simp_all, cases "mode d", simp_all)
  then have "holds mode UniqueLock s i" "holds mode SharedLock s j \<or> holds mode UniqueLock s j"
    using assms(3,4,6) d by (auto simp: holds_def)
  then show False using assms(1,5) by (auto simp: lock_inv_def)
qed

lemma no_overlap: "lock_inv mode s \<Longrightarrow> all_calls (\<lambda>c. mode c \<noteq> NoLock) s \<Longrightarrow> \<not> overlap writes s"
proof
  assume inv: "lock_inv mode s" "all_calls (\<lambda>c. mode c \<noteq> NoLock) s" and "overlap writes s"
  then obtain i j c d where ij: "i < length (sy_threads s)" "j < length (sy_threads s)" "i \<noteq> j"
    "in_body (th_phase (sy_threads s ! i)) = Some c" "in_body (th_phase (sy_threads s ! j)) = Some d" "writes c"
    by (auto simp: overlap_def)
  show False using writer_alone [OF inv ij(1,2,3) in_body_call [OF ij(4)] ij(6)] in_body_call [OF ij(5)] by simp
qed

lemma advance_loads_current:
  assumes "lock_inv mode s" "all_calls (\<lambda>c. mode c \<noteq> NoLock) s" "loads_current s" "advance exec mode writes i s = Some s'"
  shows "loads_current s'"
  using assms(4)
proof (cases rule: advance_cases)
  case (enter c cs u)
  then show ?thesis using assms(3) acquire_Some(1,2) [OF enter(4)] by (auto simp: loads_current_def nth_list_update)
next
  case (load c)
  then show ?thesis using assms(3) by (auto simp: loads_current_def nth_list_update)
next
  case (leave c)
  then show ?thesis using assms(3) by (auto simp: loads_current_def nth_list_update)
next
  case (store c x)
  have alone: "in_call (th_phase (sy_threads s ! j)) = None" if "j < length (sy_threads s)" "j \<noteq> i" "writes c" for j
    using writer_alone [OF assms(1,2) store(1) that(1)] that store(2) by simp
  have "y = sy_state s'" if "j < length (sy_threads s)" "j \<noteq> i" "th_phase (sy_threads s ! j) = Loaded d y" for j d y
    using alone [OF that(1,2)] that assms(3) store(3) by (auto simp: loads_current_def)
  moreover have "th_phase (sy_threads s' ! i) = Leaving c" using store(1,3) by simp
  moreover have "sy_threads s' ! j = sy_threads s ! j" if "j \<noteq> i" for j using store(3) that by simp
  moreover have "length (sy_threads s') = length (sy_threads s)" using store(3) by simp
  ultimately show ?thesis unfolding loads_current_def by (metis phase.distinct(11))
qed

text \<open>The trace is an execution without threads, with the same results and the same state.\<close>

definition linear :: "'s \<Rightarrow> 'c list list \<Rightarrow> ('c, 's, 'v) system \<Rightarrow> bool" where
  "linear x programs s \<longleftrightarrow> length (sy_threads s) = length programs \<and>
     replay exec (map (fst \<circ> snd) (sy_trace s)) x = (map (snd \<circ> snd) (sy_trace s), sy_state s) \<and>
     (\<forall>i < length programs. effects_of i s @ pending_of i s = programs ! i)"

lemma pending_update:
  assumes "sy_threads s' = (sy_threads s)[i := t]" "i < length (sy_threads s)"
  shows "pending_of j s' = (if j = i then (case in_body (th_phase t) of None \<Rightarrow> [] | Some c \<Rightarrow> [c]) @ th_todo t else pending_of j s)"
  using assms by (simp add: pending_of_def)

lemma advance_linear:
  assumes "loads_current s" "linear x programs s" "advance exec mode writes i s = Some s'"
  shows "linear x programs s'"
  using assms(3)
proof (cases rule: advance_cases)
  case (enter c cs u)
  note acq = acquire_Some [OF enter(4)]
  have "pending_of j s' = pending_of j s" for j
    using pending_update [of s' s i "\<lparr>th_todo = cs, th_phase = Entered c\<rparr>" j] enter acq by (simp add: pending_of_def [of i s])
  then show ?thesis using assms(2) enter(5) acq by (simp add: linear_def effects_of_def)
next
  case (load c)
  have "pending_of j s' = pending_of j s" for j
    using pending_update [of s' s i "(sy_threads s ! i)\<lparr>th_phase := Loaded c (sy_state s)\<rparr>" j] load
    by (simp add: pending_of_def [of i s])
  then show ?thesis using assms(2) load(3) by (simp add: linear_def effects_of_def)
next
  case (leave c)
  have "pending_of j s' = pending_of j s" for j
    using pending_update [of s' s i "(sy_threads s ! i)\<lparr>th_phase := Idle\<rparr>" j] leave by (simp add: pending_of_def [of i s])
  then show ?thesis using assms(2) leave(3) by (simp add: linear_def effects_of_def)
next
  case (store c y)
  have y: "y = sy_state s" using assms(1) store(1,2) by (auto simp: loads_current_def)
  have "sy_state s' = snd (exec c y)" using store(3) const_keeps [of c y] y by simp
  moreover have "sy_trace s' = sy_trace s @ [(i, c, fst (exec c y))]" using store(3) by simp
  ultimately have "replay exec (map (fst \<circ> snd) (sy_trace s')) x = (map (snd \<circ> snd) (sy_trace s'), sy_state s')"
    using assms(2) y by (simp add: linear_def replay_snoc case_prod_unfold Let_def)
  moreover have "effects_of j s' @ pending_of j s' = effects_of j s @ pending_of j s" for j
    using pending_update [of s' s i "(sy_threads s ! i)\<lparr>th_phase := Leaving c\<rparr>" j] store
    by (auto simp: effects_of_def pending_of_def [of i s])
  ultimately show ?thesis using assms(2) store(3) by (simp add: linear_def)
qed

lemma schedule_linear:
  assumes "run_schedule exec mode writes is (start_threads x programs) = Some s" "\<forall>p \<in> set programs. \<forall>c \<in> set p. mode c \<noteq> NoLock"
  shows "linear x programs s \<and> \<not> overlap writes s"
proof -
  have "lock_inv mode s \<and> all_calls (\<lambda>c. mode c \<noteq> NoLock) s \<and> loads_current s \<and> linear x programs s"
    using assms(1)
  proof (induction rule: run_schedule_induct)
    case start
    have "linear x programs (start_threads x programs)"
      by (auto simp: linear_def start_threads_def effects_of_def pending_of_def)
    then show ?case using assms(2) start_lock_inv [of mode x programs]
      by (auto simp: start_all_calls) (simp add: loads_current_def start_threads_def)
  next
    case (tick i u v)
    then show ?case
      using advance_lock_inv advance_all_calls [of "\<lambda>c. mode c \<noteq> NoLock" u] advance_loads_current advance_linear by blast
  qed
  then show ?thesis using no_overlap by blast
qed

lemma overlap_writes: "all_calls P s \<Longrightarrow> overlap writes s \<Longrightarrow> \<exists>c. P c \<and> writes c"
proof -
  assume all: "all_calls P s" and "overlap writes s"
  then obtain i c where "i < length (sy_threads s)" "in_body (th_phase (sy_threads s ! i)) = Some c" "writes c"
    by (auto simp: overlap_def)
  then show ?thesis
    using all nth_mem [of i "sy_threads s"] in_body_call unfolding all_calls_def by metis
qed

lemma unlocked_overlaps:
  assumes "mode d = NoLock" "writes c \<or> writes d"
  shows "\<exists>s. run_schedule exec mode writes [0, 1] (start_threads x [[c], [d]]) = Some s \<and> overlap writes s"
    and "\<exists>s. run_schedule exec mode writes [1, 0] (start_threads x [[d], [c]]) = Some s \<and> overlap writes s"
  using assms
  by (cases "mode c"; auto simp: start_threads_def advance_def acquire_def set_thread_def overlap_def All_less_Suc2 Ex_less_Suc
      less_2_cases_iff nth_Cons' split: lock_mode.splits)+

text \<open>Two calls can meet in their bodies, one of them writing, only if one of them is not locked.\<close>

lemma overlap_iff:
  "(\<exists>is s. run_schedule exec mode writes is (start_threads x [[c], [d]]) = Some s \<and> overlap writes s)
   \<longleftrightarrow> (writes c \<or> writes d) \<and> (mode c = NoLock \<or> mode d = NoLock)"
proof
  assume "\<exists>is s. run_schedule exec mode writes is (start_threads x [[c], [d]]) = Some s \<and> overlap writes s"
  then obtain "is" s where run: "run_schedule exec mode writes is (start_threads x [[c], [d]]) = Some s" "overlap writes s" by blast
  have "all_calls (\<lambda>e. e = c \<or> e = d) s"
    using run(1)
  proof (induction rule: run_schedule_induct)
    case (tick i u v)
    then show ?case by (rule advance_all_calls)
  qed (simp add: start_all_calls)
  then have "writes c \<or> writes d" using overlap_writes [OF _ run(2)] by blast
  then show "(writes c \<or> writes d) \<and> (mode c = NoLock \<or> mode d = NoLock)"
    using schedule_linear [OF run(1)] run(2) by auto
next
  assume "(writes c \<or> writes d) \<and> (mode c = NoLock \<or> mode d = NoLock)"
  then show "\<exists>is s. run_schedule exec mode writes is (start_threads x [[c], [d]]) = Some s \<and> overlap writes s"
    using unlocked_overlaps(1) [of d c x] unlocked_overlaps(2) [of c d x] by blast
qed

end

end
