(* ===== verification/PF_Concurrency.thy ===== *)
theory PF_Concurrency
  imports PF_Mutex PF_Queries PF_Runtime_Safety
begin

text \<open>
  Several threads on one \<^verbatim>\<open>PreemptionRuntime\<close>. Every method of the class is a call with the lock it
  takes on \<^verbatim>\<open>mutex_\<close>: the mutating methods a \<^verbatim>\<open>std::unique_lock\<close>, the const methods a
  \<^verbatim>\<open>std::shared_lock\<close>, and some of the inline methods of \<^verbatim>\<open>runtime.hpp\<close> and \<^verbatim>\<open>is_attempt_authoritative\<close>
  none. A method that delegates (\<^verbatim>\<open>current_preemptibility\<close>, \<^verbatim>\<open>explain_why_not_preemptible\<close>,
  \<^verbatim>\<open>persist_bytes\<close>, \<^verbatim>\<open>restore_bytes\<close>) takes the lock of the method it calls; no method takes the
  mutex twice. \<^verbatim>\<open>save\<close> and \<^verbatim>\<open>load\<close> do file access around \<^verbatim>\<open>persist_bytes\<close> and \<^verbatim>\<open>restore_bytes\<close> and are
  not calls of their own. The runtime is an instance of the locale \<open>locked_object\<close>.
\<close>

section \<open>The methods as calls\<close>

datatype runtime_query =
    QAssess | QLifecycle | QPreemptibility | QDurableProgress | QCurrentPosition | QRequestGeneration
  | QExplainWhyNot | QExplainBlockers | QExplainState | QInversion PriorityInversionInput | QMigration DeviceCapability
  | QSnapshot | QPersistBytes
  | QIsAuthoritative | QPreemptedDurable | QCurrentSafePoint | QSafePointCount | QPriorityGeneration
  | QEpoch | QWorkerBoot | QExecutionGeneration | QAttemptGeneration | QAdapters

datatype runtime_call = Update runtime_op | Query runtime_query

datatype call_value =
    VThrew PreemptionError | VUnit | VBool bool | VNat nat | VU64 u64 | VSafePointId SafePointId
  | VAdmission RequestAdmission | VResult PreemptionResult | VEligibility ResumeEligibility
  | VAssessment PreemptionAssessment | VLifecycle LifecycleState | VClass PreemptibilityClass
  | VRequestGeneration PreemptionRequestGeneration | VExplain "ExplainEntry list" | VInversion PriorityInversionEvidence
  | VMigration MigrationCompatibility | VImage PersistentState | VBytes "byte list" | VSafePoint "SafePoint option"
  | VPriority PriorityGeneration | VEpoch CoordinatorEpoch | VBoot WorkerBootId
  | VExecutionGeneration ExecutionGeneration | VAttemptGeneration AttemptGeneration | VAdapters ReferenceAdapters

definition returned :: "('a \<Rightarrow> call_value) \<Rightarrow> 'a rt_outcome \<Rightarrow> call_value" where
  "returned f outcome = (case fst outcome of Inl e \<Rightarrow> VThrew e | Inr x \<Rightarrow> f x)"

text \<open>What a mutating method returns; its effect is \<open>apply_op\<close>.\<close>

fun update_value :: "runtime_op \<Rightarrow> PreemptionRuntime \<Rightarrow> call_value" where
  "update_value (OpDeclare sp) r = VSafePointId (fst (declare_safe_point sp r))"
| "update_value (OpReach i pos cap) r = returned (\<lambda>_. VUnit) (reach_safe_point i pos cap r)"
| "update_value (OpPublish pos kind) r = VBool (fst (publish_progress pos kind r))"
| "update_value (OpRequest req) r = returned VAdmission (request_preemption req r)"
| "update_value OpBeginQuiesce r = returned VResult (begin_quiesce r)"
| "update_value (OpReportQuiesced rep) r = returned VResult (report_quiesced rep r)"
| "update_value OpRequestCapture r = returned VResult (request_state_capture r)"
| "update_value (OpReportCaptured c) r = returned VResult (report_state_captured c r)"
| "update_value OpRequestRelease r = returned VResult (request_release r)"
| "update_value OpReportReleased r = returned VResult (report_released r)"
| "update_value OpCommit r = returned VResult (commit_preempted r)"
| "update_value OpRequestResume r = returned VEligibility (request_resume r)"
| "update_value OpRevalidate r = returned VResult (revalidate r)"
| "update_value OpRestore r = returned VResult (restore r)"
| "update_value OpConfirm r = returned VResult (confirm_resumed r)"
| "update_value (OpRestoreBytes bs) r = VBool (fst (restore_bytes bs r))"
| "update_value _ r = VUnit"

fun answer :: "runtime_query \<Rightarrow> PreemptionRuntime \<Rightarrow> call_value" where
  "answer QAssess r = VAssessment (assess r)"
| "answer QLifecycle r = VLifecycle (lifecycle r)"
| "answer QPreemptibility r = VClass (current_preemptibility r)"
| "answer QDurableProgress r = VU64 (durable_progress r)"
| "answer QCurrentPosition r = VU64 (current_position r)"
| "answer QRequestGeneration r = VRequestGeneration (authoritative_request_generation r)"
| "answer QExplainWhyNot r = VExplain (explain_why_not_preemptible r)"
| "answer QExplainBlockers r = VExplain (explain_resume_blockers r)"
| "answer QExplainState r = VExplain (explain_state r)"
| "answer (QInversion inp) r = VInversion (priority_inversion_assessment inp r)"
| "answer (QMigration dst) r = VMigration (evaluate_migration_destination dst r)"
| "answer QSnapshot r = VImage (snapshot r)"
| "answer QPersistBytes r = VBytes (persist_bytes r)"
| "answer QIsAuthoritative r = VBool (is_attempt_authoritative r)"
| "answer QPreemptedDurable r = VBool (runtime_preempted_durable r)"
| "answer QCurrentSafePoint r = VSafePoint (current_safe_point r)"
| "answer QSafePointCount r = VNat (safe_point_count r)"
| "answer QPriorityGeneration r = VPriority (current_priority_generation r)"
| "answer QEpoch r = VEpoch (current_epoch r)"
| "answer QWorkerBoot r = VBoot (worker_boot r)"
| "answer QExecutionGeneration r = VExecutionGeneration (execution_generation r)"
| "answer QAttemptGeneration r = VAttemptGeneration (attempt_generation r)"
| "answer QAdapters r = VAdapters (runtime_adapters r)"

text \<open>The lock each method takes; \<open>OpAdapters\<close> is other code that changes the shared adapters.\<close>

fun update_lock :: "runtime_op \<Rightarrow> lock_mode" where
  "update_lock (OpSetPriority g) = NoLock"
| "update_lock (OpAdapters a) = NoLock"
| "update_lock _ = UniqueLock"

fun query_lock :: "runtime_query \<Rightarrow> lock_mode" where
  "query_lock QIsAuthoritative = NoLock"
| "query_lock QPreemptedDurable = NoLock"
| "query_lock QCurrentSafePoint = NoLock"
| "query_lock QSafePointCount = NoLock"
| "query_lock QPriorityGeneration = NoLock"
| "query_lock QEpoch = NoLock"
| "query_lock QWorkerBoot = NoLock"
| "query_lock QExecutionGeneration = NoLock"
| "query_lock QAttemptGeneration = NoLock"
| "query_lock QAdapters = NoLock"
| "query_lock _ = SharedLock"

fun call_lock :: "runtime_call \<Rightarrow> lock_mode" where
  "call_lock (Update op) = update_lock op"
| "call_lock (Query q) = query_lock q"

fun call_writes :: "runtime_call \<Rightarrow> bool" where
  "call_writes (Update op) = True"
| "call_writes (Query q) = False"

fun call_runtime :: "runtime_call \<Rightarrow> PreemptionRuntime \<Rightarrow> call_value \<times> PreemptionRuntime" where
  "call_runtime (Update op) r = (update_value op r, apply_op op r)"
| "call_runtime (Query q) r = (answer q r, r)"

type_synonym runtime_system = "(runtime_call, PreemptionRuntime, call_value) system"

abbreviation run_threads :: "nat list \<Rightarrow> runtime_system \<Rightarrow> runtime_system option" where
  "run_threads \<equiv> run_schedule call_runtime call_lock call_writes"

interpretation runtime_lock: locked_object call_runtime call_lock call_writes
proof unfold_locales
  show "snd (call_runtime c r) = r" if "\<not> call_writes c" for c r using that by (cases c) simp_all
  show "\<not> call_writes c" if "call_lock c = SharedLock" for c
  proof (cases c)
    case (Update op)
    then show ?thesis using that by (cases op) simp_all
  qed simp
qed

section \<open>Consequences for the runtime\<close>

definition validated_call :: "runtime_call \<Rightarrow> bool" where
  "validated_call c = (case c of Update op \<Rightarrow> validated_op op | Query q \<Rightarrow> True)"

lemma replay_reachable: "reachable r \<Longrightarrow> \<forall>c \<in> set cs. validated_call c \<Longrightarrow> reachable (snd (replay call_runtime cs r))"
proof (induction cs arbitrary: r)
  case (Cons c cs)
  have "reachable (snd (call_runtime c r))"
    using Cons.prems reachable.op by (cases c) (simp_all add: validated_call_def)
  then show ?case using Cons.IH Cons.prems(2) by (simp add: case_prod_unfold Let_def)
qed simp

text \<open>The calls of a trace come from the programs.\<close>

lemma trace_calls:
  assumes "runtime_lock.linear r programs s" "\<forall>p \<in> set programs. \<forall>c \<in> set p. P c"
    and "\<forall>e \<in> set (sy_trace s). fst e < length programs" "c \<in> set (map (fst \<circ> snd) (sy_trace s))"
  shows "P c"
proof -
  obtain e where e: "e \<in> set (sy_trace s)" "c = fst (snd e)" using assms(4) by auto
  then have "c \<in> set (effects_of (fst e) s)" by (auto simp: effects_of_def)
  moreover have "fst e < length programs" using assms(3) e(1) by blast
  ultimately have "c \<in> set (programs ! fst e)" using assms(1) unfolding runtime_lock.linear_def by (metis UnI1 set_append)
  then show ?thesis using assms(2) \<open>fst e < length programs\<close> nth_mem by blast
qed

lemma advance_trace_threads:
  assumes "\<forall>e \<in> set (sy_trace s). fst e < length (sy_threads s)" "advance call_runtime call_lock call_writes i s = Some s'"
  shows "(\<forall>e \<in> set (sy_trace s'). fst e < length (sy_threads s')) \<and> length (sy_threads s') = length (sy_threads s)"
  using assms(2)
proof (cases rule: advance_cases)
  case (enter c cs u)
  then show ?thesis using assms(1) acquire_Some [OF enter(4)] by simp
qed (use assms(1) in simp_all)

lemma run_trace_threads:
  assumes "run_threads schedule (start_threads r programs) = Some s"
  shows "\<forall>e \<in> set (sy_trace s). fst e < length programs"
proof -
  have "(\<forall>e \<in> set (sy_trace s). fst e < length (sy_threads s)) \<and> length (sy_threads s) = length programs"
    using assms
  proof (induction rule: run_schedule_induct)
    case (tick i u v)
    then show ?case using advance_trace_threads by metis
  qed (simp add: start_threads_def)
  then show ?thesis by metis
qed

text \<open>
  C4: concurrent calls are linearizable. Let any number of threads call methods that take the
  mutex, and let the scheduler interleave the loads and stores of their bodies in any way. At every
  moment there is a sequence of the calls whose effect has taken place that, executed one after
  the other without threads, gives every call the value it returned and the runtime its
  state; it contains the calls of each thread in program order, the ones not in it are still
  pending; no two bodies overlap with one writing; and the state is one that sequential use can
  produce (if the images handed directly to restore pass validate_state), so what holds of the
  reachable runtimes holds under concurrency.
\<close>
theorem concurrent_calls_linearize:
  assumes "run_threads schedule (start_threads r programs) = Some s"
    and "\<forall>p \<in> set programs. \<forall>c \<in> set p. call_lock c \<noteq> NoLock" "reachable r"
  shows "replay call_runtime (map (fst \<circ> snd) (sy_trace s)) r = (map (snd \<circ> snd) (sy_trace s), sy_state s) \<and>
     (\<forall>i < length programs. effects_of i s @ pending_of i s = programs ! i) \<and>
     \<not> overlap call_writes s \<and>
     ((\<forall>p \<in> set programs. \<forall>c \<in> set p. validated_call c) \<longrightarrow> reachable (sy_state s))"
proof -
  note lin = runtime_lock.schedule_linear [OF assms(1,2)]
  have "reachable (sy_state s)" if "\<forall>p \<in> set programs. \<forall>c \<in> set p. validated_call c"
    using replay_reachable [OF assms(3), of "map (fst \<circ> snd) (sy_trace s)"] lin
      trace_calls [OF conjunct1 [OF lin] that run_trace_threads [OF assms(1)]]
    by (auto simp: runtime_lock.linear_def)
  then show ?thesis using lin by (simp add: runtime_lock.linear_def)
qed

definition sample_threads :: runtime_system where
  "sample_threads = start_threads (preemption_runtime (GenV 1) (GenV 1) default_ReferenceAdapters)
     [[Query QDurableProgress, Update OpCancel], [Query QLifecycle]]"

text \<open>The two queries share the mutex and their steps alternate.\<close>

lemma sample_schedule: "\<exists>s. run_threads [1, 0, 1, 0, 0] sample_threads = Some s"
  by (simp add: sample_threads_def start_threads_def advance_def acquire_def set_thread_def)

theorem concurrent_calls_linearize_witness:
  "\<exists>s. run_threads [1, 0, 1, 0, 0] sample_threads = Some s \<and> \<not> overlap call_writes s \<and> reachable (sy_state s)"
proof -
  obtain s where run: "run_threads [1, 0, 1, 0, 0] sample_threads = Some s"
    using sample_schedule by blast
  from concurrent_calls_linearize [OF this [unfolded sample_threads_def] _ reachable.fresh] run show ?thesis
    by (auto simp: validated_call_def)
qed

text \<open>
  No deadlock, and no lost call. Whatever the threads call and however they were scheduled so
  far, some thread can step until all calls are complete, the calls can be completed, and every
  schedule ends after at most four steps per call, with all calls complete exactly when it has
  taken all of them.
\<close>
theorem concurrent_calls_complete:
  assumes "run_threads schedule (start_threads r programs) = Some s"
  shows "(\<exists>rest t. run_threads rest s = Some t \<and> finished t) \<and>
     (finished s \<or> (\<exists>i s'. advance call_runtime call_lock call_writes i s = Some s')) \<and>
     length schedule \<le> 4 * sum_list (map length programs) \<and>
     (finished s \<longleftrightarrow> length schedule = 4 * sum_list (map length programs))"
proof -
  have inv: "lock_inv call_lock s"
    using assms
  proof (induction rule: run_schedule_induct)
    case (tick i u v)
    then show ?case by (rule advance_lock_inv)
  qed (rule start_lock_inv)
  have "\<exists>rest t. run_threads rest s = Some t \<and> finished t" using can_finish [OF inv] by blast
  moreover have "steps_left (start_threads r programs :: runtime_system) = 4 * sum_list (map length programs)"
    by (simp add: steps_left_def start_threads_def thread_left_def comp_def sum_list_const_mult)
  then have "length schedule \<le> 4 * sum_list (map length programs)"
    "finished s \<longleftrightarrow> length schedule = 4 * sum_list (map length programs)"
    using run_steps_left [OF assms] by (auto simp: finished_iff)
  ultimately show ?thesis using not_stuck [OF inv] by blast
qed

theorem concurrent_calls_complete_witness:
  "\<exists>s. run_threads [1, 0, 1, 0, 0] sample_threads = Some s \<and> \<not> finished s \<and> (\<exists>rest t. run_threads rest s = Some t \<and> finished t)"
proof -
  obtain s where run: "run_threads [1, 0, 1, 0, 0] sample_threads = Some s"
    using sample_schedule by blast
  from concurrent_calls_complete [OF this [unfolded sample_threads_def]] run show ?thesis by auto
qed

text \<open>
  C39: which methods break the exclusion. Two threads with one call each can both be in their bodies while
  one of them writes the runtime if and only if one of the two is a mutating call and one of the two is
  among: set_priority_generation, a change of the shared adapters by other code,
  is_attempt_authoritative, is_preempted_durable, current_safe_point, safe_point_count,
  current_priority_generation, current_epoch, worker_boot, execution_generation, attempt_generation and
  adapters. Every other pair of methods is excluded by the mutex or only reads.
\<close>
theorem unlocked_methods_overlap:
  "(\<exists>schedule s. run_threads schedule (start_threads r [[c], [d]]) = Some s \<and> overlap call_writes s)
   \<longleftrightarrow> {c, d} \<inter> range Update \<noteq> {} \<and>
     {c, d} \<inter> (range (Update \<circ> OpSetPriority) \<union> range (Update \<circ> OpAdapters) \<union>
       Query ` {QIsAuthoritative, QPreemptedDurable, QCurrentSafePoint, QSafePointCount, QPriorityGeneration,
         QEpoch, QWorkerBoot, QExecutionGeneration, QAttemptGeneration, QAdapters}) \<noteq> {}"
proof -
  have writes: "call_writes c \<longleftrightarrow> c \<in> range Update" for c by (cases c) auto
  have locks: "call_lock c = NoLock \<longleftrightarrow> c \<in> range (Update \<circ> OpSetPriority) \<union> range (Update \<circ> OpAdapters) \<union>
       Query ` {QIsAuthoritative, QPreemptedDurable, QCurrentSafePoint, QSafePointCount, QPriorityGeneration,
         QEpoch, QWorkerBoot, QExecutionGeneration, QAttemptGeneration, QAdapters}" for c
  proof (cases c)
    case (Update op)
    then show ?thesis by (cases op) auto
  next
    case (Query q)
    then show ?thesis by (cases q) auto
  qed
  have meets: "{c, d} \<inter> X \<noteq> {} \<longleftrightarrow> c \<in> X \<or> d \<in> X" for X :: "runtime_call set" by blast
  show ?thesis unfolding runtime_lock.overlap_iff writes locks meets ..
qed

end
