(* ===== verification/PF_Benchmarks.thy ===== *)
theory PF_Benchmarks
  imports PF_Programs PF_Concurrency PF_Protocol Complex_Main
begin

text \<open>
  The two benchmark programs (\<^verbatim>\<open>benchmarks/benchmark_phases.cpp\<close> and \<^verbatim>\<open>benchmarks/benchmark.cpp\<close>). The
  steady clock is an argument: \<open>clock k\<close> is the reading, in nanoseconds, that the program's
  k-th call of \<^verbatim>\<open>Clock::now()\<close> returns. Durations are exact integers; the code adds them as doubles.
  What is printed about them is not modelled.
\<close>

section \<open>The phases of a preemption\<close>

definition ns :: "int \<Rightarrow> int \<Rightarrow> int" where
  "ns a b = b - a"

definition phase_request :: PreemptionRequest where
  "phase_request = (reference_request 100)\<lparr>req_workload_id := IdV 10, req_workload_generation := GenV 1,
     req_reason := PreemptionReason.kCapacityPressure\<rparr>"

definition kRuns :: nat where
  "kRuns = 1000"

definition kSafePointSpacing :: u64 where
  "kSafePointSpacing = 25000"

record phase_totals =
  d_assess :: int
  d_defer :: int
  d_quiesce :: int
  d_preserve :: int
  d_release :: int
  d_total_preempt :: int
  d_revalidate :: int
  d_restore :: int
  d_resume :: int
  d_cycle :: int

definition no_time :: phase_totals where
  "no_time = \<lparr>d_assess = 0, d_defer = 0, d_quiesce = 0, d_preserve = 0, d_release = 0, d_total_preempt = 0,
     d_revalidate = 0, d_restore = 0, d_resume = 0, d_cycle = 0\<rparr>"

text \<open>The declared runtime of one iteration, or of the whole second benchmark.\<close>

definition bench_runtime :: PreemptionRuntime where
  "bench_runtime = snd (declare_safe_point (reference_point [] EvidenceKind.kUnknown)
     (start_reference (preemption_runtime (GenV 1) (GenV 1) (reference_setup 100))))"

text \<open>
  One iteration. Its readings of the clock are \<open>t 0\<close> to \<open>t 13\<close>: \<^verbatim>\<open>t0\<close> to \<^verbatim>\<open>t3\<close>, the anonymous one that
  ends the wait for the safe point, and \<^verbatim>\<open>t4\<close> to \<^verbatim>\<open>t12\<close>.
\<close>

definition phase_run :: "(nat \<Rightarrow> int) \<Rightarrow> phase_totals \<Rightarrow> phase_totals rt_outcome" where
  "phase_run t d =
     (let r = snd (publish_progress kSafePointSpacing ProgressKind.kDurable bench_runtime)
      in then_call (request_preemption phase_request r) (\<lambda>_ r.
         let d = d\<lparr>d_assess := d_assess d + ns (t 0) (t 2)\<rparr> in
         then_call (begin_quiesce r) (\<lambda>_ r.
         then_call (reach_safe_point (IdV 80) (2 * kSafePointSpacing) True r) (\<lambda>_ r.
         let d = d\<lparr>d_defer := d_defer d + ns (t 3) (t 4)\<rparr> in
         then_call (begin_quiesce r) (\<lambda>_ r.
         then_call (report_quiesced full_report r) (\<lambda>_ r.
         let d = d\<lparr>d_quiesce := d_quiesce d + ns (t 5) (t 6)\<rparr> in
         then_call (request_state_capture r) (\<lambda>_ r.
         then_call (report_last_capture r) (\<lambda>_ r.
         let d = d\<lparr>d_preserve := d_preserve d + ns (t 6) (t 7)\<rparr> in
         then_call (request_release r) (\<lambda>_ r.
         then_call (report_released r) (\<lambda>_ r.
         let d = d\<lparr>d_release := d_release d + ns (t 7) (t 8)\<rparr> in
         then_call (commit_preempted r) (\<lambda>_ r.
         let d = d\<lparr>d_total_preempt := d_total_preempt d + ns (t 0) (t 9)\<rparr> in
         then_call (request_resume r) (\<lambda>_ r.
         then_call (revalidate r) (\<lambda>_ r.
         let d = d\<lparr>d_revalidate := d_revalidate d + ns (t 10) (t 11)\<rparr> in
         then_call (restore r) (\<lambda>_ r.
         let d = d\<lparr>d_restore := d_restore d + ns (t 11) (t 12)\<rparr> in
         then_call (confirm_resumed r) (\<lambda>_ r.
         let d = d\<lparr>d_resume := d_resume d + ns (t 12) (t 13), d_cycle := d_cycle d + ns (t 9) (t 13)\<rparr>
         in (Inr d, r))))))))))))))))"

fun phase_loop :: "(nat \<Rightarrow> int) \<Rightarrow> nat list \<Rightarrow> phase_totals \<Rightarrow> PreemptionError + phase_totals" where
  "phase_loop clock [] d = Inr d"
| "phase_loop clock (i # is) d =
     (case fst (phase_run (\<lambda>k. clock (14 * i + k)) d) of Inl err \<Rightarrow> Inl err | Inr d \<Rightarrow> phase_loop clock is d)"

definition phase_benchmark :: "(nat \<Rightarrow> int) \<Rightarrow> PreemptionError + phase_totals" where
  "phase_benchmark clock = phase_loop clock [0..<kRuns] no_time"

text \<open>What a run adds, and that every run is a complete cycle.\<close>

lemma phase_run_result:
  "fst (phase_run t d) = Inr \<lparr>d_assess = d_assess d + ns (t 0) (t 2), d_defer = d_defer d + ns (t 3) (t 4),
     d_quiesce = d_quiesce d + ns (t 5) (t 6), d_preserve = d_preserve d + ns (t 6) (t 7),
     d_release = d_release d + ns (t 7) (t 8), d_total_preempt = d_total_preempt d + ns (t 0) (t 9),
     d_revalidate = d_revalidate d + ns (t 10) (t 11), d_restore = d_restore d + ns (t 11) (t 12),
     d_resume = d_resume d + ns (t 12) (t 13), d_cycle = d_cycle d + ns (t 9) (t 13)\<rparr>"
  by code_simp simp

lemma phase_run_resumes: "rt_machine (snd (phase_run t d)) = LifecycleState.kResumed"
  "rt_durable_position (snd (phase_run t d)) = kSafePointSpacing"
  by code_simp+

definition readings :: "nat \<Rightarrow> nat \<Rightarrow> (nat \<Rightarrow> int) \<Rightarrow> nat list \<Rightarrow> int" where
  "readings a b clock is = (\<Sum>i\<leftarrow>is. clock (14 * i + b) - clock (14 * i + a))"

lemma phase_loop_result:
  "phase_loop clock is d = Inr \<lparr>d_assess = d_assess d + readings 0 2 clock is, d_defer = d_defer d + readings 3 4 clock is,
     d_quiesce = d_quiesce d + readings 5 6 clock is, d_preserve = d_preserve d + readings 6 7 clock is,
     d_release = d_release d + readings 7 8 clock is, d_total_preempt = d_total_preempt d + readings 0 9 clock is,
     d_revalidate = d_revalidate d + readings 10 11 clock is, d_restore = d_restore d + readings 11 12 clock is,
     d_resume = d_resume d + readings 12 13 clock is, d_cycle = d_cycle d + readings 9 13 clock is\<rparr>"
  by (induction "is" arbitrary: d) (simp_all add: phase_run_result readings_def ns_def add.assoc)

lemma readings_split: "readings a c clock is = readings a b clock is + readings b c clock is"
  by (induction "is") (simp_all add: readings_def)

lemma readings_nonneg: "mono clock \<Longrightarrow> a \<le> b \<Longrightarrow> 0 \<le> readings a b clock is"
  unfolding readings_def by (intro sum_list_nonneg) (auto simp: mono_def)

text \<open>
  The phase benchmark measures complete cycles and attributes every nanosecond at most once. None
  of its calls throws or lacks a capture, every iteration ends in RESUMED with the durable
  progress preserved, and with a steady clock the totals are not negative, the phases of the
  preemption add up to at most the total preemption latency and those of the resume to at
  most the cycle. The cycle total is the resume alone: it and the preemption total together are the
  time from the requests to the resumptions.
\<close>
theorem phase_benchmark_totals:
  assumes "mono clock"
  shows "\<exists>d. phase_benchmark clock = Inr d \<and>
     (\<forall>t d. rt_machine (snd (phase_run t d)) = LifecycleState.kResumed \<and>
            rt_durable_position (snd (phase_run t d)) = kSafePointSpacing) \<and>
     (\<forall>f \<in> {d_assess, d_defer, d_quiesce, d_preserve, d_release, d_revalidate, d_restore, d_resume}. 0 \<le> f d) \<and>
     d_assess d + d_defer d + d_quiesce d + d_preserve d + d_release d \<le> d_total_preempt d \<and>
     d_revalidate d + d_restore d + d_resume d \<le> d_cycle d \<and>
     d_total_preempt d + d_cycle d = (\<Sum>i < kRuns. clock (14 * i + 13) - clock (14 * i))"
proof -
  let ?is = "[0..<kRuns]"
  have pre: "readings 0 9 clock ?is = readings 0 2 clock ?is + readings 2 3 clock ?is + readings 3 4 clock ?is +
      readings 4 5 clock ?is + readings 5 6 clock ?is + readings 6 7 clock ?is + readings 7 8 clock ?is + readings 8 9 clock ?is"
    using readings_split [of 0 9 clock ?is 2] readings_split [of 2 9 clock ?is 3] readings_split [of 3 9 clock ?is 4]
      readings_split [of 4 9 clock ?is 5] readings_split [of 5 9 clock ?is 6] readings_split [of 6 9 clock ?is 7]
      readings_split [of 7 9 clock ?is 8] by linarith
  have post: "readings 9 13 clock ?is = readings 9 10 clock ?is + readings 10 11 clock ?is + readings 11 12 clock ?is + readings 12 13 clock ?is"
    using readings_split [of 9 13 clock ?is 10] readings_split [of 10 13 clock ?is 11] readings_split [of 11 13 clock ?is 12] by linarith
  have all: "(\<Sum>i < kRuns. clock (14 * i + 13) - clock (14 * i)) = readings 0 9 clock ?is + readings 9 13 clock ?is"
    using readings_split [of 0 13 clock ?is 9] by (simp add: readings_def interv_sum_list_conv_sum_set_nat lessThan_atLeast0)
  note nonneg = readings_nonneg [OF assms, of _ _ ?is]
  show ?thesis
    unfolding phase_benchmark_def phase_loop_result all
    using phase_run_resumes nonneg [of 0 2] nonneg [of 2 3] nonneg [of 3 4] nonneg [of 4 5] nonneg [of 5 6] nonneg [of 6 7]
      nonneg [of 7 8] nonneg [of 8 9] nonneg [of 9 10] nonneg [of 10 11] nonneg [of 11 12] nonneg [of 12 13]
    by (auto simp: no_time_def pre post)
qed

theorem phase_benchmark_totals_witness:
  "\<exists>d. phase_benchmark (\<lambda>k. 5 * int k) = Inr d \<and> d_total_preempt d + d_cycle d = 65000"
  using phase_benchmark_totals [of "\<lambda>k. 5 * int k"] by (auto simp: mono_def kRuns_def)

section \<open>Operations per second\<close>

text \<open>The rate \<^verbatim>\<open>report\<close> computes from two readings of the clock.\<close>

definition report :: "nat \<Rightarrow> int \<Rightarrow> int \<Rightarrow> rat" where
  "report iters started finish =
     (let sec = rat_of_int (finish - started) / 10 ^ 9 in if sec > 0 then rat_of_nat iters / sec else 0)"

definition kIters :: nat where
  "kIters = 100000"

definition bench_request :: PreemptionRequest where
  "bench_request = reference_request 1"

fun repeat_call :: "nat \<Rightarrow> (PreemptionRuntime \<Rightarrow> 'a rt_outcome) \<Rightarrow> PreemptionRuntime \<Rightarrow> 'a list rt_outcome" where
  "repeat_call 0 f r = (Inr [], r)"
| "repeat_call (Suc n) f r = then_call (f r) (\<lambda>x r. then_call (repeat_call n f r) (\<lambda>xs r. (Inr (x # xs), r)))"

text \<open>Each iteration publishes its own number and then position 0.\<close>

fun publish_rounds :: "nat list \<Rightarrow> PreemptionRuntime \<Rightarrow> (bool \<times> bool) list \<times> PreemptionRuntime" where
  "publish_rounds [] r = ([], r)"
| "publish_rounds (i # is) r =
     (let (own, r) = publish_progress (word_of_nat i) ProgressKind.kDurable r;
          (back, r) = publish_progress 0 ProgressKind.kDurable r;
          (rest, r) = publish_rounds is r
      in ((own, back) # rest, r))"

fun count_decoded :: "nat \<Rightarrow> byte list \<Rightarrow> nat" where
  "count_decoded 0 bytes = 0"
| "count_decoded (Suc n) bytes = (case decode bytes of Inl err \<Rightarrow> 0 | Inr st \<Rightarrow> 1) + count_decoded n bytes"

definition bench_message :: Message where
  "bench_message = default_Message\<lparr>m_type := MessageType.kPublishProgress, m_progress_position := 42,
     m_detail := ''benchmark''\<rparr>"

definition assessment_threads :: "PreemptionRuntime \<Rightarrow> runtime_system" where
  "assessment_threads r = start_threads r (replicate 8 (replicate 20000 (Query QAssess)))"

text \<open>
  The program: the reports, with their names, the operations counted and the rates, and the count
  \<^verbatim>\<open>ok\<close> of decoded images. The results of the assessments, which do not change the runtime, and of
  the frame decoder are dropped, as in the code; an exception of \<^verbatim>\<open>encode_frame\<close> ends the program.
\<close>

definition benchmark_main :: "(nat \<Rightarrow> int) \<Rightarrow> PreemptionError + (string \<times> nat \<times> rat) list \<times> nat" where
  "benchmark_main clock =
     (let line = (\<lambda>name iters k. (name, iters, report iters (clock k) (clock (k + 1))))
      in fst (then_call (request_preemption bench_request bench_runtime) (\<lambda>_ r.
         then_call (repeat_call kIters (request_preemption bench_request) r) (\<lambda>_ r.
         let (rounds, r) = publish_rounds [0..<kIters] r;
             n = length rounds;
             ok = count_decoded 20000 (persist_bytes r)
         in case encode_frame bench_message of
              None \<Rightarrow> (Inl \<lparr>err_code = ''length_error'', err_message = ''message too large for frame''\<rparr>, r)
            | Some frame \<Rightarrow>
                (Inr ([line ''request admission'' kIters 0]
                   @ (if n > 0 then [line ''progress publication'' n 2] else [])
                   @ [line ''preemptibility assessment'' kIters 4, line ''persistence decode'' 20000 6,
                      line ''protocol encode+decode'' kIters 8, line ''concurrent assessment (8 threads)'' (20000 * 8) 10],
                   ok), r)))))"

subsection \<open>What the loops do\<close>

lemma repeat_fixpoint: "f r = (Inr x, r) \<Longrightarrow> repeat_call n f r = (Inr (replicate n x), r)"
  by (induction n) (simp_all add: then_call_def)

lemma count_decoded_all: "decode bytes = Inr st \<Longrightarrow> count_decoded n bytes = n"
  by (induction n) simp_all

text \<open>What publications leave alone, and what they need.\<close>

abbreviation without_progress :: "PreemptionRuntime \<Rightarrow> PreemptionRuntime" where
  "without_progress r \<equiv> r\<lparr>rt_current_position := 0, rt_progress_generation := gen_default,
     rt_durable_position := 0, rt_durable_progress_generation := gen_default\<rparr>"

definition only_progress :: "PreemptionRuntime \<Rightarrow> PreemptionRuntime \<Rightarrow> bool" where
  "only_progress r r' \<longleftrightarrow> without_progress r' = without_progress r"

definition publishable :: "PreemptionRuntime \<Rightarrow> bool" where
  "publishable r \<longleftrightarrow> is_attempt_authoritative r \<and> ad_attempt_boot (rt_adapters r) = rt_worker_boot r"

lemma only_progress_trans: "only_progress r r' \<Longrightarrow> only_progress r' r'' \<Longrightarrow> only_progress r r''"
  by (simp add: only_progress_def)

lemma only_progress_fields:
  assumes "only_progress r r'"
  shows "rt_adapters r' = rt_adapters r" "rt_worker_boot r' = rt_worker_boot r" "rt_execution_id r' = rt_execution_id r"
    "rt_attempt_id r' = rt_attempt_id r" "rt_machine r' = rt_machine r" "rt_state_durable r' = rt_state_durable r"
    "rt_safe_points r' = rt_safe_points r" "rt_history r' = rt_history r"
  using assms by (cases r; cases r'; simp add: only_progress_def)+

lemma only_progress_publishable: "only_progress r r' \<Longrightarrow> publishable r \<Longrightarrow> publishable r'"
  by (simp add: publishable_def is_attempt_authoritative_def only_progress_fields)

lemma publish_durable:
  assumes "publishable r"
  shows "fst (publish_progress pos ProgressKind.kDurable r) \<longleftrightarrow> rt_durable_position r \<le> pos"
    and "rt_durable_position (snd (publish_progress pos ProgressKind.kDurable r)) = max (rt_durable_position r) pos"
    and "only_progress r (snd (publish_progress pos ProgressKind.kDurable r))"
  using assms
  by (auto simp: publish_progress_def publishable_def is_attempt_authoritative_def ad_current_attempt_authority_def
      Let_def not_less max_def only_progress_def)

lemma word_less_of_nat: "i < j \<Longrightarrow> j < 2 ^ 64 \<Longrightarrow> (word_of_nat i :: u64) < word_of_nat j"
  by (simp add: word_less_nat_alt unat_of_nat)

lemma publish_rounds_rising:
  assumes "publishable r" "rt_durable_position r = word_of_nat d" "sorted_wrt (<) (d # is)" "\<forall>i \<in> set is. i < 2 ^ 64"
  shows "fst (publish_rounds is r) = replicate (length is) (True, False) \<and>
     rt_durable_position (snd (publish_rounds is r)) = word_of_nat (last (d # is)) \<and> only_progress r (snd (publish_rounds is r))"
  using assms
proof (induction "is" arbitrary: r d)
  case (Cons i "is")
  define r' where "r' = snd (publish_progress (word_of_nat i) ProgressKind.kDurable r)"
  define r'' where "r'' = snd (publish_progress 0 ProgressKind.kDurable r')"
  have less: "rt_durable_position r < word_of_nat i" using Cons.prems word_less_of_nat [of d i] by simp
  note own = publish_durable [OF Cons.prems(1), of "word_of_nat i", folded r'_def]
  have pos: "rt_durable_position r' = word_of_nat i" using own(2) less_imp_le [OF less] by (simp add: max_def)
  have pub': "publishable r'" using only_progress_publishable [OF own(3) Cons.prems(1)] .
  note again = publish_durable [OF pub', of 0, folded r''_def]
  have nonzero: "(word_of_nat i :: u64) > 0" using less word_coorder.extremum_strict by (metis word_gt_0 word_not_simps(1))
  have pos'': "rt_durable_position r'' = word_of_nat i" using again(2) pos by (simp add: max_def)
  have pub'': "publishable r''" using only_progress_publishable [OF again(3) pub'] .
  have ih: "fst (publish_rounds is r'') = replicate (length is) (True, False) \<and>
     rt_durable_position (snd (publish_rounds is r'')) = word_of_nat (last (i # is)) \<and> only_progress r'' (snd (publish_rounds is r''))"
    using Cons.IH [OF pub'' pos''] Cons.prems(3,4) by simp
  have "publish_rounds (i # is) r = ((True, False) # fst (publish_rounds is r''), snd (publish_rounds is r''))"
    using own(1) again(1) less pos nonzero
    by (simp add: case_prod_unfold Let_def flip: r'_def r''_def) (metis less_le)
  then show ?case using ih only_progress_trans [OF own(3) only_progress_trans [OF again(3)]] by auto
qed (simp add: only_progress_def)

section \<open>What is timed\<close>

definition bench_assessing :: PreemptionRuntime where
  "bench_assessing = snd (request_preemption bench_request bench_runtime)"

definition bench_published :: PreemptionRuntime where
  "bench_published = snd (publish_rounds [0..<kIters] bench_assessing)"

lemma bench_accepted: "adm_code (projr (fst (request_preemption bench_request bench_runtime))) = RequestAdmissionCode.kAccepted"
  "fst (request_preemption bench_request bench_runtime) =
     Inr \<lparr>adm_code = RequestAdmissionCode.kAccepted, adm_request_id = IdV 1, adm_generation = GenV 1\<rparr>"
  by code_simp+

lemma bench_duplicate: "request_preemption bench_request bench_assessing =
   (Inr \<lparr>adm_code = RequestAdmissionCode.kIdempotentDuplicate, adm_request_id = IdV 1, adm_generation = GenV 1\<rparr>, bench_assessing)"
  by code_simp

lemmas bench_admissions = repeat_fixpoint [where f = "request_preemption bench_request", OF bench_duplicate]

lemma bench_assessing_facts: "publishable bench_assessing" "rt_durable_position bench_assessing = 0"
  "rt_machine bench_assessing = LifecycleState.kAssessing" "\<not> rt_state_durable bench_assessing"
  "map fst (rt_safe_points bench_assessing) = [IdV 80]" "rt_history bench_assessing = []"
  by code_simp+

lemma bench_reachable: "reachable bench_assessing"
  unfolding bench_assessing_def bench_runtime_def start_reference_def by (intro reachable_call reachable.fresh)

lemma publish_rounds_reachable: "reachable r \<Longrightarrow> reachable (snd (publish_rounds is r))"
  by (induction "is" arbitrary: r) (simp_all add: case_prod_unfold Let_def reachable_call)

lemma rounds_from_zero: "[0..<kIters] = 0 # [1..<kIters]"
proof -
  have "0 < kIters" by (simp add: kIters_def)
  then show ?thesis by (simp add: upt_conv_Cons)
qed

lemma bench_rounds:
  "fst (publish_rounds [0..<kIters] bench_assessing) = (True, True) # replicate (kIters - 1) (True, False)"
  "rt_durable_position bench_published = word_of_nat (kIters - 1)" "only_progress bench_assessing bench_published"
proof -
  define r' where "r' = snd (publish_progress 0 ProgressKind.kDurable bench_assessing)"
  define r'' where "r'' = snd (publish_progress 0 ProgressKind.kDurable r')"
  note own = publish_durable [OF bench_assessing_facts(1), of 0, folded r'_def]
  have pub': "publishable r'" using only_progress_publishable [OF own(3) bench_assessing_facts(1)] .
  note again = publish_durable [OF pub', of 0, folded r''_def]
  have pub'': "publishable r''" using only_progress_publishable [OF again(3) pub'] .
  have zero: "rt_durable_position r' = 0" "rt_durable_position r'' = 0" using own(2) again(2) bench_assessing_facts(2) by simp_all
  have sorted: "sorted_wrt (<) (0 # [1..<kIters])" by simp
  have small: "\<forall>i \<in> set [1..<kIters]. i < 2 ^ 64" by (simp add: kIters_def)
  have "1 < kIters" by (simp add: kIters_def)
  then have last: "last (0 # [1..<kIters]) = kIters - 1" by simp
  have rounds: "publish_rounds [0..<kIters] bench_assessing =
      ((True, True) # fst (publish_rounds [1..<kIters] r''), snd (publish_rounds [1..<kIters] r''))"
    using own(1) again(1) zero bench_assessing_facts(2)
    by (simp only: rounds_from_zero publish_rounds.simps) (simp add: case_prod_unfold Let_def flip: r'_def r''_def)
  note rising = publish_rounds_rising [OF pub'' _ sorted small, unfolded last]
  show "fst (publish_rounds [0..<kIters] bench_assessing) = (True, True) # replicate (kIters - 1) (True, False)"
    "rt_durable_position bench_published = word_of_nat (kIters - 1)" "only_progress bench_assessing bench_published"
    using rising zero(2) only_progress_trans [OF own(3) only_progress_trans [OF again(3)]]
    by (simp_all add: bench_published_def rounds)
qed

lemma bench_decodes: "decode (persist_bytes bench_published) = Inr (snapshot bench_published)"
proof -
  note fields = only_progress_fields [OF bench_rounds(3)]
  have keys: "map fst (rt_safe_points bench_published) = [IdV 80]" using fields(7) bench_assessing_facts(5) by simp
  have "length (rt_safe_points bench_published) = 1" using arg_cong [OF keys, of length] by simp
  then have "stored_size bench_published < 2 ^ 32 + 16"
    using fields(8) bench_assessing_facts(6) by (simp add: stored_size_def)
  moreover have "fst ` set (rt_safe_points bench_published) = {IdV 80}" using arg_cong [OF keys, of set] by simp
  then have "loadable bench_published"
    using fields bench_assessing_facts by (simp add: loadable_def release_stage_def id_valid_simps)
  moreover have "runtime_inv bench_published"
    unfolding bench_published_def by (rule reachable_inv [OF publish_rounds_reachable [OF bench_reachable]])
  ultimately show ?thesis using decode_persist_bytes [of bench_published] by simp
qed

lemma replay_assess: "\<forall>c \<in> set cs. c = Query QAssess \<Longrightarrow>
   replay call_runtime cs r = (replicate (length cs) (VAssessment (assess r)), r)"
  by (induction cs) simp_all

text \<open>In a finished system the trace has every call, so it is as long as the programs together.\<close>

lemma trace_length: "(\<forall>e \<in> set tr. fst e < (n :: nat)) \<Longrightarrow> length tr = (\<Sum>i < n. length (filter (\<lambda>e. fst e = i) tr))"
proof (induction tr)
  case (Cons e tr)
  have "(\<Sum>i < n. length (filter (\<lambda>x. fst x = i) (e # tr))) =
      (\<Sum>i < n. (if fst e = i then 1 else 0) + length (filter (\<lambda>x. fst x = i) tr))"
    by (intro sum.cong) simp_all
  moreover have "(\<Sum>i < n. if fst e = i then 1 else 0 :: nat) = 1" using Cons.prems by (subst sum.delta') simp_all
  ultimately show ?case using Cons by (simp add: sum.distrib)
qed simp

lemma assessments:
  assumes run: "run_threads schedule (assessment_threads r) = Some s" and fin: "finished s"
  shows "sy_state s = r \<and> map (snd \<circ> snd) (sy_trace s) = replicate 160000 (VAssessment (assess r))"
proof -
  let ?p = "replicate 20000 (Query QAssess)"
  have lin: "runtime_lock.linear r (replicate 8 ?p) s"
    using runtime_lock.schedule_linear [OF run [unfolded assessment_threads_def]] by simp
  have tr: "\<forall>e \<in> set (sy_trace s). fst e < 8" "length (sy_threads s) = 8"
    using run_trace_threads [OF run [unfolded assessment_threads_def]] lin by (simp_all add: runtime_lock.linear_def)
  have eff: "effects_of i s = ?p" if "i < 8" for i
  proof -
    have "pending_of i s = []" using fin tr that by (simp add: finished_def pending_of_def)
    then show ?thesis using lin that by (auto simp: runtime_lock.linear_def)
  qed
  have "length (filter (\<lambda>e. fst e = i) (sy_trace s)) = 20000" if "i < 8" for i
    using arg_cong [OF eff [OF that], of length] by (simp add: effects_of_def)
  then have len: "length (sy_trace s) = 160000" using trace_length [of "sy_trace s" 8] tr by auto
  have "c = Query QAssess" if c: "c \<in> set (map (fst \<circ> snd) (sy_trace s))" for c
  proof -
    obtain e where e: "e \<in> set (sy_trace s)" "c = fst (snd e)" using c by auto
    then have "c \<in> set (effects_of (fst e) s)" by (auto simp: effects_of_def)
    moreover have "fst e < 8" using tr(1) e(1) by blast
    ultimately show ?thesis using eff by simp
  qed
  then have "replay call_runtime (map (fst \<circ> snd) (sy_trace s)) r = (replicate 160000 (VAssessment (assess r)), r)"
    using replay_assess [of "map (fst \<circ> snd) (sy_trace s)" r] len by simp
  then show ?thesis using lin unfolding runtime_lock.linear_def by (metis prod.inject)
qed

text \<open>
  C37: the benchmark times the operations it names, and all of them complete. The program throws
  nothing and reports six rates; the admission loop gets the idempotent answer every time and leaves the
  runtime alone; every publication of an iteration's own number is accepted, the publication of 0 that
  follows it only in the first iteration, and the durable position ends at the last number; all 20000
  decodings of the stored image succeed and the frame decodes to the message; and however the eight threads are
  scheduled, all 160000 concurrent assessments return the same assessment and change nothing.
\<close>
theorem benchmark_work_complete:
  "(\<exists>lines. benchmark_main clock = Inr (lines, 20000) \<and> map (fst \<circ> snd) lines = [kIters, kIters, kIters, 20000, kIters, 160000]) \<and>
   (\<exists>dup. repeat_call kIters (request_preemption bench_request) bench_assessing = (Inr (replicate kIters dup), bench_assessing) \<and>
      adm_code dup = RequestAdmissionCode.kIdempotentDuplicate) \<and>
   fst (publish_rounds [0..<kIters] bench_assessing) = (True, True) # replicate (kIters - 1) (True, False) \<and>
   durable_progress bench_published = word_of_nat (kIters - 1) \<and>
   (\<exists>frame. encode_frame bench_message = Some frame \<and> decode_frame frame = Inr bench_message) \<and>
   (\<forall>schedule s. run_threads schedule (assessment_threads bench_published) = Some s \<and> finished s \<longrightarrow>
      sy_state s = bench_published \<and>
      map (snd \<circ> snd) (sy_trace s) = replicate 160000 (VAssessment (assess bench_published)))"
proof (intro conjI)
  show frame: "\<exists>frame. encode_frame bench_message = Some frame \<and> decode_frame frame = Inr bench_message"
  proof -
    have "sendable bench_message" by (simp add: sendable_def bench_message_def default_Message_def)
    then show ?thesis using encode_frame_eq [OF sendable_body(1)] decode_frame_bytes by blast
  qed
  have "0 < kIters" by (simp add: kIters_def)
  then show "\<exists>lines. benchmark_main clock = Inr (lines, 20000) \<and>
      map (fst \<circ> snd) lines = [kIters, kIters, kIters, 20000, kIters, 160000]"
    unfolding benchmark_main_def then_call_Inr [OF bench_accepted(2)] bench_assessing_def [symmetric]
      bench_admissions
    using bench_rounds(1) frame count_decoded_all [OF bench_decodes]
    by (auto simp: then_call_def case_prod_unfold Let_def simp flip: bench_published_def)
  show "\<exists>dup. repeat_call kIters (request_preemption bench_request) bench_assessing = (Inr (replicate kIters dup), bench_assessing) \<and>
      adm_code dup = RequestAdmissionCode.kIdempotentDuplicate"
    unfolding bench_admissions by auto
qed (use bench_rounds assessments in \<open>auto simp: durable_progress_def\<close>)

theorem benchmark_work_complete_witness:
  "\<exists>schedule s. run_threads schedule (assessment_threads bench_published) = Some s \<and> finished s \<and> sy_state s = bench_published"
proof -
  obtain schedule s where "run_threads schedule (assessment_threads bench_published) = Some s" "finished s"
    using can_finish [where exec = call_runtime and writes = call_writes,
        OF start_lock_inv [of call_lock bench_published "replicate 8 (replicate 20000 (Query QAssess))"]]
    by (auto simp: assessment_threads_def)
  then show ?thesis using benchmark_work_complete by blast
qed

end
