(* ===== verification/Spec2Isabelle.thy ===== *)
theory Spec2Isabelle
  imports PF_Runtime_Props PF_Runtime_Moves PF_Session PF_Cuda PF_Benchmarks
begin

text \<open>
  Preemption Fabric: a verification development.

  \<^bold>\<open>The program.\<close> Preemption Fabric governs the safe interruption of one execution: it admits a
  preemption request, takes the execution to a safe point, waits for quiescence, makes the state
  durable, releases the resources, commits the preemption and later resumes the execution under
  fresh authority. The parts and the theories that model them, in the order of the imports:

  \<^item> \<open>PF_Prelude\<close>: word synonyms, \<^verbatim>\<open>std::map\<close> as an association list in key order (with its contract
    as a locale), executions of a step relation, and the locale \<open>gated_region\<close>: a set of states
    that a step relation can only leave through a gate.
  \<^item> \<open>PF_Identity\<close>, \<open>PF_Enums\<close> (\<^verbatim>\<open>core/identity.hpp\<close>, \<^verbatim>\<open>core/enums.hpp\<close>, \<^verbatim>\<open>core/enum_codec.hpp\<close>): ids and
    generations as datatypes over 64-bit words with a phantom domain, the enums with their wire
    values and names. Locales: \<open>saturating_counter\<close>, \<open>wire_enum\<close>, \<open>name_table\<close>, each interpreted on every
    instance the code has.
  \<^item> \<open>PF_Checked\<close>, \<open>PF_Crc32\<close>, \<open>PF_Binary\<close> (\<^verbatim>\<open>util/\<close>): checked arithmetic over the limits of an arbitrary
    integer type, the table-driven CRC-32 with its equivalence to the bit-serial one and its burst
    detection (any run of up to four bytes, also across the end of the checksummed data), the little-endian writer and the bounds-checked reader.
  \<^item> \<open>PF_Lifecycle\<close> (\<^verbatim>\<open>lifecycle/lifecycle.hpp\<close>, \<^verbatim>\<open>util/error.hpp\<close>): the transition table and the guarded
    machine, its termination and its gates.
  \<^item> \<open>PF_Domains\<close>, \<open>PF_Adapters\<close>, \<open>PF_Priority\<close> (\<^verbatim>\<open>domains/\<close>, \<^verbatim>\<open>adapters/\<close>, \<^verbatim>\<open>priority/\<close>): the records the
    runtime exchanges, the reference adapters with every method, the inversion evidence. The
    abstract classes of \<^verbatim>\<open>interfaces.hpp\<close> that the runtime relies on are the locales
    \<open>execution_fabric\<close>, \<open>checkpoint_fabric\<close> and \<open>resource_broker\<close>, interpreted on the reference adapters.
  \<^item> \<open>PF_Persistence\<close> (\<^verbatim>\<open>persistence/\<close>, \<^verbatim>\<open>src/persistence/store.cpp\<close>): the stored image, \<open>encode\<close>, \<open>decode\<close>
    with all its checks, and \<open>validate_state\<close> against the predicate \<open>image_ok\<close>.
  \<^item> \<open>PF_Runtime\<close> (\<^verbatim>\<open>runtime.hpp\<close>, \<^verbatim>\<open>src/runtime.cpp\<close>): the class \<^verbatim>\<open>PreemptionRuntime\<close> as a record, one
    definition per method. \<open>PF_Runtime_Steps\<close> makes it a transition system (\<open>runtime_op\<close>, \<open>perform\<close>,
    \<open>reachable\<close>) with one effect lemma per method; \<open>PF_Runtime_Safety\<close> has the invariant of the reachable
    runtimes, the stages and the fencing; \<open>PF_Runtime_Moves\<close> the exact table of the lifecycle moves that
    each method can make; \<open>PF_Runtime_Flows\<close> the admission, release, complete preemption and resume;
    \<open>PF_Runtime_Persist\<close> restart; \<open>PF_Runtime_Props\<close> the properties with a concrete execution.
  \<^item> \<open>PF_Protocol\<close>, \<open>PF_Connection\<close> (\<^verbatim>\<open>protocol/\<close>): messages, frames, the streaming decoder, the send and
    receive loops over a socket.
  \<^item> \<open>PF_Worker\<close>, \<open>PF_Coordinator\<close> (\<^verbatim>\<open>src/coordinator/\<close>): the two reference processes, with the lambdas and
    the branches of their command loops. The coordinator's socket calls may also never return, and a
    send may end the process by \<^verbatim>\<open>SIGPIPE\<close>.
  \<^item> \<open>PF_Process\<close>: the sockets of \<^verbatim>\<open>src/protocol/connection.cpp\<close> with the open descriptors as a set, the
    command lines, and the worker process down to its system calls and bytes, shown to refine the
    message loop of \<open>PF_Worker\<close>. \<open>PF_Coordinator_Exit\<close>: the \<^verbatim>\<open>main\<close> of the coordinator and how it
    ends for every behaviour of its peers: with which exit code, by an uncaught exception, by the signal,
    or waiting for ever.
  \<^item> \<open>PF_Session\<close>: both processes together, every message through the frame encoder and the streaming
    decoder, with the reference scenario end to end.
  \<^item> \<open>PF_Queries\<close>: the query methods of the runtime. \<open>PF_Mutex\<close>: threads on an object with a
    \<^verbatim>\<open>std::shared_mutex\<close>, whose loads and stores interleave, with the locale \<open>locked_object\<close> (what a class must
    promise) and its consequences: exclusion, linearizability, no deadlock. \<open>PF_Concurrency\<close>: every
    public method of the runtime as a call with the lock it takes, the interpretation of the locale, and
    which pairs of methods are not excluded.
  \<^item> \<open>PF_Programs\<close> (\<^verbatim>\<open>src/tools/inspect.cpp\<close>, \<^verbatim>\<open>examples/\<close>, \<^verbatim>\<open>downstream_consumer/\<close>): the programs that drive
    the runtime in one process, with what they print and return.
  \<^item> \<open>PF_Cuda\<close> (\<^verbatim>\<open>cuda/cuda_proof.cu\<close>): the kernel, the launches with their threads in any order, the
    reference computation and the parity check over an arbitrary arithmetic, and the scenarios.
  \<^item> \<open>PF_Benchmarks\<close> (\<^verbatim>\<open>benchmarks/\<close>): both benchmark programs over the readings of the clock.

  \<^bold>\<open>How the code is rendered.\<close> State is passed explicitly: a method takes the record and returns its
  result and the new record. An exception is \<open>Inl\<close> of the error together with the state at the
  throw; the state is kept because a method that throws after an assignment has made it.
  \<^verbatim>\<open>std::uint64_t\<close> and the other fixed-width integers are words, so increments wrap where the code's
  do. The runtime's adapters object is shared with other code; it is a field of the record, and
  the transition system has an operation that replaces it arbitrarily, so the safety properties
  hold whatever other holders of the object do in between. All public methods that change the
  runtime are operations of the transition system. One of them, \<^verbatim>\<open>restore(const PersistentState&)\<close>,
  installs any image without a check, so \<open>reachable\<close> admits it for images that pass \<open>validate_state\<close>
  (\<open>validated_op\<close>), which is what \<^verbatim>\<open>restore_bytes\<close> and \<^verbatim>\<open>load\<close> ensure before they call it;
  \<open>unvalidated_restore_breaks_boundary\<close> shows that the condition is needed. The properties of stages hold over
  executions (\<open>step_loading\<close>) whose loads do not themselves install a later stage. A method is one step
  of the transition system. For the methods that take the runtime's mutex this is justified by
  \<open>concurrent_calls_linearize\<close>: threads that interleave inside the bodies produce only results and states
  of a sequential order. The methods that take no lock (\<^verbatim>\<open>set_priority_generation\<close>,
  \<^verbatim>\<open>is_attempt_authoritative\<close> and the inline getters) are outside that theorem; \<open>unlocked_methods_overlap\<close>
  names them and shows that exactly these are not excluded. \<^verbatim>\<open>save\<close> and \<^verbatim>\<open>load\<close> take the locks of
  \<^verbatim>\<open>persist_bytes\<close> and \<^verbatim>\<open>restore_bytes\<close> and are no calls of their own.

  \<^bold>\<open>Bounds.\<close> Loops over data are structural recursion or folds. The socket loops take the list of
  the results of the system calls and end as blocked when it runs out; \<open>send_returns\<close> shows how many
  results suffice. The byte-level worker terminates because every message it receives consumes bytes
  that are still undelivered. A schedule of threads has four steps per call. Sizes appear where the code has them: an image must fit its 32-bit length
  field (\<open>stored_size\<close>), a frame body the limit of 64 KiB.

  \<^bold>\<open>What the properties show.\<close> Safety over all executions (PREEMPTED implies quiescence, durability and
  release; the stages are not skipped; a fenced attempt publishes nothing; a resume needs a
  revalidation; one admission; monotone progress; exactly two situations throw), complete flows
  (a preemption and a resume with their evidence in order complete; the coordinator's scenario; the
  two processes over the wire), the exact lifecycle moves of every method, well-formedness of every
  reachable runtime, linearizability of concurrent calls, how the coordinator ends, invisibility of a preemption to the device computation,
  storage and wire round trips with corruption detection, restart, exact accounting, equivalence of
  the table-driven checksum, exactness of checked arithmetic, termination of the lifecycle. Some
  theorems record behaviour that surprises: a restart lifts the fence, a preemption command before
  the start ends the coordinator by an exception (and no command after it can), the acknowledgement of
  SHUTDOWN carries no authority, the two frame decoders disagree on relabelled frames, a release
  in flight cannot be reloaded, completion aborts a preempted execution.

  \<^bold>\<open>Not modelled.\<close> Single-precision arithmetic: the CUDA program is stated over any arithmetic, with the
  agreement of host and device multiplication as a hypothesis, and the success of its allocations and
  the returned memory are arguments; its copies and launches succeed, as the code assumes, and an access
  outside an allocation is \<open>None\<close>. \<^verbatim>\<open>SIGPIPE\<close> in the worker process: its sends are given by their results, as
  where the signal is ignored. The Winsock
  variants of the socket calls, the lines that the worker, the coordinator and the benchmarks print
  (those of the coordinator that report an outcome are events), and the tests. \<^verbatim>\<open>std::hash\<close>, the contents of
  files, the results of system calls and the clock are arguments. Threads see the runtime's fields as one
  value that a body loads and stores; weak memory and torn reads of the unlocked methods are not
  modelled. The one-time initialisation of the CRC table is not modelled: the table is a constant.
\<close>

end
